theory Spec2Isabelle
  imports Complex_Main "HOL-Library.Word" "HOL-Library.Log_Nat"
begin

section \<open>The H3C SNMP simulator: data model\<close>

text \<open>
  The embedding follows the simulator's Go source (package \<open>main\<close>: the package-level
  variables, \<open>monitorSystemMetrics\<close>, \<open>incrementCounters\<close> and the closure
  \<open>updateOidValue\<close>).

  \<^item> Go's \<open>uint32\<close>, \<open>int32\<close> and \<open>uint64\<close> are words: \<open>+\<close> and \<open>-\<close> wrap.
    An \<open>int32\<close> is a 32-bit word read through \<open>sint\<close>.
  \<^item> A \<open>float64\<close> is the real number it denotes, and an operation whose result need not
    be a float64 is followed by \<open>round64\<close>, the rounding to the nearest value with a 53-bit
    significand, ties to the even one: the divisions and additions of \<open>Duration.Seconds\<close>,
    the conversion of a \<open>uint64\<close> difference, the division of the rates and the
    multiplication of the uptime by 100. The exponent range, the infinities and NaN are left
    out: no value of the program comes near them. The CPU and temperature variables only ever
    hold small integers, and a memory utilisation that is not clamped comes from fewer than
    \<open>2^29\<close> allocated bytes, for which the division by \<open>2^29\<close> and the multiplication by
    100 are exact: no rounding is written there.
  \<^item> An OID key is the list of its arcs: \<open>".1.3.6.1.2.1.1.3.0"\<close> is
    \<open>[1,3,6,1,2,1,1,3,0]\<close>. The dotted rendering built by \<open>fmt.Sprintf\<close> is injective on
    arc lists, so two keys collide in the Go map exactly when the lists are equal.
  \<^item> A label vector of a \<open>GaugeVec\<close>/\<open>CounterVec\<close> is the pair of the interface
    (fan, PSU) index, rendered by \<open>"%d"\<close> in the source, and the description.
  \<^item> \<open>rand.Intn n\<close> reads the shared generator: the generator is a stream of raw
    outputs, and a draw reduces the next one into \<open>[0, n)\<close>.
  \<^item> A time is a count of nanoseconds; \<open>Time.Sub\<close> is the difference (its saturation
    at the ends of \<open>int64\<close> is left out). \<open>Duration.Seconds\<close> is the library's
    \<open>float64(d / Second) + float64(d % Second) / 1e9\<close>, in float64.
  \<^item> What a tick reads from the runtime and the clock (\<open>runtime.MemStats\<close>,
    \<open>runtime.NumGoroutine\<close>, the ticker's time, \<open>time.Now\<close>, \<open>time.Since\<close>) is an
    input of the tick.
  \<^item> One iteration of a ticker loop is one atomic step of the model: the interleaving of
    the two goroutines inside an iteration is not modelled.
\<close>

type_synonym float64 = real
type_synonym uint32 = "32 word"
type_synonym int32 = "32 word"
type_synonym uint64 = "64 word"
type_synonym oid = "int list"
type_synonym time = int
type_synonym rng = "nat \<Rightarrow> nat"
type_synonym labels = "int \<times> string"

datatype Asn1BER =
    Integer | OctetString | Null | ObjectIdentifier | IPAddress
  | Counter32 | Gauge32 | TimeTicks | Opaque | Counter64

text \<open>The dynamic type and value held by an \<open>interface{}\<close>.\<close>

datatype go_value =
    GoBytes string
  | GoUint32 uint32
  | GoInt32 int32
  | GoInt int
  | GoUint64 uint64
  | GoFloat64 float64
  | GoString string
  | GoNil

record SnmpPDU =
  Name :: oid
  Type :: Asn1BER
  Value :: go_value

record interfaceData =
  index :: int32
  descr :: string
  adminStatus :: int32
  operStatus :: int32
  inOctets :: uint64
  outOctets :: uint64
  lastInOctets :: uint64
  lastOutOctets :: uint64
  lastUpdateTime :: time
  inErrors :: uint64
  outDiscards :: uint64

record fanData =
  fan_index :: int32
  fan_descr :: string
  fan_status :: int32

record psuData =
  psu_index :: int32
  psu_descr :: string
  psu_status :: int32

datatype log_entry =
    FanFailed string int32
  | FanNormal string int32
  | PsuFailed string int32
  | PsuNormal string int32
  | TypeMismatch oid string
  | UnhandledType oid Asn1BER

text \<open>
  The program state: the package-level metrics of the push registry, the OID map, the three
  entity slices, the variables local to \<open>monitorSystemMetrics\<close> that live across its
  iterations (\<open>lastGCCount\<close>, \<open>simulatedDeviceCPU\<close>, \<open>simulatedDeviceTemp\<close>), the random
  generator and the log written so far.
\<close>

record sim_state =
  gcCount :: float64
  memoryUsage :: float64
  goroutineCount :: float64
  cpuUsage :: float64
  uptime :: float64
  ifInRate :: "labels \<rightharpoonup> float64"
  ifOutRate :: "labels \<rightharpoonup> float64"
  simMemoryUtilPercent :: float64
  simDeviceTemperatureCelsius :: float64
  simFanStatus :: "labels \<rightharpoonup> float64"
  simPsuStatus :: "labels \<rightharpoonup> float64"
  simIfInErrorsTotal :: "labels \<rightharpoonup> float64"
  simIfOutDiscardsTotal :: "labels \<rightharpoonup> float64"
  simArpCacheEntries :: float64
  simMacTableEntries :: float64
  simActiveTcpConnections :: float64
  oidMap :: "oid \<rightharpoonup> SnmpPDU"
  interfaces :: "interfaceData list"
  fans :: "fanData list"
  psus :: "psuData list"
  lastGCCount :: uint32
  simulatedDeviceCPU :: float64
  simulatedDeviceTemp :: float64
  rnd :: rng
  logged :: "log_entry list"

text \<open>What one iteration of \<open>monitorSystemMetrics\<close> reads from the runtime and the clock.\<close>

record fast_env =
  currentTime :: time
  memAlloc :: uint64
  memNumGC :: uint32
  numGoroutineGauge :: int
  numGoroutineOid :: int
  sinceStart :: int

subsection \<open>Constants and conversions\<close>

definition baseSystemOIDPrefix :: oid where
  "baseSystemOIDPrefix = [1, 3, 6, 1, 2, 1, 1]"

definition baseInterfacesOIDPrefix :: oid where
  "baseInterfacesOIDPrefix = [1, 3, 6, 1, 2, 1, 2]"

definition customSimBaseOIDPrefix :: oid where
  "customSimBaseOIDPrefix = [1, 3, 6, 1, 4, 1, 2021, 13]"

definition customSimSystemOIDPrefix :: oid where
  "customSimSystemOIDPrefix = customSimBaseOIDPrefix @ [1]"

definition customSimIfRateOIDPrefix :: oid where
  "customSimIfRateOIDPrefix = customSimBaseOIDPrefix @ [2]"

definition customSimH3CCommonOIDPrefix :: oid where
  "customSimH3CCommonOIDPrefix = customSimBaseOIDPrefix @ [3]"

definition simulatedTotalMemoryBytes :: float64 where
  "simulatedTotalMemoryBytes = 512 * 1024 * 1024"

text \<open>\<open>rand.Intn n\<close>, for the positive constants \<open>n\<close> of the source.\<close>

definition Intn :: "nat \<Rightarrow> rng \<Rightarrow> nat \<times> rng" where
  "Intn n g = (g 0 mod n, \<lambda>k. g (Suc k))"

text \<open>
  Rounding of a real number to float64. \<open>binade x\<close> is the exponent \<open>e\<close> with
  \<open>2^e \<le> x < 2^(e+1)\<close>; a float64 in that binade is a multiple of \<open>2^(e-52)\<close>.
\<close>

definition round_half_even :: "real \<Rightarrow> int" where
  "round_half_even x =
     (let f = \<lfloor>x\<rfloor>
      in if x - of_int f < 1 / 2 then f
         else if x - of_int f > 1 / 2 then f + 1
         else if even f then f else f + 1)"

definition binade :: "real \<Rightarrow> int" where
  "binade x = (if 1 \<le> x then bitlen \<lfloor>x\<rfloor> - 1 else - bitlen (\<lceil>1 / x\<rceil> - 1))"

definition round64 :: "real \<Rightarrow> float64" where
  "round64 x =
     (if x = 0 then 0
      else (let e = binade \<bar>x\<bar> - 52
            in sgn x * of_int (round_half_even (\<bar>x\<bar> / 2 powi e)) * 2 powi e))"

text \<open>
  \<open>Duration.Seconds\<close>: the integer division and remainder of Go truncate towards zero,
  the two conversions, the division and the addition are float64 operations.
\<close>

definition Seconds :: "int \<Rightarrow> float64" where
  "Seconds d =
     (let sec = sgn d * (\<bar>d\<bar> div 1000000000);
          nsec = sgn d * (\<bar>d\<bar> mod 1000000000)
      in round64 (round64 (of_int sec) + round64 (round64 (of_int nsec) / 1000000000)))"

text \<open>
  Conversion of a float64 to an integer type truncates towards zero. Go leaves the result
  to the implementation when the truncated value does not fit. The model follows the amd64
  compiler: a conversion to \<open>uint32\<close> goes through \<open>int64\<close> and keeps the low 32 bits,
  and a value that does not fit \<open>int64\<close> gives 0; a conversion to \<open>int32\<close> of a value that
  does not fit gives \<open>-2^31\<close>.
\<close>

definition float_trunc :: "float64 \<Rightarrow> int" where
  "float_trunc x = (if 0 \<le> x then \<lfloor>x\<rfloor> else \<lceil>x\<rceil>)"

definition float_to_uint32 :: "float64 \<Rightarrow> uint32" where
  "float_to_uint32 x =
     (if - (2 ^ 63) \<le> float_trunc x \<and> float_trunc x < 2 ^ 63
      then word_of_int (float_trunc x) else 0)"

definition float_to_int32 :: "float64 \<Rightarrow> int32" where
  "float_to_int32 x =
     (if - (2 ^ 31) \<le> float_trunc x \<and> float_trunc x < 2 ^ 31
      then word_of_int (float_trunc x) else word_of_int (- (2 ^ 31)))"

definition labelsOf :: "int32 \<Rightarrow> string \<Rightarrow> labels" where
  "labelsOf i d = (sint i, d)"

text \<open>\<open>vec.WithLabelValues(...).Set(x)\<close> and \<open>vec.WithLabelValues(...).Add(x)\<close>.\<close>

definition vecSet :: "(labels \<rightharpoonup> float64) \<Rightarrow> labels \<Rightarrow> float64 \<Rightarrow> (labels \<rightharpoonup> float64)" where
  "vecSet m l x = m(l \<mapsto> x)"

definition vecAdd :: "(labels \<rightharpoonup> float64) \<Rightarrow> labels \<Rightarrow> float64 \<Rightarrow> (labels \<rightharpoonup> float64)" where
  "vecAdd m l x = m(l \<mapsto> (case m l of None \<Rightarrow> 0 | Some v \<Rightarrow> v) + x)"

subsection \<open>The keys of the OID map\<close>

definition sysUpTimeOID :: oid where
  "sysUpTimeOID = baseSystemOIDPrefix @ [3, 0]"

definition simGoroutinesOID :: oid where
  "simGoroutinesOID = customSimSystemOIDPrefix @ [2, 0]"

definition simGcCountOID :: oid where
  "simGcCountOID = customSimSystemOIDPrefix @ [3, 0]"

definition simMemoryMBOID :: oid where
  "simMemoryMBOID = customSimSystemOIDPrefix @ [4, 0]"

definition simUptimeSecOID :: oid where
  "simUptimeSecOID = customSimSystemOIDPrefix @ [5, 0]"

definition simCpuOID :: oid where
  "simCpuOID = customSimSystemOIDPrefix @ [6, 0]"

definition simMemoryUtilOID :: oid where
  "simMemoryUtilOID = customSimH3CCommonOIDPrefix @ [2, 0]"

definition simTemperatureOID :: oid where
  "simTemperatureOID = customSimH3CCommonOIDPrefix @ [3, 0]"

definition simArpOID :: oid where
  "simArpOID = customSimH3CCommonOIDPrefix @ [8, 0]"

definition simMacOID :: oid where
  "simMacOID = customSimH3CCommonOIDPrefix @ [9, 0]"

definition simTcpOID :: oid where
  "simTcpOID = customSimH3CCommonOIDPrefix @ [10, 0]"

definition ifInRateOID :: "int32 \<Rightarrow> oid" where
  "ifInRateOID i = customSimIfRateOIDPrefix @ [sint i, 1]"

definition ifOutRateOID :: "int32 \<Rightarrow> oid" where
  "ifOutRateOID i = customSimIfRateOIDPrefix @ [sint i, 2]"

definition ifInErrorsOID :: "int32 \<Rightarrow> oid" where
  "ifInErrorsOID i = customSimH3CCommonOIDPrefix @ [6, 1, sint i]"

definition ifOutDiscardsOID :: "int32 \<Rightarrow> oid" where
  "ifOutDiscardsOID i = customSimH3CCommonOIDPrefix @ [7, 1, sint i]"

definition fanStatusOID :: "int32 \<Rightarrow> oid" where
  "fanStatusOID i = customSimH3CCommonOIDPrefix @ [4, 1, sint i]"

definition psuStatusOID :: "int32 \<Rightarrow> oid" where
  "psuStatusOID i = customSimH3CCommonOIDPrefix @ [5, 1, sint i]"

section \<open>The scalar-update path\<close>

text \<open>
  The closure \<open>updateOidValue\<close> of \<open>monitorSystemMetrics\<close>: it reads and writes the OID
  map and logs warnings. The result is the map and the warnings written by the call.
\<close>

definition updateOidValue ::
  "oid \<Rightarrow> go_value \<Rightarrow> (oid \<rightharpoonup> SnmpPDU) \<Rightarrow> (oid \<rightharpoonup> SnmpPDU) \<times> log_entry list" where
  "updateOidValue k val m =
     (case m k of
        Some pdu \<Rightarrow>
          (if Type pdu = Gauge32 \<or> Type pdu = Counter32 \<or> Type pdu = TimeTicks then
             (case val of
                GoUint32 v \<Rightarrow> (m(k \<mapsto> pdu\<lparr>Value := GoUint32 v\<rparr>), [])
              | _ \<Rightarrow> (m, [TypeMismatch k ''uint32'']))
           else if Type pdu = Integer then
             (case val of
                GoInt32 v \<Rightarrow> (m(k \<mapsto> pdu\<lparr>Value := GoInt32 v\<rparr>), [])
              | _ \<Rightarrow> (m, [TypeMismatch k ''int32'']))
           else (m, [UnhandledType k (Type pdu)]))
      | None \<Rightarrow> (m, []))"

definition putOid :: "oid \<Rightarrow> go_value \<Rightarrow> sim_state \<Rightarrow> sim_state" where
  "putOid k val s =
     (case updateOidValue k val (oidMap s) of
        (m, l) \<Rightarrow> s\<lparr>oidMap := m, logged := logged s @ l\<rparr>)"

section \<open>The fast cycle: one iteration of \<open>monitorSystemMetrics\<close>\<close>

definition updateAppMetrics :: "fast_env \<Rightarrow> sim_state \<Rightarrow> sim_state" where
  "updateAppMetrics e s =
     (let s1 = (if memNumGC e > lastGCCount s
                then s\<lparr>gcCount := gcCount s + real (unat (memNumGC e - lastGCCount s)),
                       lastGCCount := memNumGC e\<rparr>
                else s)
      in s1\<lparr>memoryUsage := real (unat (memAlloc e)),
            goroutineCount := real_of_int (numGoroutineGauge e),
            uptime := uptime s1 + 1\<rparr>)"

definition stepCPU :: "sim_state \<Rightarrow> sim_state" where
  "stepCPU s =
     (case Intn 11 (rnd s) of
        (r, g) \<Rightarrow>
          (let cpuChange = real_of_int (int r - 5);
               cpu0 = simulatedDeviceCPU s + cpuChange;
               cpu = (if cpu0 < 5 then 5 else if cpu0 > 90 then 90 else cpu0)
           in s\<lparr>rnd := g, simulatedDeviceCPU := cpu, cpuUsage := cpu\<rparr>))"

definition currentDeviceMemoryUtil :: "fast_env \<Rightarrow> float64" where
  "currentDeviceMemoryUtil e =
     (let u = (real (unat (memAlloc e)) / simulatedTotalMemoryBytes) * 100
      in if u > 95 then 95 else if u < 10 then 10 else u)"

definition stepMemory :: "fast_env \<Rightarrow> sim_state \<Rightarrow> sim_state" where
  "stepMemory e s = s\<lparr>simMemoryUtilPercent := currentDeviceMemoryUtil e\<rparr>"

definition stepTemp :: "sim_state \<Rightarrow> sim_state" where
  "stepTemp s =
     (case Intn 5 (rnd s) of
        (r, g) \<Rightarrow>
          (let tempChange = real_of_int (int r - 2);
               t0 = simulatedDeviceTemp s + tempChange;
               t = (if t0 < 20 then 20 else if t0 > 75 then 75 else t0)
           in s\<lparr>rnd := g, simulatedDeviceTemp := t, simDeviceTemperatureCelsius := t\<rparr>))"

text \<open>
  The body of the loop over \<open>interfaces\<close>. The loop holds the read lock of the slice, so
  \<open>interfaces[i]\<close> and the copy \<open>iface\<close> agree.
\<close>

definition inRateBps :: "time \<Rightarrow> interfaceData \<Rightarrow> float64" where
  "inRateBps now iface =
     round64 (round64 (real (unat (inOctets iface - lastInOctets iface)))
              / Seconds (now - lastUpdateTime iface))"

definition outRateBps :: "time \<Rightarrow> interfaceData \<Rightarrow> float64" where
  "outRateBps now iface =
     round64 (round64 (real (unat (outOctets iface - lastOutOctets iface)))
              / Seconds (now - lastUpdateTime iface))"

definition publishRate :: "time \<Rightarrow> interfaceData \<Rightarrow> sim_state \<Rightarrow> sim_state" where
  "publishRate now iface s =
     (if operStatus iface = 1 then
        (if Seconds (now - lastUpdateTime iface) > 0 then
           s\<lparr>ifInRate := vecSet (ifInRate s) (labelsOf (index iface) (descr iface))
                           (inRateBps now iface),
             ifOutRate := vecSet (ifOutRate s) (labelsOf (index iface) (descr iface))
                           (outRateBps now iface),
             oidMap := (oidMap s)
               (ifInRateOID (index iface) \<mapsto>
                  \<lparr>Name = ifInRateOID (index iface), Type = Gauge32,
                   Value = GoUint32 (float_to_uint32 (inRateBps now iface))\<rparr>,
                ifOutRateOID (index iface) \<mapsto>
                  \<lparr>Name = ifOutRateOID (index iface), Type = Gauge32,
                   Value = GoUint32 (float_to_uint32 (outRateBps now iface))\<rparr>,
                ifInErrorsOID (index iface) \<mapsto>
                  \<lparr>Name = ifInErrorsOID (index iface), Type = Counter32,
                   Value = GoUint32 (ucast (inErrors iface))\<rparr>,
                ifOutDiscardsOID (index iface) \<mapsto>
                  \<lparr>Name = ifOutDiscardsOID (index iface), Type = Counter32,
                   Value = GoUint32 (ucast (outDiscards iface))\<rparr>)\<rparr>
         else s)
      else s)"

fun publishRates :: "time \<Rightarrow> interfaceData list \<Rightarrow> sim_state \<Rightarrow> sim_state" where
  "publishRates now [] s = s"
| "publishRates now (iface # rest) s = publishRates now rest (publishRate now iface s)"

definition updateInterfaceRates :: "fast_env \<Rightarrow> sim_state \<Rightarrow> sim_state" where
  "updateInterfaceRates e s = publishRates (currentTime e) (interfaces s) s"

text \<open>The body of the loop over \<open>fans\<close>: the element after the iteration, and the state.\<close>

definition flipFan :: "nat \<Rightarrow> fanData \<Rightarrow> fanData \<times> log_entry list" where
  "flipFan r f =
     (if r < 1 then
        (if fan_status f = 1
         then (f\<lparr>fan_status := 2\<rparr>, [FanFailed (fan_descr f) (fan_index f)])
         else (f\<lparr>fan_status := 1\<rparr>, [FanNormal (fan_descr f) (fan_index f)]))
      else (f, []))"

definition fanStep :: "fanData \<Rightarrow> sim_state \<Rightarrow> fanData \<times> sim_state" where
  "fanStep f s =
     (case Intn 200 (rnd s) of
        (r, g) \<Rightarrow>
          (case flipFan r f of
             (f1, l) \<Rightarrow>
               (f1, s\<lparr>rnd := g, logged := logged s @ l,
                      simFanStatus := vecSet (simFanStatus s)
                        (labelsOf (fan_index f1) (fan_descr f1)) (real_of_int (sint (fan_status f1))),
                      oidMap := (oidMap s)
                        (fanStatusOID (fan_index f1) \<mapsto>
                           \<lparr>Name = fanStatusOID (fan_index f1), Type = Integer,
                            Value = GoInt32 (fan_status f1)\<rparr>)\<rparr>)))"

fun fanLoop :: "fanData list \<Rightarrow> sim_state \<Rightarrow> fanData list \<times> sim_state" where
  "fanLoop [] s = ([], s)"
| "fanLoop (f # fs) s =
     (case fanStep f s of
        (f1, s1) \<Rightarrow> (case fanLoop fs s1 of (fs1, s2) \<Rightarrow> (f1 # fs1, s2)))"

definition updateFans :: "sim_state \<Rightarrow> sim_state" where
  "updateFans s = (case fanLoop (fans s) s of (fs, s1) \<Rightarrow> s1\<lparr>fans := fs\<rparr>)"

text \<open>
  The body of the loop over \<open>psus\<close>. The condition is
  \<open>psus[i].descr != "PSU2_SLOT1" && rand.Intn(500) < 1\<close>: the generator is not read for the
  pinned power supply.
\<close>

definition flipPsu :: "psuData \<Rightarrow> psuData \<times> log_entry list" where
  "flipPsu p =
     (if psu_status p = 1
      then (p\<lparr>psu_status := 2\<rparr>, [PsuFailed (psu_descr p) (psu_index p)])
      else if psu_status p = 2
      then (p\<lparr>psu_status := 1\<rparr>, [PsuNormal (psu_descr p) (psu_index p)])
      else (p, []))"

definition psuStep :: "psuData \<Rightarrow> sim_state \<Rightarrow> psuData \<times> sim_state" where
  "psuStep p s =
     (case (if psu_descr p \<noteq> ''PSU2_SLOT1''
            then (case Intn 500 (rnd s) of (r, g) \<Rightarrow> (r < 1, g))
            else (False, rnd s)) of
        (hit, g) \<Rightarrow>
          (case (if hit then flipPsu p else (p, [])) of
             (p1, l) \<Rightarrow>
               (p1, s\<lparr>rnd := g, logged := logged s @ l,
                      simPsuStatus := vecSet (simPsuStatus s)
                        (labelsOf (psu_index p1) (psu_descr p1)) (real_of_int (sint (psu_status p1))),
                      oidMap := (oidMap s)
                        (psuStatusOID (psu_index p1) \<mapsto>
                           \<lparr>Name = psuStatusOID (psu_index p1), Type = Integer,
                            Value = GoInt32 (psu_status p1)\<rparr>)\<rparr>)))"

fun psuLoop :: "psuData list \<Rightarrow> sim_state \<Rightarrow> psuData list \<times> sim_state" where
  "psuLoop [] s = ([], s)"
| "psuLoop (p # ps) s =
     (case psuStep p s of
        (p1, s1) \<Rightarrow> (case psuLoop ps s1 of (ps1, s2) \<Rightarrow> (p1 # ps1, s2)))"

definition updatePsus :: "sim_state \<Rightarrow> sim_state" where
  "updatePsus s = (case psuLoop (psus s) s of (ps, s1) \<Rightarrow> s1\<lparr>psus := ps\<rparr>)"

text \<open>The fresh draws of the ARP, MAC and TCP gauges.\<close>

definition arpEntriesVal :: "rng \<Rightarrow> uint32" where
  "arpEntriesVal g = word_of_nat (fst (Intn 450 g) + 50)"

definition macEntriesVal :: "rng \<Rightarrow> uint32" where
  "macEntriesVal g = word_of_nat (fst (Intn 900 (snd (Intn 450 g))) + 100)"

definition tcpConnectionsVal :: "rng \<Rightarrow> uint32" where
  "tcpConnectionsVal g = word_of_nat (fst (Intn 280 (snd (Intn 900 (snd (Intn 450 g))))) + 20)"

definition rerollScalars :: "sim_state \<Rightarrow> sim_state" where
  "rerollScalars s =
     s\<lparr>rnd := snd (Intn 280 (snd (Intn 900 (snd (Intn 450 (rnd s)))))),
       simArpCacheEntries := real (unat (arpEntriesVal (rnd s))),
       simMacTableEntries := real (unat (macEntriesVal (rnd s))),
       simActiveTcpConnections := real (unat (tcpConnectionsVal (rnd s)))\<rparr>"

text \<open>
  The ten calls of \<open>updateOidValue\<close>, in the order of the source. \<open>g\<close> is the generator
  before the three draws above.
\<close>

definition currentSimUptimeTicks :: "fast_env \<Rightarrow> uint32" where
  "currentSimUptimeTicks e = float_to_uint32 (round64 (Seconds (sinceStart e) * 100))"

definition updateScalarOids :: "fast_env \<Rightarrow> rng \<Rightarrow> sim_state \<Rightarrow> sim_state" where
  "updateScalarOids e g s =
     (let s1 = putOid simGoroutinesOID (GoUint32 (word_of_int (numGoroutineOid e))) s;
          s2 = putOid simGcCountOID (GoUint32 (memNumGC e)) s1;
          s3 = putOid simMemoryMBOID (GoUint32 (ucast (memAlloc e div 1024 div 1024))) s2;
          s4 = putOid simUptimeSecOID (GoUint32 (currentSimUptimeTicks e)) s3;
          s5 = putOid simCpuOID (GoUint32 (float_to_uint32 (simulatedDeviceCPU s))) s4;
          s6 = putOid simMemoryUtilOID (GoUint32 (float_to_uint32 (currentDeviceMemoryUtil e))) s5;
          s7 = putOid simTemperatureOID (GoInt32 (float_to_int32 (simulatedDeviceTemp s))) s6;
          s8 = putOid simArpOID (GoUint32 (arpEntriesVal g)) s7;
          s9 = putOid simMacOID (GoUint32 (macEntriesVal g)) s8
      in putOid simTcpOID (GoUint32 (tcpConnectionsVal g)) s9)"

definition monitorSystemMetricsTick :: "fast_env \<Rightarrow> sim_state \<Rightarrow> sim_state" where
  "monitorSystemMetricsTick e s =
     (let s1 = updateAppMetrics e s;
          s2 = stepCPU s1;
          s3 = stepMemory e s2;
          s4 = stepTemp s3;
          s5 = updateInterfaceRates e s4;
          s6 = updateFans s5;
          s7 = updatePsus s6;
          s8 = rerollScalars s7
      in updateScalarOids e (rnd s7) s8)"

section \<open>The slow cycle: one iteration of \<open>incrementCounters\<close>\<close>

datatype panic = InterfaceConversion

definition counterIncrementInterval :: int where
  "counterIncrementInterval = 5 * 1000000000"

text \<open>
  The body of the loop \<open>for i := range interfaces\<close>; \<open>i\<close> is the position in the slice.
  The sums are computed in Go's \<open>int\<close> and converted to \<open>uint64\<close>.
\<close>

definition addErrors :: "interfaceData \<Rightarrow> sim_state \<Rightarrow> interfaceData \<times> sim_state" where
  "addErrors iface s =
     (case Intn 3 (rnd s) of
        (r4, g4) \<Rightarrow>
          (case Intn 2 g4 of
             (r5, g5) \<Rightarrow>
               (let newInErrors = (word_of_nat (r4 + 1) :: uint64);
                    newOutDiscards = (word_of_nat (r5 + 1) :: uint64)
                in (iface\<lparr>inErrors := inErrors iface + newInErrors,
                          outDiscards := outDiscards iface + newOutDiscards\<rparr>,
                    s\<lparr>rnd := g5,
                      simIfInErrorsTotal := vecAdd (simIfInErrorsTotal s)
                        (labelsOf (index iface) (descr iface)) (real (unat newInErrors)),
                      simIfOutDiscardsTotal := vecAdd (simIfOutDiscardsTotal s)
                        (labelsOf (index iface) (descr iface)) (real (unat newOutDiscards))\<rparr>))))"

definition bumpInterface ::
  "nat \<Rightarrow> time \<Rightarrow> interfaceData \<Rightarrow> sim_state \<Rightarrow> interfaceData \<times> sim_state" where
  "bumpInterface i now iface s =
     (if operStatus iface = 1 then
        (case Intn 20000 (rnd s) of
           (r1, g1) \<Rightarrow>
             (case Intn 30000 g1 of
                (r2, g2) \<Rightarrow>
                  (case Intn 100 g2 of
                     (r3, g3) \<Rightarrow>
                       (let iface1 = iface\<lparr>lastInOctets := inOctets iface,
                                           lastOutOctets := outOctets iface,
                                           lastUpdateTime := now,
                                           inOctets := inOctets iface
                                             + word_of_nat (r1 + 10000 + i * 1000),
                                           outOctets := outOctets iface
                                             + word_of_nat (r2 + 15000 + i * 2000)\<rparr>
                        in if r3 < 2 then addErrors iface1 (s\<lparr>rnd := g3\<rparr>)
                           else (iface1, s\<lparr>rnd := g3\<rparr>)))))
      else (iface, s))"

fun bumpLoop ::
  "nat \<Rightarrow> time \<Rightarrow> interfaceData list \<Rightarrow> sim_state \<Rightarrow> interfaceData list \<times> sim_state" where
  "bumpLoop i now [] s = ([], s)"
| "bumpLoop i now (iface # rest) s =
     (case bumpInterface i now iface s of
        (iface1, s1) \<Rightarrow>
          (case bumpLoop (Suc i) now rest s1 of (rest1, s2) \<Rightarrow> (iface1 # rest1, s2)))"

definition updateInterfaceCounters :: "time \<Rightarrow> sim_state \<Rightarrow> sim_state" where
  "updateInterfaceCounters now s =
     (case bumpLoop 0 now (interfaces s) s of (ifs, s1) \<Rightarrow> s1\<lparr>interfaces := ifs\<rparr>)"

text \<open>
  The update of \<open>sysUpTime\<close>. The source asserts \<open>pdu.Value.(uint32)\<close> without the
  comma-ok form: a stored value of another dynamic type panics.
\<close>

definition incrementTicks :: uint32 where
  "incrementTicks = float_to_uint32 (round64 (Seconds counterIncrementInterval * 100))"

definition updateSysUpTime :: "sim_state \<Rightarrow> panic + sim_state" where
  "updateSysUpTime s =
     (case oidMap s sysUpTimeOID of
        Some pdu \<Rightarrow>
          (case Value pdu of
             GoUint32 currentSysUpTimeTicks \<Rightarrow>
               Inr (s\<lparr>oidMap := (oidMap s)
                      (sysUpTimeOID \<mapsto>
                         \<lparr>Name = Name pdu, Type = Type pdu,
                          Value = GoUint32 (currentSysUpTimeTicks + incrementTicks)\<rparr>)\<rparr>)
           | _ \<Rightarrow> Inl InterfaceConversion)
      | None \<Rightarrow> Inr s)"

definition incrementCountersTick :: "time \<Rightarrow> sim_state \<Rightarrow> panic + sim_state" where
  "incrementCountersTick now s = updateSysUpTime (updateInterfaceCounters now s)"

section \<open>Runs\<close>

text \<open>
  A run is a sequence of ticks of the two cycles, in the order in which they execute. A
  panic ends the process.
\<close>

datatype tick = Fast fast_env | Slow time

fun step :: "tick \<Rightarrow> sim_state \<Rightarrow> panic + sim_state" where
  "step (Fast e) s = Inr (monitorSystemMetricsTick e s)"
| "step (Slow now) s = incrementCountersTick now s"

fun run :: "sim_state \<Rightarrow> tick list \<Rightarrow> panic + sim_state" where
  "run s [] = Inr s"
| "run s (t # ts) = (case step t s of Inl p \<Rightarrow> Inl p | Inr s1 \<Rightarrow> run s1 ts)"

fun isFast :: "tick \<Rightarrow> bool" where
  "isFast (Fast e) = True"
| "isFast (Slow now) = False"

section \<open>The initial state\<close>

text \<open>
  The state when the two cycles start: the package-level initialisers and the two draws at
  the head of \<open>monitorSystemMetrics\<close>. \<open>initRnd\<close> is the generator during package
  initialisation (the interface literals draw first, then the OID map literal, which depends
  on \<open>interfaces\<close>), \<open>seededRnd\<close> the generator after \<open>rand.Seed\<close>, \<open>initNow k\<close> the clock
  read by the \<open>k\<close>-th interface literal.
\<close>

record init_env =
  initRnd :: rng
  seededRnd :: rng
  initNow :: "nat \<Rightarrow> time"
  initGoroutines :: int

definition version :: string where
  "version = ''1.1.0''"

definition mkInterface ::
  "int32 \<Rightarrow> string \<Rightarrow> int32 \<Rightarrow> int32 \<Rightarrow> uint64 \<Rightarrow> uint64 \<Rightarrow> time \<Rightarrow> interfaceData" where
  "mkInterface i d a ope inO outO t =
     \<lparr>index = i, descr = d, adminStatus = a, operStatus = ope, inOctets = inO, outOctets = outO,
      lastInOctets = 0, lastOutOctets = 0, lastUpdateTime = t, inErrors = 0, outDiscards = 0\<rparr>"

definition initInterfaces :: "init_env \<Rightarrow> interfaceData list" where
  "initInterfaces e =
     [mkInterface 1 ''GigabitEthernet1/0/1'' 1 1
        (word_of_nat (initRnd e 0 mod 100000)) (word_of_nat (initRnd e 1 mod 200000)) (initNow e 0),
      mkInterface 2 ''GigabitEthernet1/0/2'' 1 1
        (word_of_nat (initRnd e 2 mod 150000)) (word_of_nat (initRnd e 3 mod 250000)) (initNow e 1),
      mkInterface 3 ''GigabitEthernet1/0/3'' 1 2 0 0 (initNow e 2),
      mkInterface 4 ''GigabitEthernet1/0/4'' 2 2 0 0 (initNow e 3),
      mkInterface 5 ''Ten-GigabitEthernet1/0/1'' 1 1
        (word_of_nat (initRnd e 4 mod 1000000)) (word_of_nat (initRnd e 5 mod 2000000)) (initNow e 4)]"

definition initFans :: "fanData list" where
  "initFans =
     [\<lparr>fan_index = 1, fan_descr = ''FAN1_SLOT1'', fan_status = 1\<rparr>,
      \<lparr>fan_index = 2, fan_descr = ''FAN2_SLOT1'', fan_status = 1\<rparr>]"

definition initPsus :: "psuData list" where
  "initPsus =
     [\<lparr>psu_index = 1, psu_descr = ''PSU1_SLOT1'', psu_status = 1\<rparr>,
      \<lparr>psu_index = 2, psu_descr = ''PSU2_SLOT1'', psu_status = 2\<rparr>]"

definition mkPDU :: "oid \<Rightarrow> Asn1BER \<Rightarrow> go_value \<Rightarrow> oid \<times> SnmpPDU" where
  "mkPDU k t v = (k, \<lparr>Name = k, Type = t, Value = v\<rparr>)"

definition initOidList :: "init_env \<Rightarrow> (oid \<times> SnmpPDU) list" where
  "initOidList e =
     [mkPDU (baseSystemOIDPrefix @ [1, 0]) OctetString
        (GoBytes ''H3C S5120-52P-SI Switch Software Version 5.20, Release 1115P01 (Simulated)''),
      mkPDU sysUpTimeOID TimeTicks (GoUint32 (word_of_nat (initRnd e 6 mod 1000000 + 12345000))),
      mkPDU (baseSystemOIDPrefix @ [5, 0]) OctetString (GoBytes ''H3C-Simulated-Switch-01''),
      mkPDU (baseInterfacesOIDPrefix @ [1, 0]) Integer
        (GoInt32 (word_of_nat (length (initInterfaces e)))),
      mkPDU (customSimSystemOIDPrefix @ [1, 0]) OctetString (GoBytes version),
      mkPDU simGoroutinesOID Gauge32 (GoUint32 (word_of_int (initGoroutines e))),
      mkPDU simGcCountOID Counter32 (GoUint32 0),
      mkPDU simMemoryMBOID Gauge32 (GoUint32 0),
      mkPDU simUptimeSecOID TimeTicks (GoUint32 0),
      mkPDU simCpuOID Gauge32 (GoUint32 0),
      mkPDU simMemoryUtilOID Gauge32 (GoUint32 0),
      mkPDU simTemperatureOID Integer (GoInt32 (word_of_nat (initRnd e 7 mod 40 + 25))),
      mkPDU simArpOID Gauge32 (GoUint32 (word_of_nat (initRnd e 8 mod 200 + 50))),
      mkPDU simMacOID Gauge32 (GoUint32 (word_of_nat (initRnd e 9 mod 500 + 100))),
      mkPDU simTcpOID Gauge32 (GoUint32 (word_of_nat (initRnd e 10 mod 100 + 20)))]"

definition initState :: "init_env \<Rightarrow> sim_state" where
  "initState e =
     \<lparr>gcCount = 0, memoryUsage = 0, goroutineCount = 0, cpuUsage = 0, uptime = 0,
      ifInRate = Map.empty, ifOutRate = Map.empty,
      simMemoryUtilPercent = 0, simDeviceTemperatureCelsius = 0,
      simFanStatus = Map.empty, simPsuStatus = Map.empty,
      simIfInErrorsTotal = Map.empty, simIfOutDiscardsTotal = Map.empty,
      simArpCacheEntries = 0, simMacTableEntries = 0, simActiveTcpConnections = 0,
      oidMap = map_of (initOidList e),
      interfaces = initInterfaces e, fans = initFans, psus = initPsus,
      lastGCCount = 0,
      simulatedDeviceCPU = real (fst (Intn 30 (seededRnd e)) + 10),
      simulatedDeviceTemp = real (fst (Intn 41 (snd (Intn 30 (seededRnd e)))) + 25),
      rnd = snd (Intn 41 (snd (Intn 30 (seededRnd e)))),
      logged = []\<rparr>"

section \<open>Vocabulary of the properties\<close>

text \<open>
  The guard under which the fast cycle publishes an interface (\<open>operStatus == 1\<close> and
  \<open>timeDiffSeconds > 0\<close>), and the four keys it then writes.
\<close>

definition rateKeys :: "interfaceData \<Rightarrow> oid set" where
  "rateKeys iface = {ifInRateOID (index iface), ifOutRateOID (index iface),
     ifInErrorsOID (index iface), ifOutDiscardsOID (index iface)}"

definition rateActive :: "time \<Rightarrow> interfaceData \<Rightarrow> bool" where
  "rateActive now iface \<longleftrightarrow> operStatus iface = 1 \<and> Seconds (now - lastUpdateTime iface) > 0"

text \<open>The relative error of one rounding to float64 is at most \<open>2^-53\<close>.\<close>

definition unit_roundoff :: real where
  "unit_roundoff = 1 / 2 ^ 53"

text \<open>The keys that the scalar-update path is called with.\<close>

definition scalarKeys :: "oid set" where
  "scalarKeys = {simGoroutinesOID, simGcCountOID, simMemoryMBOID, simUptimeSecOID, simCpuOID,
     simMemoryUtilOID, simTemperatureOID, simArpOID, simMacOID, simTcpOID}"

text \<open>The clamping bounds of the three simulated device gauges of the push registry.\<close>

definition deviceGaugesInBounds :: "sim_state \<Rightarrow> bool" where
  "deviceGaugesInBounds s \<longleftrightarrow>
     5 \<le> cpuUsage s \<and> cpuUsage s \<le> 90
     \<and> 20 \<le> simDeviceTemperatureCelsius s \<and> simDeviceTemperatureCelsius s \<le> 75
     \<and> 10 \<le> simMemoryUtilPercent s \<and> simMemoryUtilPercent s \<le> 95"

text \<open>The slow cycle's unchecked type assertion on \<open>sysUpTime\<close> succeeds.\<close>

definition sysUpTimeIsUint32 :: "sim_state \<Rightarrow> bool" where
  "sysUpTimeIsUint32 s =
     (case oidMap s sysUpTimeOID of
        None \<Rightarrow> True
      | Some p \<Rightarrow> (case Value p of GoUint32 v \<Rightarrow> True | _ \<Rightarrow> False))"

text \<open>
  How the status of a power supply, and of a fan, may differ between two states: the
  relations are reflexive and transitive.
\<close>

definition psuTransition :: "psuData \<Rightarrow> psuData \<Rightarrow> bool" where
  "psuTransition p p' \<longleftrightarrow>
     psu_index p' = psu_index p \<and> psu_descr p' = psu_descr p
     \<and> (psu_descr p = ''PSU2_SLOT1'' \<longrightarrow> psu_status p' = psu_status p)
     \<and> (psu_status p' = psu_status p
          \<or> (psu_status p \<in> {1, 2} \<and> psu_status p' \<in> {1, 2}))"

definition fanTransition :: "fanData \<Rightarrow> fanData \<Rightarrow> bool" where
  "fanTransition f f' \<longleftrightarrow>
     fan_index f' = fan_index f \<and> fan_descr f' = fan_descr f
     \<and> (fan_status f' = fan_status f \<or> fan_status f' \<in> {1, 2})"

section \<open>A concrete configuration\<close>

text \<open>
  A boot environment and the environment of one fast tick, one second later, with 3 MiB
  allocated; they instantiate the theorems below.
\<close>

definition bootEnv :: init_env where
  "bootEnv = \<lparr>initRnd = (\<lambda>k. 7919 * k + 4242), seededRnd = (\<lambda>k. 31 * k + 17),
     initNow = (\<lambda>k. 1000000000 + int k), initGoroutines = 3\<rparr>"

definition tickEnv :: fast_env where
  "tickEnv = \<lparr>currentTime = 2000000000, memAlloc = 3145728, memNumGC = 2,
     numGoroutineGauge = 6, numGoroutineOid = 6, sinceStart = 1000000000\<rparr>"

text \<open>
  A boot environment whose draws are all 296: \<open>sysUpTime\<close> starts at 12345296 hundredths of
  a second.
\<close>

definition wrapBoot :: init_env where
  "wrapBoot = bootEnv\<lparr>initRnd := (\<lambda>k. 296)\<rparr>"

text \<open>A boot environment whose seeded generator yields 0 forever: every flip condition holds.\<close>

definition flipBoot :: init_env where
  "flipBoot = bootEnv\<lparr>seededRnd := (\<lambda>k. 0)\<rparr>"

text \<open>
  A boot environment whose draws are all 134, and a fast tick 1.072 seconds after the first
  interface was created: 134 octets over 1.072 seconds are 125 octets per second.
\<close>

definition rateBoot :: init_env where
  "rateBoot = bootEnv\<lparr>initRnd := (\<lambda>k. 134)\<rparr>"

definition rateTick :: fast_env where
  "rateTick = tickEnv\<lparr>currentTime := 2072000000\<rparr>"

text \<open>
  A boot environment whose seeded generator yields 720 forever: a slow tick adds 10720
  octets to the first interface and no errors. A fast tick three seconds after a slow tick
  at \<open>5 \<cdot> 10^9\<close>, and a fast tick that reads five garbage collections.
\<close>

definition slowBoot :: init_env where
  "slowBoot = bootEnv\<lparr>seededRnd := (\<lambda>k. 720)\<rparr>"

definition lateTick :: fast_env where
  "lateTick = tickEnv\<lparr>currentTime := 8000000000\<rparr>"

definition gcTick :: fast_env where
  "gcTick = tickEnv\<lparr>memNumGC := 5\<rparr>"

section \<open>Auxiliary lemmas\<close>

subsection \<open>Rounding to float64\<close>

lemma round_half_even_near: "\<bar>of_int (round_half_even x) - x\<bar> \<le> 1 / 2"
proof -
  define f where "f = \<lfloor>x\<rfloor>"
  have b: "of_int f \<le> x" "x < of_int f + 1" unfolding f_def by linarith+
  consider "x - of_int f < 1 / 2" | "x - of_int f > 1 / 2" | "x - of_int f = 1 / 2" by linarith
  then show ?thesis
  proof cases
    case 1
    then have "round_half_even x = f" by (simp add: round_half_even_def f_def)
    then show ?thesis using 1 b by simp
  next
    case 2
    then have "round_half_even x = f + 1" by (simp add: round_half_even_def f_def)
    then show ?thesis using 2 b by simp
  next
    case 3
    then have "round_half_even x = f \<or> round_half_even x = f + 1"
      by (simp add: round_half_even_def f_def Let_def)
    then show ?thesis using 3 b by auto
  qed
qed

lemma round_half_even_of_int: "round_half_even (of_int k) = k"
  by (simp add: round_half_even_def)

lemma round_half_even_ge_floor: "\<lfloor>x\<rfloor> \<le> round_half_even x"
  by (simp add: round_half_even_def Let_def)

lemma binade_bounds:
  assumes "0 < x"
  shows "2 powi (binade x) \<le> x" and "x < 2 powi (binade x + 1)"
proof -
  show "2 powi (binade x) \<le> x"
  proof (cases "1 \<le> x")
    case True
    define n where "n = \<lfloor>x\<rfloor>"
    have n: "0 < n" using True by (simp add: n_def)
    have "2 ^ nat (bitlen n - 1) \<le> n" using bitlen_bounds[OF n] by simp
    then have "real_of_int (2 ^ nat (bitlen n - 1)) \<le> real_of_int n" by linarith
    also have "\<dots> \<le> x" by (simp add: n_def)
    finally have "(2::real) ^ nat (bitlen n - 1) \<le> x" by simp
    moreover have "0 \<le> bitlen n - 1"
      using n bitlen_nonneg[of n] bitlen_eq_zero_iff[of n] by linarith
    ultimately show ?thesis using True by (simp add: binade_def n_def power_int_def)
  next
    case False
    define m where "m = \<lceil>1 / x\<rceil> - 1"
    have "1 < 1 / x" using False assms by simp
    then have m: "0 < m" by (simp add: m_def less_ceiling_iff)
    have "m + 1 \<le> 2 ^ nat (bitlen m)" using bitlen_bounds[OF m] by simp
    then have "real_of_int (m + 1) \<le> real_of_int (2 ^ nat (bitlen m))" by linarith
    then have "real_of_int \<lceil>1 / x\<rceil> \<le> 2 ^ nat (bitlen m)" by (simp add: m_def)
    moreover have "1 / x \<le> real_of_int \<lceil>1 / x\<rceil>" by linarith
    ultimately have "1 / x \<le> 2 ^ nat (bitlen m)" by linarith
    then have "1 / 2 ^ nat (bitlen m) \<le> x" using assms
      by (simp add: field_simps)
    moreover have "0 < bitlen m" using m bitlen_nonneg[of m] bitlen_eq_zero_iff[of m] by linarith
    ultimately show ?thesis using False
      by (simp add: binade_def m_def[symmetric] power_int_def field_simps)
  qed
  show "x < 2 powi (binade x + 1)"
  proof (cases "1 \<le> x")
    case True
    define n where "n = \<lfloor>x\<rfloor>"
    have n: "0 < n" using True by (simp add: n_def)
    have "n + 1 \<le> 2 ^ nat (bitlen n)" using bitlen_bounds[OF n] by simp
    then have "real_of_int (n + 1) \<le> real_of_int (2 ^ nat (bitlen n))" by linarith
    moreover have "x < real_of_int (n + 1)" unfolding n_def by linarith
    ultimately have "x < 2 ^ nat (bitlen n)" by simp
    moreover have "0 \<le> bitlen n" by (rule bitlen_nonneg)
    ultimately show ?thesis using True by (simp add: binade_def n_def[symmetric] power_int_def)
  next
    case False
    define m where "m = \<lceil>1 / x\<rceil> - 1"
    have "1 < 1 / x" using False assms by simp
    then have m: "0 < m" by (simp add: m_def less_ceiling_iff)
    have k: "0 < bitlen m" using m bitlen_nonneg[of m] bitlen_eq_zero_iff[of m] by linarith
    have "2 ^ nat (bitlen m - 1) \<le> m" using bitlen_bounds[OF m] by simp
    then have "real_of_int (2 ^ nat (bitlen m - 1)) \<le> real_of_int m" by linarith
    then have "(2::real) ^ nat (bitlen m - 1) \<le> real_of_int m" by simp
    moreover have "real_of_int m < 1 / x" unfolding m_def by linarith
    ultimately have "2 ^ nat (bitlen m - 1) < 1 / x" by linarith
    then have "x < 1 / 2 ^ nat (bitlen m - 1)" using assms by (simp add: field_simps)
    moreover have "- bitlen m + 1 \<le> 0" "nat (- (- bitlen m + 1)) = nat (bitlen m - 1)"
      using k by simp_all
    ultimately show ?thesis using False k
      by (simp add: binade_def m_def[symmetric] power_int_def field_simps)
  qed
qed

lemma round64_minus: "round64 (- x) = - round64 x"
  by (simp add: round64_def Let_def sgn_if)

lemma round64_pos_expand:
  "0 < x \<Longrightarrow> round64 x = of_int (round_half_even (x / 2 powi (binade x - 52))) * 2 powi (binade x - 52)"
  by (simp add: round64_def Let_def)

lemma round64_error_pos:
  assumes "0 < x"
  shows "\<bar>round64 x - x\<bar> \<le> x / 2 ^ 53"
proof -
  define e where "e = binade x - 52"
  define y where "y = x / 2 powi e"
  have p: "(0::real) < 2 powi e" by simp
  have x: "x = y * 2 powi e" by (simp add: y_def)
  have r: "round64 x = of_int (round_half_even y) * 2 powi e"
    unfolding y_def e_def by (rule round64_pos_expand[OF assms])
  have "round64 x - x = (of_int (round_half_even y) - y) * 2 powi e"
    unfolding r using x by (simp add: algebra_simps)
  then have "\<bar>round64 x - x\<bar> = \<bar>of_int (round_half_even y) - y\<bar> * 2 powi e"
    by (simp add: abs_mult)
  also have "\<dots> \<le> (1 / 2) * 2 powi e"
    using round_half_even_near[of y] p by (intro mult_right_mono) simp_all
  also have "\<dots> = 2 powi (binade x) / 2 ^ 53"
    by (simp add: e_def power_int_diff)
  also have "\<dots> \<le> x / 2 ^ 53" using binade_bounds(1)[OF assms] by (simp add: divide_right_mono)
  finally show ?thesis .
qed

lemma round64_error: "\<bar>round64 x - x\<bar> \<le> \<bar>x\<bar> / 2 ^ 53"
proof -
  consider "0 < x" | "x = 0" | "x < 0" by linarith
  then show ?thesis
  proof cases
    case 1 then show ?thesis using round64_error_pos[of x] by simp
  next
    case 2 then show ?thesis by (simp add: round64_def)
  next
    case 3 then show ?thesis using round64_error_pos[of "- x"] by (simp add: round64_minus)
  qed
qed

lemma round64_pos: "0 < x \<Longrightarrow> 0 < round64 x"
  using round64_error_pos[of x] by (simp add: abs_if field_simps split: if_splits)

lemma round64_nonneg: "0 \<le> x \<Longrightarrow> 0 \<le> round64 x"
  using round64_pos[of x] by (cases "x = 0") (simp_all add: round64_def)

lemma round64_nonpos: "x \<le> 0 \<Longrightarrow> round64 x \<le> 0"
  using round64_nonneg[of "- x"] by (simp add: round64_minus)

text \<open>A natural number below \<open>2^53\<close> is a float64.\<close>

lemma round64_int:
  assumes "0 \<le> n" and "n < 2 ^ 53"
  shows "round64 (of_int n) = of_int n"
proof (cases "n = 0")
  case True then show ?thesis by (simp add: round64_def)
next
  case False
  define x where "x = real_of_int n"
  have x0: "0 < x" using assms False by (simp add: x_def)
  define e where "e = binade x - 52"
  have "2 powi (binade x) \<le> x" by (rule binade_bounds(1)[OF x0])
  also have "x < 2 powi 53" using assms(2) unfolding x_def
    by (metis of_int_less_iff of_int_numeral of_int_power power_int_numeral)
  finally have "binade x < 53" by (intro power_int_le_imp_less_exp[of "2::real"]) simp_all
  then have e: "e \<le> 0" by (simp add: e_def)
  have "x / 2 powi e = of_int (n * 2 ^ nat (- e))"
    using e by (simp add: x_def power_int_def field_simps)
  then have "round_half_even (x / 2 powi e) = n * 2 ^ nat (- e)"
    by (simp only: round_half_even_of_int)
  then have "round64 x = of_int (n * 2 ^ nat (- e)) * 2 powi e"
    using round64_pos_expand[OF x0] by (simp add: e_def)
  also have "\<dots> = x" using e by (simp add: x_def power_int_def field_simps)
  finally show ?thesis by (simp add: x_def)
qed

subsection \<open>Durations in seconds\<close>

lemma round64_bounds:
  assumes "0 \<le> x"
  shows "x * (1 - unit_roundoff) \<le> round64 x" and "round64 x \<le> x * (1 + unit_roundoff)"
  using round64_error[of x] assms by (simp_all add: unit_roundoff_def abs_if field_simps split: if_splits)

lemma Seconds_pos: 
  assumes "0 < d"
  shows "0 < Seconds d"
proof -
  define S where "S = d div 1000000000"
  define N where "N = d mod 1000000000"
  have d: "d = S * 1000000000 + N" by (simp add: S_def N_def)
  have S0: "0 \<le> S" and N0: "0 \<le> N" using assms by (simp_all add: S_def N_def pos_imp_zdiv_nonneg_iff)
  have e: "Seconds d = round64 (round64 (of_int S) + round64 (round64 (of_int N) / 1000000000))"
    using assms by (simp add: Seconds_def S_def N_def)
  have a: "0 \<le> round64 (of_int S)" using S0 by (intro round64_nonneg) simp
  have b: "0 \<le> round64 (round64 (of_int N) / 1000000000)"
    using N0 by (intro round64_nonneg divide_nonneg_pos) simp_all
  have "0 < S \<or> 0 < N" using assms d S0 N0 by linarith
  then have "0 < round64 (of_int S) + round64 (round64 (of_int N) / 1000000000)"
  proof
    assume "0 < S"
    then have "0 < round64 (of_int S)" by (intro round64_pos) simp
    then show ?thesis using b by linarith
  next
    assume "0 < N"
    then have "0 < round64 (of_int N)" by (intro round64_pos) simp
    then have "0 < round64 (round64 (of_int N) / 1000000000)" by (intro round64_pos) simp
    then show ?thesis using a by linarith
  qed
  then show ?thesis unfolding e by (rule round64_pos)
qed

lemma round64_zero: "round64 0 = 0"
  by (simp add: round64_def)

lemma round64_minus_diff: "round64 (- a - b) = - round64 (a + b)"
  using round64_minus[of "a + b"] by simp

lemma Seconds_minus: "Seconds (- d) = - Seconds d"
  by (simp add: Seconds_def Let_def round64_minus round64_minus_diff round64_zero sgn_if)

lemma Seconds_pos_iff: "0 < Seconds d \<longleftrightarrow> 0 < d"
proof (cases "0 < d")
  case True then show ?thesis by (simp add: Seconds_pos)
next
  case False
  then have "d = 0 \<or> 0 < - d" by linarith
  then have "Seconds d \<le> 0"
  proof
    assume "d = 0" then show ?thesis by (simp add: Seconds_def round64_def)
  next
    assume "0 < - d"
    then have "0 < Seconds (- d)" by (rule Seconds_pos)
    then show ?thesis by (simp add: Seconds_minus)
  qed
  then show ?thesis using False by simp
qed

lemma Seconds_bounds:
  assumes "0 < d"
  shows "real_of_int d / 1000000000 * (1 - unit_roundoff) ^ 3 \<le> Seconds d"
    and "Seconds d \<le> real_of_int d / 1000000000 * (1 + unit_roundoff) ^ 3"
proof -
  define u where "u = unit_roundoff"
  have u: "0 < u" "u < 1" by (simp_all add: u_def unit_roundoff_def)
  define S where "S = real_of_int (d div 1000000000)"
  define N where "N = real_of_int (d mod 1000000000)"
  have d: "real_of_int d / 1000000000 = S + N / 1000000000"
  proof -
    have "d = (d div 1000000000) * 1000000000 + d mod 1000000000" by simp
    then have "real_of_int d = S * 1000000000 + N" unfolding S_def N_def
      by (metis of_int_add of_int_mult of_int_numeral)
    then show ?thesis by simp
  qed
  have S0: "0 \<le> S" and N0: "0 \<le> N" using assms by (simp_all add: S_def N_def pos_imp_zdiv_nonneg_iff)
  define a where "a = round64 S"
  define n1 where "n1 = round64 N"
  define n2 where "n2 = round64 (n1 / 1000000000)"
  have e: "Seconds d = round64 (a + n2)"
    using assms by (simp add: Seconds_def S_def N_def a_def n1_def n2_def)
  have a: "S * (1 - u) \<le> a" "a \<le> S * (1 + u)"
    unfolding a_def u_def using round64_bounds[OF S0] by simp_all
  have n1: "N * (1 - u) \<le> n1" "n1 \<le> N * (1 + u)"
    unfolding n1_def u_def using round64_bounds[OF N0] by simp_all
  have n10: "0 \<le> n1" unfolding n1_def by (rule round64_nonneg[OF N0])
  have n2: "n1 / 1000000000 * (1 - u) \<le> n2" "n2 \<le> n1 / 1000000000 * (1 + u)"
    unfolding n2_def u_def using round64_bounds[of "n1 / 1000000000"] n10 by simp_all
  have n2l: "N / 1000000000 * (1 - u) ^ 2 \<le> n2"
  proof -
    have "N * (1 - u) * (1 - u) \<le> n1 * (1 - u)" using n1(1) u by (intro mult_right_mono) simp_all
    then have "N / 1000000000 * (1 - u) ^ 2 \<le> n1 / 1000000000 * (1 - u)"
      by (simp add: power2_eq_square field_simps)
    then show ?thesis using n2(1) by linarith
  qed
  have n2u: "n2 \<le> N / 1000000000 * (1 + u) ^ 2"
  proof -
    have "n1 * (1 + u) \<le> N * (1 + u) * (1 + u)" using n1(2) u by (intro mult_right_mono) simp_all
    then have "n1 / 1000000000 * (1 + u) \<le> N / 1000000000 * (1 + u) ^ 2"
      by (simp add: power2_eq_square field_simps)
    then show ?thesis using n2(2) by linarith
  qed
  have al: "S * (1 - u) ^ 2 \<le> a"
  proof -
    have "S * (1 - u) * (1 - u) \<le> S * (1 - u) * 1"
      using S0 u by (intro mult_left_mono) simp_all
    then show ?thesis using a(1) by (simp add: power2_eq_square)
  qed
  have au: "a \<le> S * (1 + u) ^ 2"
  proof -
    have "S * (1 + u) * 1 \<le> S * (1 + u) * (1 + u)"
      using S0 u by (intro mult_left_mono) simp_all
    then show ?thesis using a(2) by (simp add: power2_eq_square)
  qed
  have sl: "(S + N / 1000000000) * (1 - u) ^ 2 \<le> a + n2"
    using al n2l by (simp add: algebra_simps)
  have su: "a + n2 \<le> (S + N / 1000000000) * (1 + u) ^ 2"
    using au n2u by (simp add: algebra_simps)
  have s0: "0 \<le> a + n2"
    using n10 S0 unfolding a_def n2_def by (intro add_nonneg_nonneg round64_nonneg) simp_all
  have r: "(a + n2) * (1 - u) \<le> round64 (a + n2)" "round64 (a + n2) \<le> (a + n2) * (1 + u)"
    unfolding u_def using round64_bounds[OF s0] by simp_all
  have "(S + N / 1000000000) * (1 - u) ^ 2 * (1 - u) \<le> (a + n2) * (1 - u)"
    using sl u by (intro mult_right_mono) simp_all
  then have "(S + N / 1000000000) * (1 - u) ^ 3 \<le> round64 (a + n2)"
    using r(1) by (simp add: power3_eq_cube power2_eq_square algebra_simps)
  then show "real_of_int d / 1000000000 * (1 - unit_roundoff) ^ 3 \<le> Seconds d"
    unfolding e d u_def .
  have "(a + n2) * (1 + u) \<le> (S + N / 1000000000) * (1 + u) ^ 2 * (1 + u)"
    using su u by (intro mult_right_mono) simp_all
  then have "round64 (a + n2) \<le> (S + N / 1000000000) * (1 + u) ^ 3"
    using r(2) by (simp add: power3_eq_cube power2_eq_square algebra_simps)
  then show "Seconds d \<le> real_of_int d / 1000000000 * (1 + unit_roundoff) ^ 3"
    unfolding e d u_def .
qed

text \<open>The float64 quotient of an integer count by a duration, against the exact quotient.\<close>

lemma float_quotient_near:
  assumes "0 \<le> D" and "0 < d"
  shows "\<bar>round64 (round64 D / Seconds d) - D / (real_of_int d / 1000000000)\<bar>
      \<le> D / (real_of_int d / 1000000000) / 2 ^ 50"
proof -
  define u where "u = unit_roundoff"
  have u: "0 < u" "u < 1" by (simp_all add: u_def unit_roundoff_def)
  define T where "T = real_of_int d / 1000000000"
  have T: "0 < T" using assms(2) by (simp add: T_def)
  define q where "q = D / T"
  have q0: "0 \<le> q" using assms(1) T by (simp add: q_def)
  define A where "A = round64 D"
  define S where "S = Seconds d"
  have S0: "0 < S" unfolding S_def by (rule Seconds_pos[OF assms(2)])
  have A0: "0 \<le> A" unfolding A_def by (rule round64_nonneg[OF assms(1)])
  have A: "D * (1 - u) \<le> A" "A \<le> D * (1 + u)"
    unfolding A_def u_def using round64_bounds[OF assms(1)] by simp_all
  have S: "T * (1 - u) ^ 3 \<le> S" "S \<le> T * (1 + u) ^ 3"
    unfolding S_def T_def u_def using Seconds_bounds[OF assms(2)] by simp_all
  have lo3: "0 < (1 - u) ^ 3" and hi3: "0 < (1 + u) ^ 3" using u by simp_all
  have qu: "A / S \<le> q * ((1 + u) / (1 - u) ^ 3)"
  proof -
    have "A / S \<le> D * (1 + u) / S" using A(2) S0 by (simp add: divide_right_mono)
    also have "\<dots> \<le> D * (1 + u) / (T * (1 - u) ^ 3)"
      using S(1) assms(1) u T lo3 by (intro divide_left_mono mult_pos_pos mult_nonneg_nonneg S0) simp_all
    also have "\<dots> = q * ((1 + u) / (1 - u) ^ 3)" by (simp add: q_def)
    finally show ?thesis .
  qed
  have ql: "q * ((1 - u) / (1 + u) ^ 3) \<le> A / S"
  proof -
    have "q * ((1 - u) / (1 + u) ^ 3) = D * (1 - u) / (T * (1 + u) ^ 3)" by (simp add: q_def)
    also have "\<dots> \<le> D * (1 - u) / S"
      using S(2) assms(1) u T hi3 S0 by (intro divide_left_mono mult_pos_pos mult_nonneg_nonneg) simp_all
    also have "\<dots> \<le> A / S" using A(1) S0 by (simp add: divide_right_mono)
    finally show ?thesis .
  qed
  have AS0: "0 \<le> A / S" using A0 S0 by simp
  have R: "A / S * (1 - u) \<le> round64 (A / S)" "round64 (A / S) \<le> A / S * (1 + u)"
    unfolding u_def using round64_bounds[OF AS0] by simp_all
  have c1: "(1 + u) / (1 - u) ^ 3 * (1 + u) \<le> 1 + 1 / 2 ^ 50"
    by (simp add: u_def unit_roundoff_def power_divide)
  have c2: "1 - 1 / 2 ^ 50 \<le> (1 - u) / (1 + u) ^ 3 * (1 - u)"
    by (simp add: u_def unit_roundoff_def power_divide)
  have "round64 (A / S) \<le> q * ((1 + u) / (1 - u) ^ 3) * (1 + u)"
    using R(2) mult_right_mono[OF qu, of "1 + u"] u by simp
  also have "\<dots> = q * ((1 + u) / (1 - u) ^ 3 * (1 + u))" by simp
  also have "\<dots> \<le> q * (1 + 1 / 2 ^ 50)" using c1 q0 by (rule mult_left_mono)
  finally have up: "round64 (A / S) \<le> q + q / 2 ^ 50" by (simp add: algebra_simps)
  have "q * (1 - 1 / 2 ^ 50) \<le> q * ((1 - u) / (1 + u) ^ 3 * (1 - u))"
    using c2 q0 by (rule mult_left_mono)
  also have "\<dots> = q * ((1 - u) / (1 + u) ^ 3) * (1 - u)" by simp
  also have "\<dots> \<le> round64 (A / S)"
    using R(1) mult_right_mono[OF ql, of "1 - u"] u by simp
  finally have lo: "q - q / 2 ^ 50 \<le> round64 (A / S)" by (simp add: algebra_simps)
  show ?thesis using up lo unfolding q_def T_def A_def S_def by (simp add: abs_le_iff)
qed

text \<open>
  The rounding is visible in the uptime of the OID map: 1.13 seconds are 112 hundredths,
  since the float64 product is just below 113. A float64 that does not fit \<open>int64\<close>
  converts to 0.
\<close>

lemma currentSimUptimeTicks_rounds:
  "currentSimUptimeTicks \<lparr>currentTime = t, memAlloc = a, memNumGC = n, numGoroutineGauge = g,
     numGoroutineOid = h, sinceStart = 1130000000\<rparr> = 112"
proof -
  have 1: "round64 (Seconds 1130000000 * 100) = 7951668092076031 / 70368744177664"
    by code_simp
  have 2: "float_to_uint32 (7951668092076031 / 70368744177664) = 112"
    by (simp add: float_to_uint32_def float_trunc_def)
  show ?thesis unfolding currentSimUptimeTicks_def by (simp only: fast_env.simps 1 2)
qed

lemma float_to_uint32_overflow: "float_to_uint32 (2 ^ 63) = 0"
  by (simp add: float_to_uint32_def float_trunc_def)

lemma rateActive_iff:
  "rateActive now iface \<longleftrightarrow> operStatus iface = 1 \<and> lastUpdateTime iface < now"
  by (simp add: rateActive_def Seconds_pos_iff)

subsection \<open>The generator\<close>

lemma Intn_less: "0 < n \<Longrightarrow> fst (Intn n g) < n"
  by (simp add: Intn_def)

subsection \<open>What each phase of the fast cycle writes\<close>

lemma updateAppMetrics_frame:
  "\<exists>a b c d u. updateAppMetrics e s =
     s\<lparr>gcCount := a, lastGCCount := b, memoryUsage := c, goroutineCount := d, uptime := u\<rparr>"
proof -
  let ?t = "updateAppMetrics e s"
  have "?t = s\<lparr>gcCount := gcCount ?t, lastGCCount := lastGCCount ?t,
      memoryUsage := memoryUsage ?t, goroutineCount := goroutineCount ?t, uptime := uptime ?t\<rparr>"
    by (simp add: updateAppMetrics_def Let_def)
  then show ?thesis by blast
qed

lemma publishRate_frame:
  "\<exists>a b om. publishRate now iface s = s\<lparr>ifInRate := a, ifOutRate := b, oidMap := om\<rparr>"
proof -
  let ?t = "publishRate now iface s"
  have "?t = s\<lparr>ifInRate := ifInRate ?t, ifOutRate := ifOutRate ?t, oidMap := oidMap ?t\<rparr>"
    by (simp add: publishRate_def)
  then show ?thesis by blast
qed

lemma publishRates_frame:
  "\<exists>a b om. publishRates now ifs s = s\<lparr>ifInRate := a, ifOutRate := b, oidMap := om\<rparr>"
proof (induction ifs arbitrary: s)
  case Nil
  have "s = s\<lparr>ifInRate := ifInRate s, ifOutRate := ifOutRate s, oidMap := oidMap s\<rparr>"
    by simp
  then show ?case by (metis publishRates.simps(1))
next
  case (Cons iface rest)
  obtain a b om where h: "publishRate now iface s = s\<lparr>ifInRate := a, ifOutRate := b, oidMap := om\<rparr>"
    using publishRate_frame by blast
  obtain a' b' om' where t: "publishRates now rest (publishRate now iface s)
      = (publishRate now iface s)\<lparr>ifInRate := a', ifOutRate := b', oidMap := om'\<rparr>"
    using Cons.IH by blast
  have "publishRates now (iface # rest) s = s\<lparr>ifInRate := a', ifOutRate := b', oidMap := om'\<rparr>"
    by (subst publishRates.simps, subst t, subst h, simp)
  then show ?case by blast
qed

lemma fanStep_frame:
  "\<exists>g l m om. snd (fanStep f s) = s\<lparr>rnd := g, logged := l, simFanStatus := m, oidMap := om\<rparr>"
proof -
  let ?t = "snd (fanStep f s)"
  have "?t = s\<lparr>rnd := rnd ?t, logged := logged ?t, simFanStatus := simFanStatus ?t,
      oidMap := oidMap ?t\<rparr>"
    by (simp add: fanStep_def split: prod.splits)
  then show ?thesis by blast
qed

lemma fanLoop_snd_Cons: "snd (fanLoop (f # fs) s) = snd (fanLoop fs (snd (fanStep f s)))"
  by (simp split: prod.splits)

lemma fanLoop_frame:
  "\<exists>g l m om. snd (fanLoop fs s) = s\<lparr>rnd := g, logged := l, simFanStatus := m, oidMap := om\<rparr>"
proof (induction fs arbitrary: s)
  case Nil
  have "s = s\<lparr>rnd := rnd s, logged := logged s, simFanStatus := simFanStatus s, oidMap := oidMap s\<rparr>"
    by simp
  then show ?case by (metis fanLoop.simps(1) snd_conv)
next
  case (Cons f fs)
  obtain g l m om where a: "snd (fanStep f s) = s\<lparr>rnd := g, logged := l, simFanStatus := m, oidMap := om\<rparr>"
    using fanStep_frame by blast
  obtain g' l' m' om' where b: "snd (fanLoop fs (snd (fanStep f s)))
      = (snd (fanStep f s))\<lparr>rnd := g', logged := l', simFanStatus := m', oidMap := om'\<rparr>"
    using Cons.IH by blast
  have "snd (fanLoop (f # fs) s) = s\<lparr>rnd := g', logged := l', simFanStatus := m', oidMap := om'\<rparr>"
    by (subst fanLoop_snd_Cons, subst b, subst a, simp)
  then show ?case by blast
qed

lemma updateFans_frame:
  "\<exists>g l m om fs. updateFans s
     = s\<lparr>rnd := g, logged := l, simFanStatus := m, oidMap := om, fans := fs\<rparr>"
proof -
  obtain g l m om where a: "snd (fanLoop (fans s) s)
      = s\<lparr>rnd := g, logged := l, simFanStatus := m, oidMap := om\<rparr>"
    using fanLoop_frame by blast
  have "updateFans s = (snd (fanLoop (fans s) s))\<lparr>fans := fst (fanLoop (fans s) s)\<rparr>"
    by (simp add: updateFans_def split: prod.splits)
  then show ?thesis by (subst (asm) a) blast
qed

lemma psuStep_frame:
  "\<exists>g l m om. snd (psuStep p s) = s\<lparr>rnd := g, logged := l, simPsuStatus := m, oidMap := om\<rparr>"
proof -
  let ?t = "snd (psuStep p s)"
  have "?t = s\<lparr>rnd := rnd ?t, logged := logged ?t, simPsuStatus := simPsuStatus ?t,
      oidMap := oidMap ?t\<rparr>"
    by (simp add: psuStep_def split: prod.splits)
  then show ?thesis by blast
qed

lemma psuLoop_snd_Cons: "snd (psuLoop (p # ps) s) = snd (psuLoop ps (snd (psuStep p s)))"
  by (simp split: prod.splits)

lemma psuLoop_frame:
  "\<exists>g l m om. snd (psuLoop ps s) = s\<lparr>rnd := g, logged := l, simPsuStatus := m, oidMap := om\<rparr>"
proof (induction ps arbitrary: s)
  case Nil
  have "s = s\<lparr>rnd := rnd s, logged := logged s, simPsuStatus := simPsuStatus s, oidMap := oidMap s\<rparr>"
    by simp
  then show ?case by (metis psuLoop.simps(1) snd_conv)
next
  case (Cons p ps)
  obtain g l m om where a: "snd (psuStep p s) = s\<lparr>rnd := g, logged := l, simPsuStatus := m, oidMap := om\<rparr>"
    using psuStep_frame by blast
  obtain g' l' m' om' where b: "snd (psuLoop ps (snd (psuStep p s)))
      = (snd (psuStep p s))\<lparr>rnd := g', logged := l', simPsuStatus := m', oidMap := om'\<rparr>"
    using Cons.IH by blast
  have "snd (psuLoop (p # ps) s) = s\<lparr>rnd := g', logged := l', simPsuStatus := m', oidMap := om'\<rparr>"
    by (subst psuLoop_snd_Cons, subst b, subst a, simp)
  then show ?case by blast
qed

lemma updatePsus_frame:
  "\<exists>g l m om ps. updatePsus s
     = s\<lparr>rnd := g, logged := l, simPsuStatus := m, oidMap := om, psus := ps\<rparr>"
proof -
  obtain g l m om where a: "snd (psuLoop (psus s) s)
      = s\<lparr>rnd := g, logged := l, simPsuStatus := m, oidMap := om\<rparr>"
    using psuLoop_frame by blast
  have "updatePsus s = (snd (psuLoop (psus s) s))\<lparr>psus := fst (psuLoop (psus s) s)\<rparr>"
    by (simp add: updatePsus_def split: prod.splits)
  then show ?thesis by (subst (asm) a) blast
qed

lemma putOid_frame: "\<exists>om l. putOid k v s = s\<lparr>oidMap := om, logged := l\<rparr>"
proof -
  let ?t = "putOid k v s"
  have "?t = s\<lparr>oidMap := oidMap ?t, logged := logged ?t\<rparr>"
    by (simp add: putOid_def split: prod.splits)
  then show ?thesis by blast
qed

lemma updateScalarOids_frame: "\<exists>om l. updateScalarOids e g s = s\<lparr>oidMap := om, logged := l\<rparr>"
proof -
  have step: "\<And>k v t. \<exists>om l. t = s\<lparr>oidMap := om, logged := l\<rparr>
      \<Longrightarrow> \<exists>om l. putOid k v t = s\<lparr>oidMap := om, logged := l\<rparr>"
  proof -
    fix k v t
    assume "\<exists>om l. t = s\<lparr>oidMap := om, logged := l\<rparr>"
    then obtain om l where t: "t = s\<lparr>oidMap := om, logged := l\<rparr>" by blast
    obtain om' l' where p: "putOid k v t = t\<lparr>oidMap := om', logged := l'\<rparr>"
      using putOid_frame by blast
    have "putOid k v t = s\<lparr>oidMap := om', logged := l'\<rparr>"
      by (subst p, subst t, simp)
    then show "\<exists>om l. putOid k v t = s\<lparr>oidMap := om, logged := l\<rparr>" by blast
  qed
  show ?thesis
    unfolding updateScalarOids_def Let_def
    by (intro step putOid_frame)
qed

lemma stepCPU_frame:
  "\<exists>g c u. stepCPU s = s\<lparr>rnd := g, simulatedDeviceCPU := c, cpuUsage := u\<rparr>"
proof -
  let ?t = "stepCPU s"
  have "?t = s\<lparr>rnd := rnd ?t, simulatedDeviceCPU := simulatedDeviceCPU ?t, cpuUsage := cpuUsage ?t\<rparr>"
    by (simp add: stepCPU_def Let_def split: prod.splits)
  then show ?thesis by blast
qed

lemma stepTemp_frame:
  "\<exists>g c u. stepTemp s = s\<lparr>rnd := g, simulatedDeviceTemp := c, simDeviceTemperatureCelsius := u\<rparr>"
proof -
  let ?t = "stepTemp s"
  have "?t = s\<lparr>rnd := rnd ?t, simulatedDeviceTemp := simulatedDeviceTemp ?t,
      simDeviceTemperatureCelsius := simDeviceTemperatureCelsius ?t\<rparr>"
    by (simp add: stepTemp_def Let_def split: prod.splits)
  then show ?thesis by blast
qed

lemma updateInterfaceRates_frame:
  "\<exists>a b om. updateInterfaceRates e s = s\<lparr>ifInRate := a, ifOutRate := b, oidMap := om\<rparr>"
  unfolding updateInterfaceRates_def by (rule publishRates_frame)

text \<open>
  The phases after the three random walks write neither the device gauges nor the variables
  of the walks, nor the interface slice and the error counters of the registry.
\<close>

lemma rerollScalars_frame:
  "\<exists>g x y z. rerollScalars s = s\<lparr>rnd := g, simArpCacheEntries := x, simMacTableEntries := y,
     simActiveTcpConnections := z\<rparr>"
  unfolding rerollScalars_def by blast

lemma tail_frame:
  "\<exists>a b om g l fm fs pm ps x y z.
     updateScalarOids e g0 (rerollScalars (updatePsus (updateFans (updateInterfaceRates e s))))
       = s\<lparr>ifInRate := a, ifOutRate := b, oidMap := om, rnd := g, logged := l,
           simFanStatus := fm, fans := fs, simPsuStatus := pm, psus := ps,
           simArpCacheEntries := x, simMacTableEntries := y, simActiveTcpConnections := z\<rparr>"
proof -
  define s1 where "s1 = updateInterfaceRates e s"
  define s2 where "s2 = updateFans s1"
  define s3 where "s3 = updatePsus s2"
  define s4 where "s4 = rerollScalars s3"
  define s5 where "s5 = updateScalarOids e g0 s4"
  obtain a b om where 1: "s1 = s\<lparr>ifInRate := a, ifOutRate := b, oidMap := om\<rparr>"
    unfolding s1_def using updateInterfaceRates_frame by blast
  obtain g l fm om2 fs where 2:
    "s2 = s1\<lparr>rnd := g, logged := l, simFanStatus := fm, oidMap := om2, fans := fs\<rparr>"
    unfolding s2_def using updateFans_frame by blast
  obtain g3 l3 pm om3 ps where 3:
    "s3 = s2\<lparr>rnd := g3, logged := l3, simPsuStatus := pm, oidMap := om3, psus := ps\<rparr>"
    unfolding s3_def using updatePsus_frame by blast
  obtain g4 x y z where 4:
    "s4 = s3\<lparr>rnd := g4, simArpCacheEntries := x, simMacTableEntries := y,
       simActiveTcpConnections := z\<rparr>"
    unfolding s4_def using rerollScalars_frame by blast
  obtain om5 l5 where 5: "s5 = s4\<lparr>oidMap := om5, logged := l5\<rparr>"
    unfolding s5_def using updateScalarOids_frame by blast
  have "s5 = s\<lparr>ifInRate := a, ifOutRate := b, oidMap := om5, rnd := g4, logged := l5,
           simFanStatus := fm, fans := fs, simPsuStatus := pm, psus := ps,
           simArpCacheEntries := x, simMacTableEntries := y, simActiveTcpConnections := z\<rparr>"
    by (simp add: 5 4 3 2 1)
  then show ?thesis
    unfolding s5_def s4_def s3_def s2_def s1_def by blast
qed

lemma monitor_frame:
  "\<exists>gc lg mu gr up g c cu m t tu a b om l fm fs pm ps x y z.
     monitorSystemMetricsTick e s
       = s\<lparr>gcCount := gc, lastGCCount := lg, memoryUsage := mu, goroutineCount := gr, uptime := up,
           rnd := g, simulatedDeviceCPU := c, cpuUsage := cu, simMemoryUtilPercent := m,
           simulatedDeviceTemp := t, simDeviceTemperatureCelsius := tu,
           ifInRate := a, ifOutRate := b, oidMap := om, logged := l,
           simFanStatus := fm, fans := fs, simPsuStatus := pm, psus := ps,
           simArpCacheEntries := x, simMacTableEntries := y, simActiveTcpConnections := z\<rparr>"
proof -
  define s1 where "s1 = updateAppMetrics e s"
  define s2 where "s2 = stepCPU s1"
  define s3 where "s3 = stepMemory e s2"
  define s4 where "s4 = stepTemp s3"
  define g0 where "g0 = rnd (updatePsus (updateFans (updateInterfaceRates e s4)))"
  define s9 where "s9 =
    updateScalarOids e g0 (rerollScalars (updatePsus (updateFans (updateInterfaceRates e s4))))"
  obtain gc lg mu gr up where 1:
    "s1 = s\<lparr>gcCount := gc, lastGCCount := lg, memoryUsage := mu, goroutineCount := gr, uptime := up\<rparr>"
    unfolding s1_def using updateAppMetrics_frame by blast
  obtain g2 c cu where 2: "s2 = s1\<lparr>rnd := g2, simulatedDeviceCPU := c, cpuUsage := cu\<rparr>"
    unfolding s2_def using stepCPU_frame by blast
  have 3: "s3 = s2\<lparr>simMemoryUtilPercent := currentDeviceMemoryUtil e\<rparr>"
    unfolding s3_def by (simp add: stepMemory_def)
  obtain g4 t tu where 4:
    "s4 = s3\<lparr>rnd := g4, simulatedDeviceTemp := t, simDeviceTemperatureCelsius := tu\<rparr>"
    unfolding s4_def using stepTemp_frame by blast
  obtain a b om g l fm fs pm ps x y z where
    "updateScalarOids e g0 (rerollScalars (updatePsus (updateFans (updateInterfaceRates e s4))))
       = s4\<lparr>ifInRate := a, ifOutRate := b, oidMap := om, rnd := g, logged := l,
           simFanStatus := fm, fans := fs, simPsuStatus := pm, psus := ps,
           simArpCacheEntries := x, simMacTableEntries := y, simActiveTcpConnections := z\<rparr>"
    using tail_frame[of e g0 s4] by (elim exE) (rule that)
  then have 9:
    "s9 = s4\<lparr>ifInRate := a, ifOutRate := b, oidMap := om, rnd := g, logged := l,
           simFanStatus := fm, fans := fs, simPsuStatus := pm, psus := ps,
           simArpCacheEntries := x, simMacTableEntries := y, simActiveTcpConnections := z\<rparr>"
    unfolding s9_def .
  have m: "monitorSystemMetricsTick e s = s9"
    by (simp add: monitorSystemMetricsTick_def Let_def s9_def g0_def s4_def s3_def s2_def s1_def)
  have "s9 = s\<lparr>gcCount := gc, lastGCCount := lg, memoryUsage := mu, goroutineCount := gr, uptime := up,
           rnd := g, simulatedDeviceCPU := c, cpuUsage := cu,
           simMemoryUtilPercent := currentDeviceMemoryUtil e,
           simulatedDeviceTemp := t, simDeviceTemperatureCelsius := tu,
           ifInRate := a, ifOutRate := b, oidMap := om, logged := l,
           simFanStatus := fm, fans := fs, simPsuStatus := pm, psus := ps,
           simArpCacheEntries := x, simMacTableEntries := y, simActiveTcpConnections := z\<rparr>"
    by (simp add: 9 4 3 2 1)
  then show ?thesis unfolding m by - ((rule exI)+, assumption)
qed

subsection \<open>What the slow cycle writes\<close>

lemma addErrors_frame:
  "\<exists>g ie od. snd (addErrors iface s)
     = s\<lparr>rnd := g, simIfInErrorsTotal := ie, simIfOutDiscardsTotal := od\<rparr>"
proof -
  let ?t = "snd (addErrors iface s)"
  have "?t = s\<lparr>rnd := rnd ?t, simIfInErrorsTotal := simIfInErrorsTotal ?t,
      simIfOutDiscardsTotal := simIfOutDiscardsTotal ?t\<rparr>"
    by (simp add: addErrors_def Let_def split: prod.splits)
  then show ?thesis by blast
qed

lemma bumpInterface_frame:
  "\<exists>g ie od. snd (bumpInterface i now iface s)
     = s\<lparr>rnd := g, simIfInErrorsTotal := ie, simIfOutDiscardsTotal := od\<rparr>"
proof -
  let ?t = "snd (bumpInterface i now iface s)"
  have "?t = s\<lparr>rnd := rnd ?t, simIfInErrorsTotal := simIfInErrorsTotal ?t,
      simIfOutDiscardsTotal := simIfOutDiscardsTotal ?t\<rparr>"
    by (simp add: bumpInterface_def addErrors_def Let_def split: prod.splits)
  then show ?thesis by blast
qed

lemma bumpLoop_snd_Cons:
  "snd (bumpLoop i now (iface # rest) s)
     = snd (bumpLoop (Suc i) now rest (snd (bumpInterface i now iface s)))"
  by (simp split: prod.splits)

lemma bumpLoop_fst_Cons:
  "fst (bumpLoop i now (iface # rest) s)
     = fst (bumpInterface i now iface s)
       # fst (bumpLoop (Suc i) now rest (snd (bumpInterface i now iface s)))"
  by (simp split: prod.splits)

lemma bumpLoop_frame:
  "\<exists>g ie od. snd (bumpLoop i now ifs s)
     = s\<lparr>rnd := g, simIfInErrorsTotal := ie, simIfOutDiscardsTotal := od\<rparr>"
proof (induction ifs arbitrary: i s)
  case Nil
  have "s = s\<lparr>rnd := rnd s, simIfInErrorsTotal := simIfInErrorsTotal s,
      simIfOutDiscardsTotal := simIfOutDiscardsTotal s\<rparr>"
    by simp
  then show ?case by (metis bumpLoop.simps(1) snd_conv)
next
  case (Cons iface rest)
  obtain g ie od where a: "snd (bumpInterface i now iface s)
      = s\<lparr>rnd := g, simIfInErrorsTotal := ie, simIfOutDiscardsTotal := od\<rparr>"
    using bumpInterface_frame by blast
  obtain g' ie' od' where b: "snd (bumpLoop (Suc i) now rest (snd (bumpInterface i now iface s)))
      = (snd (bumpInterface i now iface s))\<lparr>rnd := g', simIfInErrorsTotal := ie',
           simIfOutDiscardsTotal := od'\<rparr>"
    using Cons.IH by blast
  have "snd (bumpLoop i now (iface # rest) s)
      = s\<lparr>rnd := g', simIfInErrorsTotal := ie', simIfOutDiscardsTotal := od'\<rparr>"
    by (subst bumpLoop_snd_Cons, subst b, subst a, simp)
  then show ?case by blast
qed

lemma updateInterfaceCounters_frame:
  "\<exists>g ie od. updateInterfaceCounters now s
     = s\<lparr>rnd := g, simIfInErrorsTotal := ie, simIfOutDiscardsTotal := od,
         interfaces := fst (bumpLoop 0 now (interfaces s) s)\<rparr>"
proof -
  obtain g ie od where a: "snd (bumpLoop 0 now (interfaces s) s)
      = s\<lparr>rnd := g, simIfInErrorsTotal := ie, simIfOutDiscardsTotal := od\<rparr>"
    using bumpLoop_frame by blast
  have "updateInterfaceCounters now s
      = (snd (bumpLoop 0 now (interfaces s) s))\<lparr>interfaces := fst (bumpLoop 0 now (interfaces s) s)\<rparr>"
    by (simp add: updateInterfaceCounters_def split: prod.splits)
  then show ?thesis by (subst (asm) a) blast
qed

lemma updateSysUpTime_frame:
  assumes "updateSysUpTime s = Inr s'"
  shows "\<exists>om. s' = s\<lparr>oidMap := om\<rparr> \<and> (\<forall>k. k \<noteq> sysUpTimeOID \<longrightarrow> om k = oidMap s k)
           \<and> dom om = dom (oidMap s)"
proof (cases "oidMap s sysUpTimeOID")
  case None
  then have "s' = s\<lparr>oidMap := oidMap s\<rparr>" using assms by (simp add: updateSysUpTime_def)
  then show ?thesis by blast
next
  case (Some p)
  then obtain v where v: "Value p = GoUint32 v"
    using assms by (auto simp: updateSysUpTime_def split: go_value.splits)
  let ?om = "(oidMap s)(sysUpTimeOID \<mapsto>
     \<lparr>Name = Name p, Type = Type p, Value = GoUint32 (v + incrementTicks)\<rparr>)"
  have "s' = s\<lparr>oidMap := ?om\<rparr>" using assms Some v by (simp add: updateSysUpTime_def)
  moreover have "\<forall>k. k \<noteq> sysUpTimeOID \<longrightarrow> ?om k = oidMap s k" by simp
  moreover have "dom ?om = dom (oidMap s)" using Some by auto
  ultimately show ?thesis by blast
qed

lemma incrementCountersTick_frame:
  assumes "incrementCountersTick now s = Inr s'"
  shows "\<exists>g ie od om. s' = s\<lparr>rnd := g, simIfInErrorsTotal := ie, simIfOutDiscardsTotal := od,
           interfaces := fst (bumpLoop 0 now (interfaces s) s), oidMap := om\<rparr>
         \<and> (\<forall>k. k \<noteq> sysUpTimeOID \<longrightarrow> om k = oidMap s k) \<and> dom om = dom (oidMap s)"
proof -
  define s1 where "s1 = updateInterfaceCounters now s"
  obtain g ie od where 1: "s1 = s\<lparr>rnd := g, simIfInErrorsTotal := ie, simIfOutDiscardsTotal := od,
         interfaces := fst (bumpLoop 0 now (interfaces s) s)\<rparr>"
    unfolding s1_def using updateInterfaceCounters_frame by blast
  have "updateSysUpTime s1 = Inr s'"
    using assms by (simp add: incrementCountersTick_def s1_def)
  then obtain om where 2: "s' = s1\<lparr>oidMap := om\<rparr>"
    and 3: "\<forall>k. k \<noteq> sysUpTimeOID \<longrightarrow> om k = oidMap s1 k" and 4: "dom om = dom (oidMap s1)"
    using updateSysUpTime_frame by blast
  have "s' = s\<lparr>rnd := g, simIfInErrorsTotal := ie, simIfOutDiscardsTotal := od,
           interfaces := fst (bumpLoop 0 now (interfaces s) s), oidMap := om\<rparr>"
    by (simp add: 2 1)
  moreover have "\<forall>k. k \<noteq> sysUpTimeOID \<longrightarrow> om k = oidMap s k" using 3 by (simp add: 1)
  moreover have "dom om = dom (oidMap s)" using 4 by (simp add: 1)
  ultimately show ?thesis by blast
qed

subsection \<open>The interface slice across a slow tick\<close>

lemma bumpInterface_fst:
  "index (fst (bumpInterface i now iface s)) = index iface
   \<and> descr (fst (bumpInterface i now iface s)) = descr iface
   \<and> adminStatus (fst (bumpInterface i now iface s)) = adminStatus iface
   \<and> operStatus (fst (bumpInterface i now iface s)) = operStatus iface"
  by (simp add: bumpInterface_def addErrors_def Let_def split: prod.splits)

lemma bumpInterface_down:
  "operStatus iface \<noteq> 1 \<Longrightarrow> bumpInterface i now iface s = (iface, s)"
  by (simp add: bumpInterface_def)

lemma bumpLoop_length: "length (fst (bumpLoop i now ifs s)) = length ifs"
  by (induction ifs arbitrary: i s) (simp_all add: bumpLoop_fst_Cons del: bumpLoop.simps(2))

lemma bumpLoop_nth:
  "k < length ifs \<Longrightarrow>
     \<exists>t. fst (bumpLoop i now ifs s) ! k = fst (bumpInterface (i + k) now (ifs ! k) t)"
proof (induction ifs arbitrary: i s k)
  case Nil
  then show ?case by simp
next
  case (Cons iface rest)
  show ?case
  proof (cases k)
    case 0
    then show ?thesis by (subst bumpLoop_fst_Cons) auto
  next
    case (Suc j)
    then have "j < length rest" using Cons.prems by simp
    from Cons.IH[OF this, of "Suc i" "snd (bumpInterface i now iface s)"]
    show ?thesis using Suc by (subst bumpLoop_fst_Cons) auto
  qed
qed

subsection \<open>Which keys of the OID map each phase writes\<close>

lemma updateOidValue_other: "k' \<noteq> k \<Longrightarrow> fst (updateOidValue k v m) k' = m k'"
  by (auto simp: updateOidValue_def split: option.splits go_value.splits)

lemma dom_updateOidValue: "dom (fst (updateOidValue k v m)) = dom m"
  by (auto simp: updateOidValue_def split: option.splits go_value.splits if_splits)

lemma updateOidValue_Type:
  "m k' = Some p \<Longrightarrow>
     \<exists>q. fst (updateOidValue k v m) k' = Some q \<and> Type q = Type p \<and> Name q = Name p"
  by (auto simp: updateOidValue_def split: option.splits go_value.splits)

lemma oidMap_putOid: "oidMap (putOid k v s) = fst (updateOidValue k v (oidMap s))"
  by (simp add: putOid_def split: prod.splits)

lemma putOid_other: "k' \<noteq> k \<Longrightarrow> oidMap (putOid k v s) k' = oidMap s k'"
  by (simp add: oidMap_putOid updateOidValue_other)

lemma dom_putOid: "dom (oidMap (putOid k v s)) = dom (oidMap s)"
  by (simp add: oidMap_putOid dom_updateOidValue)

lemma putOid_Type:
  "oidMap s k' = Some p \<Longrightarrow>
     \<exists>q. oidMap (putOid k v s) k' = Some q \<and> Type q = Type p \<and> Name q = Name p"
  by (simp add: oidMap_putOid updateOidValue_Type)

lemma dom_updateScalarOids: "dom (oidMap (updateScalarOids e g s)) = dom (oidMap s)"
  by (simp add: updateScalarOids_def Let_def dom_putOid)

lemma updateScalarOids_other:
  "k \<notin> {simGoroutinesOID, simGcCountOID, simMemoryMBOID, simUptimeSecOID, simCpuOID,
          simMemoryUtilOID, simTemperatureOID, simArpOID, simMacOID, simTcpOID}
   \<Longrightarrow> oidMap (updateScalarOids e g s) k = oidMap s k"
  by (simp add: updateScalarOids_def Let_def putOid_other)

lemma publishRate_inactive: "\<not> rateActive now iface \<Longrightarrow> publishRate now iface s = s"
  by (auto simp: publishRate_def rateActive_def)

lemma publishRate_oid_other:
  "k \<notin> rateKeys iface \<Longrightarrow> oidMap (publishRate now iface s) k = oidMap s k"
  by (simp add: publishRate_def rateKeys_def)

lemma publishRates_oid_other:
  "\<forall>iface \<in> set ifs. rateActive now iface \<longrightarrow> k \<notin> rateKeys iface
   \<Longrightarrow> oidMap (publishRates now ifs s) k = oidMap s k"
proof (induction ifs arbitrary: s)
  case Nil
  then show ?case by simp
next
  case (Cons iface rest)
  have "oidMap (publishRate now iface s) k = oidMap s k"
  proof (cases "rateActive now iface")
    case True
    then show ?thesis using Cons.prems by (simp add: publishRate_oid_other)
  next
    case False
    then show ?thesis by (simp add: publishRate_inactive)
  qed
  then show ?case using Cons by simp
qed

lemma dom_publishRate:
  "dom (oidMap (publishRate now iface s))
     = dom (oidMap s) \<union> (if rateActive now iface then rateKeys iface else {})"
  by (auto simp: publishRate_def rateActive_def rateKeys_def)

lemma dom_publishRates:
  "dom (oidMap (publishRates now ifs s))
     = dom (oidMap s) \<union> (\<Union>iface \<in> {i \<in> set ifs. rateActive now i}. rateKeys iface)"
proof (induction ifs arbitrary: s)
  case Nil
  then show ?case by simp
next
  case (Cons iface rest)
  have "dom (oidMap (publishRates now (iface # rest) s))
      = dom (oidMap (publishRate now iface s))
          \<union> (\<Union>iface \<in> {i \<in> set rest. rateActive now i}. rateKeys iface)"
    using Cons.IH by simp
  then show ?case by (auto simp: dom_publishRate split: if_splits)
qed

lemma fanStep_oid_other:
  "k \<noteq> fanStatusOID (fan_index f) \<Longrightarrow> oidMap (snd (fanStep f s)) k = oidMap s k"
  by (simp add: fanStep_def flipFan_def split: prod.splits)

lemma fanStep_index: "fan_index (fst (fanStep f s)) = fan_index f"
  and fanStep_descr: "fan_descr (fst (fanStep f s)) = fan_descr f"
  by (simp_all add: fanStep_def flipFan_def split: prod.splits)

lemma dom_fanStep:
  "dom (oidMap (snd (fanStep f s))) = insert (fanStatusOID (fan_index f)) (dom (oidMap s))"
  by (auto simp: fanStep_def flipFan_def split: prod.splits if_splits)

lemma fanLoop_oid_other:
  "\<forall>f \<in> set fs. k \<noteq> fanStatusOID (fan_index f)
   \<Longrightarrow> oidMap (snd (fanLoop fs s)) k = oidMap s k"
proof (induction fs arbitrary: s)
  case Nil
  then show ?case by simp
next
  case (Cons f fs)
  then show ?case by (simp add: fanLoop_snd_Cons fanStep_oid_other del: fanLoop.simps(2))
qed

lemma dom_fanLoop:
  "dom (oidMap (snd (fanLoop fs s)))
     = dom (oidMap s) \<union> (\<lambda>f. fanStatusOID (fan_index f)) ` set fs"
proof (induction fs arbitrary: s)
  case Nil
  then show ?case by simp
next
  case (Cons f fs)
  then show ?case by (auto simp: fanLoop_snd_Cons dom_fanStep simp del: fanLoop.simps(2))
qed

lemma psuStep_oid_other:
  "k \<noteq> psuStatusOID (psu_index p) \<Longrightarrow> oidMap (snd (psuStep p s)) k = oidMap s k"
  by (simp add: psuStep_def flipPsu_def split: prod.splits if_splits)

lemma dom_psuStep:
  "dom (oidMap (snd (psuStep p s))) = insert (psuStatusOID (psu_index p)) (dom (oidMap s))"
  by (auto simp: psuStep_def flipPsu_def split: prod.splits if_splits)

lemma psuLoop_oid_other:
  "\<forall>p \<in> set ps. k \<noteq> psuStatusOID (psu_index p)
   \<Longrightarrow> oidMap (snd (psuLoop ps s)) k = oidMap s k"
proof (induction ps arbitrary: s)
  case Nil
  then show ?case by simp
next
  case (Cons p ps)
  then show ?case by (simp add: psuLoop_snd_Cons psuStep_oid_other del: psuLoop.simps(2))
qed

lemma dom_psuLoop:
  "dom (oidMap (snd (psuLoop ps s)))
     = dom (oidMap s) \<union> (\<lambda>p. psuStatusOID (psu_index p)) ` set ps"
proof (induction ps arbitrary: s)
  case Nil
  then show ?case by simp
next
  case (Cons p ps)
  then show ?case by (auto simp: psuLoop_snd_Cons dom_psuStep simp del: psuLoop.simps(2))
qed

subsection \<open>The OID map across a fast tick\<close>

lemma head_frame:
  "\<exists>gc lg mu gr up g c cu m t tu.
     stepTemp (stepMemory e (stepCPU (updateAppMetrics e s)))
       = s\<lparr>gcCount := gc, lastGCCount := lg, memoryUsage := mu, goroutineCount := gr, uptime := up,
           rnd := g, simulatedDeviceCPU := c, cpuUsage := cu, simMemoryUtilPercent := m,
           simulatedDeviceTemp := t, simDeviceTemperatureCelsius := tu\<rparr>"
proof -
  define s1 where "s1 = updateAppMetrics e s"
  define s2 where "s2 = stepCPU s1"
  define s3 where "s3 = stepMemory e s2"
  define s4 where "s4 = stepTemp s3"
  obtain gc lg mu gr up where 1:
    "s1 = s\<lparr>gcCount := gc, lastGCCount := lg, memoryUsage := mu, goroutineCount := gr, uptime := up\<rparr>"
    unfolding s1_def using updateAppMetrics_frame by blast
  obtain g2 c cu where 2: "s2 = s1\<lparr>rnd := g2, simulatedDeviceCPU := c, cpuUsage := cu\<rparr>"
    unfolding s2_def using stepCPU_frame by blast
  have 3: "s3 = s2\<lparr>simMemoryUtilPercent := currentDeviceMemoryUtil e\<rparr>"
    unfolding s3_def by (simp add: stepMemory_def)
  obtain g4 t tu where 4:
    "s4 = s3\<lparr>rnd := g4, simulatedDeviceTemp := t, simDeviceTemperatureCelsius := tu\<rparr>"
    unfolding s4_def using stepTemp_frame by blast
  have "s4 = s\<lparr>gcCount := gc, lastGCCount := lg, memoryUsage := mu, goroutineCount := gr, uptime := up,
           rnd := g4, simulatedDeviceCPU := c, cpuUsage := cu,
           simMemoryUtilPercent := currentDeviceMemoryUtil e,
           simulatedDeviceTemp := t, simDeviceTemperatureCelsius := tu\<rparr>"
    by (simp add: 4 3 2 1)
  then show ?thesis
    unfolding s4_def s3_def s2_def s1_def by - ((rule exI)+, assumption)
qed

lemma head_keeps:
  "oidMap (stepTemp (stepMemory e (stepCPU (updateAppMetrics e s)))) = oidMap s"
  "interfaces (stepTemp (stepMemory e (stepCPU (updateAppMetrics e s)))) = interfaces s"
  "fans (stepTemp (stepMemory e (stepCPU (updateAppMetrics e s)))) = fans s"
  "psus (stepTemp (stepMemory e (stepCPU (updateAppMetrics e s)))) = psus s"
  "ifInRate (stepTemp (stepMemory e (stepCPU (updateAppMetrics e s)))) = ifInRate s"
  "ifOutRate (stepTemp (stepMemory e (stepCPU (updateAppMetrics e s)))) = ifOutRate s"
proof -
  obtain gc lg mu gr up g c cu m t tu where
    "stepTemp (stepMemory e (stepCPU (updateAppMetrics e s)))
       = s\<lparr>gcCount := gc, lastGCCount := lg, memoryUsage := mu, goroutineCount := gr, uptime := up,
           rnd := g, simulatedDeviceCPU := c, cpuUsage := cu, simMemoryUtilPercent := m,
           simulatedDeviceTemp := t, simDeviceTemperatureCelsius := tu\<rparr>"
    using head_frame[of e s] by (elim exE) (rule that)
  then show
    "oidMap (stepTemp (stepMemory e (stepCPU (updateAppMetrics e s)))) = oidMap s"
    "interfaces (stepTemp (stepMemory e (stepCPU (updateAppMetrics e s)))) = interfaces s"
    "fans (stepTemp (stepMemory e (stepCPU (updateAppMetrics e s)))) = fans s"
    "psus (stepTemp (stepMemory e (stepCPU (updateAppMetrics e s)))) = psus s"
    "ifInRate (stepTemp (stepMemory e (stepCPU (updateAppMetrics e s)))) = ifInRate s"
    "ifOutRate (stepTemp (stepMemory e (stepCPU (updateAppMetrics e s)))) = ifOutRate s"
    by simp_all
qed

text \<open>The fast tick as its interface, fan and power-supply loops after the random walks.\<close>

lemma monitor_unfold:
  "monitorSystemMetricsTick e s =
     (let s4 = stepTemp (stepMemory e (stepCPU (updateAppMetrics e s)));
          s5 = publishRates (currentTime e) (interfaces s) s4;
          s6 = updateFans s5;
          s7 = updatePsus s6
      in updateScalarOids e (rnd s7) (rerollScalars s7))"
  by (simp add: monitorSystemMetricsTick_def Let_def updateInterfaceRates_def head_keeps)

lemma publishRates_keeps:
  "fans (publishRates now ifs s) = fans s"
  "psus (publishRates now ifs s) = psus s"
  "interfaces (publishRates now ifs s) = interfaces s"
proof -
  obtain a b om where "publishRates now ifs s = s\<lparr>ifInRate := a, ifOutRate := b, oidMap := om\<rparr>"
    using publishRates_frame by blast
  then show "fans (publishRates now ifs s) = fans s" "psus (publishRates now ifs s) = psus s"
    "interfaces (publishRates now ifs s) = interfaces s"
    by simp_all
qed

lemma updateFans_keeps:
  "psus (updateFans s) = psus s"
  "interfaces (updateFans s) = interfaces s"
  "ifInRate (updateFans s) = ifInRate s"
  "ifOutRate (updateFans s) = ifOutRate s"
  "oidMap (updateFans s) = oidMap (snd (fanLoop (fans s) s))"
  "fans (updateFans s) = fst (fanLoop (fans s) s)"
proof -
  obtain g l m om fs where
    "updateFans s = s\<lparr>rnd := g, logged := l, simFanStatus := m, oidMap := om, fans := fs\<rparr>"
    using updateFans_frame by blast
  then show "psus (updateFans s) = psus s" "interfaces (updateFans s) = interfaces s"
    "ifInRate (updateFans s) = ifInRate s" "ifOutRate (updateFans s) = ifOutRate s"
    by simp_all
  show "oidMap (updateFans s) = oidMap (snd (fanLoop (fans s) s))"
    "fans (updateFans s) = fst (fanLoop (fans s) s)"
    by (simp_all add: updateFans_def split: prod.splits)
qed

lemma updatePsus_keeps:
  "fans (updatePsus s) = fans s"
  "interfaces (updatePsus s) = interfaces s"
  "ifInRate (updatePsus s) = ifInRate s"
  "ifOutRate (updatePsus s) = ifOutRate s"
  "oidMap (updatePsus s) = oidMap (snd (psuLoop (psus s) s))"
  "psus (updatePsus s) = fst (psuLoop (psus s) s)"
proof -
  obtain g l m om ps where
    "updatePsus s = s\<lparr>rnd := g, logged := l, simPsuStatus := m, oidMap := om, psus := ps\<rparr>"
    using updatePsus_frame by blast
  then show "fans (updatePsus s) = fans s" "interfaces (updatePsus s) = interfaces s"
    "ifInRate (updatePsus s) = ifInRate s" "ifOutRate (updatePsus s) = ifOutRate s"
    by simp_all
  show "oidMap (updatePsus s) = oidMap (snd (psuLoop (psus s) s))"
    "psus (updatePsus s) = fst (psuLoop (psus s) s)"
    by (simp_all add: updatePsus_def split: prod.splits)
qed

lemma rerollScalars_keeps:
  "oidMap (rerollScalars s) = oidMap s"
  "ifInRate (rerollScalars s) = ifInRate s"
  "ifOutRate (rerollScalars s) = ifOutRate s"
  by (simp_all add: rerollScalars_def)

lemma updateScalarOids_keeps:
  "ifInRate (updateScalarOids e g s) = ifInRate s"
  "ifOutRate (updateScalarOids e g s) = ifOutRate s"
proof -
  obtain om l where "updateScalarOids e g s = s\<lparr>oidMap := om, logged := l\<rparr>"
    using updateScalarOids_frame by blast
  then show "ifInRate (updateScalarOids e g s) = ifInRate s"
    "ifOutRate (updateScalarOids e g s) = ifOutRate s"
    by simp_all
qed

lemma monitor_oid_other:
  assumes "k \<notin> scalarKeys"
    and "\<forall>iface \<in> set (interfaces s). rateActive (currentTime e) iface \<longrightarrow> k \<notin> rateKeys iface"
    and "\<forall>f \<in> set (fans s). k \<noteq> fanStatusOID (fan_index f)"
    and "\<forall>p \<in> set (psus s). k \<noteq> psuStatusOID (psu_index p)"
  shows "oidMap (monitorSystemMetricsTick e s) k = oidMap s k"
  using assms
  by (simp add: monitor_unfold Let_def updateScalarOids_other scalarKeys_def rerollScalars_keeps
      updatePsus_keeps updateFans_keeps publishRates_keeps psuLoop_oid_other fanLoop_oid_other
      publishRates_oid_other head_keeps)

lemma monitor_dom:
  "dom (oidMap (monitorSystemMetricsTick e s))
     = dom (oidMap s)
       \<union> (\<Union>iface \<in> {i \<in> set (interfaces s). rateActive (currentTime e) i}. rateKeys iface)
       \<union> (\<lambda>f. fanStatusOID (fan_index f)) ` set (fans s)
       \<union> (\<lambda>p. psuStatusOID (psu_index p)) ` set (psus s)"
  by (simp add: monitor_unfold Let_def dom_updateScalarOids rerollScalars_keeps
      updatePsus_keeps updateFans_keeps publishRates_keeps dom_psuLoop dom_fanLoop
      dom_publishRates head_keeps Un_assoc)

lemma monitor_rates_eq:
  "ifInRate (monitorSystemMetricsTick e s)
     = ifInRate (publishRates (currentTime e) (interfaces s)
         (stepTemp (stepMemory e (stepCPU (updateAppMetrics e s)))))"
  "ifOutRate (monitorSystemMetricsTick e s)
     = ifOutRate (publishRates (currentTime e) (interfaces s)
         (stepTemp (stepMemory e (stepCPU (updateAppMetrics e s)))))"
  by (simp_all add: monitor_unfold Let_def updateScalarOids_keeps rerollScalars_keeps
      updatePsus_keeps updateFans_keeps)

subsection \<open>The device gauges across a tick\<close>

lemma tail_keeps:
  fixes e g0 s
  defines "t \<equiv> updateScalarOids e g0 (rerollScalars (updatePsus (updateFans (updateInterfaceRates e s))))"
  shows "cpuUsage t = cpuUsage s" "simulatedDeviceCPU t = simulatedDeviceCPU s"
    "simMemoryUtilPercent t = simMemoryUtilPercent s"
    "simDeviceTemperatureCelsius t = simDeviceTemperatureCelsius s"
    "simulatedDeviceTemp t = simulatedDeviceTemp s"
    "gcCount t = gcCount s" "uptime t = uptime s" "lastGCCount t = lastGCCount s"
    "interfaces t = interfaces s"
    "simIfInErrorsTotal t = simIfInErrorsTotal s" "simIfOutDiscardsTotal t = simIfOutDiscardsTotal s"
proof -
  obtain a b om g l fm fs pm ps x y z where
    "updateScalarOids e g0 (rerollScalars (updatePsus (updateFans (updateInterfaceRates e s))))
       = s\<lparr>ifInRate := a, ifOutRate := b, oidMap := om, rnd := g, logged := l,
           simFanStatus := fm, fans := fs, simPsuStatus := pm, psus := ps,
           simArpCacheEntries := x, simMacTableEntries := y, simActiveTcpConnections := z\<rparr>"
    using tail_frame[of e g0 s] by (elim exE) (rule that)
  then have "t = s\<lparr>ifInRate := a, ifOutRate := b, oidMap := om, rnd := g, logged := l,
           simFanStatus := fm, fans := fs, simPsuStatus := pm, psus := ps,
           simArpCacheEntries := x, simMacTableEntries := y, simActiveTcpConnections := z\<rparr>"
    unfolding t_def .
  then show "cpuUsage t = cpuUsage s" "simulatedDeviceCPU t = simulatedDeviceCPU s"
    "simMemoryUtilPercent t = simMemoryUtilPercent s"
    "simDeviceTemperatureCelsius t = simDeviceTemperatureCelsius s"
    "simulatedDeviceTemp t = simulatedDeviceTemp s"
    "gcCount t = gcCount s" "uptime t = uptime s" "lastGCCount t = lastGCCount s"
    "interfaces t = interfaces s"
    "simIfInErrorsTotal t = simIfInErrorsTotal s" "simIfOutDiscardsTotal t = simIfOutDiscardsTotal s"
    by simp_all
qed

lemma stepCPU_value:
  "cpuUsage (stepCPU s) = simulatedDeviceCPU (stepCPU s)"
  "simulatedDeviceCPU (stepCPU s) =
     (let cpu0 = simulatedDeviceCPU s + real_of_int (int (fst (Intn 11 (rnd s))) - 5)
      in if cpu0 < 5 then 5 else if cpu0 > 90 then 90 else cpu0)"
  by (simp_all add: stepCPU_def Let_def split: prod.splits)

lemma stepTemp_value:
  "simDeviceTemperatureCelsius (stepTemp s) = simulatedDeviceTemp (stepTemp s)"
  "simulatedDeviceTemp (stepTemp s) =
     (let t0 = simulatedDeviceTemp s + real_of_int (int (fst (Intn 5 (rnd s))) - 2)
      in if t0 < 20 then 20 else if t0 > 75 then 75 else t0)"
  by (simp_all add: stepTemp_def Let_def split: prod.splits)

lemma updateAppMetrics_keeps:
  "rnd (updateAppMetrics e s) = rnd s"
  "simulatedDeviceCPU (updateAppMetrics e s) = simulatedDeviceCPU s"
  "simulatedDeviceTemp (updateAppMetrics e s) = simulatedDeviceTemp s"
  by (simp_all add: updateAppMetrics_def Let_def)

lemma monitor_cpu:
  "cpuUsage (monitorSystemMetricsTick e s) = simulatedDeviceCPU (monitorSystemMetricsTick e s)"
  "simulatedDeviceCPU (monitorSystemMetricsTick e s) =
     (let cpu0 = simulatedDeviceCPU s + real_of_int (int (fst (Intn 11 (rnd s))) - 5)
      in if cpu0 < 5 then 5 else if cpu0 > 90 then 90 else cpu0)"
proof -
  let ?s2 = "stepCPU (updateAppMetrics e s)"
  have a: "cpuUsage (monitorSystemMetricsTick e s) = cpuUsage ?s2"
    by (simp add: monitorSystemMetricsTick_def Let_def tail_keeps stepTemp_def stepMemory_def
        split: prod.splits)
  have b: "simulatedDeviceCPU (monitorSystemMetricsTick e s) = simulatedDeviceCPU ?s2"
    by (simp add: monitorSystemMetricsTick_def Let_def tail_keeps stepTemp_def stepMemory_def
        split: prod.splits)
  show "cpuUsage (monitorSystemMetricsTick e s) = simulatedDeviceCPU (monitorSystemMetricsTick e s)"
    by (simp add: a b stepCPU_value(1))
  show "simulatedDeviceCPU (monitorSystemMetricsTick e s) =
     (let cpu0 = simulatedDeviceCPU s + real_of_int (int (fst (Intn 11 (rnd s))) - 5)
      in if cpu0 < 5 then 5 else if cpu0 > 90 then 90 else cpu0)"
    by (simp add: b stepCPU_value(2) updateAppMetrics_keeps)
qed

lemma monitor_mem:
  "simMemoryUtilPercent (monitorSystemMetricsTick e s) = currentDeviceMemoryUtil e"
  by (simp add: monitorSystemMetricsTick_def Let_def tail_keeps stepTemp_def stepMemory_def
      split: prod.splits)

lemma monitor_temp:
  "simDeviceTemperatureCelsius (monitorSystemMetricsTick e s)
     = simulatedDeviceTemp (monitorSystemMetricsTick e s)"
  "simulatedDeviceTemp (monitorSystemMetricsTick e s) =
     (let t0 = simulatedDeviceTemp s + real_of_int (int (fst (Intn 5 (snd (Intn 11 (rnd s))))) - 2)
      in if t0 < 20 then 20 else if t0 > 75 then 75 else t0)"
proof -
  let ?s3 = "stepMemory e (stepCPU (updateAppMetrics e s))"
  have a: "simDeviceTemperatureCelsius (monitorSystemMetricsTick e s)
      = simDeviceTemperatureCelsius (stepTemp ?s3)"
    by (simp add: monitorSystemMetricsTick_def Let_def tail_keeps)
  have b: "simulatedDeviceTemp (monitorSystemMetricsTick e s) = simulatedDeviceTemp (stepTemp ?s3)"
    by (simp add: monitorSystemMetricsTick_def Let_def tail_keeps)
  have c: "rnd ?s3 = snd (Intn 11 (rnd s))" "simulatedDeviceTemp ?s3 = simulatedDeviceTemp s"
    by (simp_all add: stepMemory_def stepCPU_def Let_def updateAppMetrics_keeps split: prod.splits)
  show "simDeviceTemperatureCelsius (monitorSystemMetricsTick e s)
     = simulatedDeviceTemp (monitorSystemMetricsTick e s)"
    by (simp add: a b stepTemp_value(1))
  show "simulatedDeviceTemp (monitorSystemMetricsTick e s) =
     (let t0 = simulatedDeviceTemp s + real_of_int (int (fst (Intn 5 (snd (Intn 11 (rnd s))))) - 2)
      in if t0 < 20 then 20 else if t0 > 75 then 75 else t0)"
    by (simp add: b stepTemp_value(2) c)
qed

lemma currentDeviceMemoryUtil_bounds:
  "10 \<le> currentDeviceMemoryUtil e" "currentDeviceMemoryUtil e \<le> 95"
  by (simp_all add: currentDeviceMemoryUtil_def Let_def)

lemma monitor_in_bounds: "deviceGaugesInBounds (monitorSystemMetricsTick e s)"
  unfolding deviceGaugesInBounds_def
  by (simp add: monitor_cpu monitor_temp monitor_mem currentDeviceMemoryUtil_bounds Let_def)

lemma increment_keeps_bounds:
  assumes "incrementCountersTick now s = Inr s'" and "deviceGaugesInBounds s"
  shows "deviceGaugesInBounds s'"
proof -
  obtain g ie od om where "s' = s\<lparr>rnd := g, simIfInErrorsTotal := ie, simIfOutDiscardsTotal := od,
           interfaces := fst (bumpLoop 0 now (interfaces s) s), oidMap := om\<rparr>"
    using incrementCountersTick_frame[OF assms(1)] by blast
  then show ?thesis using assms(2) by (simp add: deviceGaugesInBounds_def)
qed

lemma run_in_bounds:
  "run s ts = Inr s' \<Longrightarrow> deviceGaugesInBounds s \<or> (\<exists>t \<in> set ts. isFast t)
     \<Longrightarrow> deviceGaugesInBounds s'"
proof (induction ts arbitrary: s)
  case Nil
  then show ?case by simp
next
  case (Cons t ts)
  show ?case
  proof (cases t)
    case (Fast e)
    then have "run (monitorSystemMetricsTick e s) ts = Inr s'" using Cons.prems(1) by simp
    then show ?thesis using Cons.IH monitor_in_bounds by blast
  next
    case (Slow now)
    then obtain s1 where s1: "incrementCountersTick now s = Inr s1" and r: "run s1 ts = Inr s'"
      using Cons.prems(1) by (auto split: sum.splits)
    have "deviceGaugesInBounds s1 \<or> (\<exists>t \<in> set ts. isFast t)"
      using Cons.prems(2) Slow increment_keeps_bounds[OF s1] by auto
    then show ?thesis using Cons.IH[OF r] by blast
  qed
qed

subsection \<open>Runs do not panic\<close>

lemmas oid_defs = sysUpTimeOID_def simGoroutinesOID_def simGcCountOID_def simMemoryMBOID_def
  simUptimeSecOID_def simCpuOID_def simMemoryUtilOID_def simTemperatureOID_def simArpOID_def
  simMacOID_def simTcpOID_def ifInRateOID_def ifOutRateOID_def ifInErrorsOID_def
  ifOutDiscardsOID_def fanStatusOID_def psuStatusOID_def baseSystemOIDPrefix_def
  baseInterfacesOIDPrefix_def customSimBaseOIDPrefix_def customSimSystemOIDPrefix_def
  customSimIfRateOIDPrefix_def customSimH3CCommonOIDPrefix_def

lemma monitor_sysUpTime:
  "oidMap (monitorSystemMetricsTick e s) sysUpTimeOID = oidMap s sysUpTimeOID"
  by (rule monitor_oid_other) (simp_all add: scalarKeys_def rateKeys_def oid_defs)

lemma updateSysUpTime_total:
  assumes "sysUpTimeIsUint32 s"
  shows "\<exists>s'. updateSysUpTime s = Inr s' \<and> sysUpTimeIsUint32 s'"
proof (cases "oidMap s sysUpTimeOID")
  case None
  then show ?thesis using assms by (simp add: updateSysUpTime_def)
next
  case (Some p)
  then obtain v where v: "Value p = GoUint32 v"
    using assms by (auto simp: sysUpTimeIsUint32_def split: go_value.splits)
  have "updateSysUpTime s = Inr (s\<lparr>oidMap := (oidMap s)(sysUpTimeOID \<mapsto>
      \<lparr>Name = Name p, Type = Type p, Value = GoUint32 (v + incrementTicks)\<rparr>)\<rparr>)"
    using Some v by (simp add: updateSysUpTime_def)
  moreover have "sysUpTimeIsUint32 (s\<lparr>oidMap := (oidMap s)(sysUpTimeOID \<mapsto>
      \<lparr>Name = Name p, Type = Type p, Value = GoUint32 (v + incrementTicks)\<rparr>)\<rparr>)"
    by (simp add: sysUpTimeIsUint32_def)
  ultimately show ?thesis by blast
qed

lemma updateInterfaceCounters_oidMap: "oidMap (updateInterfaceCounters now s) = oidMap s"
proof -
  obtain g ie od where "updateInterfaceCounters now s
     = s\<lparr>rnd := g, simIfInErrorsTotal := ie, simIfOutDiscardsTotal := od,
         interfaces := fst (bumpLoop 0 now (interfaces s) s)\<rparr>"
    using updateInterfaceCounters_frame by blast
  then show ?thesis by simp
qed

lemma increment_total:
  assumes "sysUpTimeIsUint32 s"
  shows "\<exists>s'. incrementCountersTick now s = Inr s' \<and> sysUpTimeIsUint32 s'"
proof -
  have "sysUpTimeIsUint32 (updateInterfaceCounters now s)"
    using assms by (simp add: sysUpTimeIsUint32_def updateInterfaceCounters_oidMap)
  then show ?thesis
    unfolding incrementCountersTick_def by (rule updateSysUpTime_total)
qed

lemma run_total:
  "sysUpTimeIsUint32 s \<Longrightarrow> \<exists>s'. run s ts = Inr s' \<and> sysUpTimeIsUint32 s'"
proof (induction ts arbitrary: s)
  case Nil
  then show ?case by simp
next
  case (Cons t ts)
  show ?case
  proof (cases t)
    case (Fast e)
    have "sysUpTimeIsUint32 (monitorSystemMetricsTick e s)"
      using Cons.prems by (simp add: sysUpTimeIsUint32_def monitor_sysUpTime)
    from Cons.IH[OF this] show ?thesis using Fast by simp
  next
    case (Slow now)
    obtain s1 where s1: "incrementCountersTick now s = Inr s1" "sysUpTimeIsUint32 s1"
      using increment_total[OF Cons.prems] by blast
    from Cons.IH[OF s1(2)] show ?thesis using Slow s1(1) by simp
  qed
qed

lemma init_sysUpTime: "sysUpTimeIsUint32 (initState ie)"
  by (simp add: sysUpTimeIsUint32_def initState_def initOidList_def mkPDU_def oid_defs)

lemma init_run_total: "\<exists>s'. run (initState ie) ts = Inr s'"
  using run_total[OF init_sysUpTime] by blast

subsection \<open>Fans and power supplies across a tick\<close>

lemma psuStep_transition: "psuTransition p (fst (psuStep p s))"
  by (simp add: psuTransition_def psuStep_def flipPsu_def split: prod.splits)

lemma fanStep_transition: "fanTransition f (fst (fanStep f s))"
  by (simp add: fanTransition_def fanStep_def flipFan_def split: prod.splits)

lemma psuLoop_fst_Cons:
  "fst (psuLoop (p # ps) s) = fst (psuStep p s) # fst (psuLoop ps (snd (psuStep p s)))"
  by (simp split: prod.splits)

lemma fanLoop_fst_Cons:
  "fst (fanLoop (f # fs) s) = fst (fanStep f s) # fst (fanLoop fs (snd (fanStep f s)))"
  by (simp split: prod.splits)

lemma psuLoop_transition: "list_all2 psuTransition ps (fst (psuLoop ps s))"
  by (induction ps arbitrary: s)
    (simp_all add: psuLoop_fst_Cons psuStep_transition del: psuLoop.simps(2))

lemma fanLoop_transition: "list_all2 fanTransition fs (fst (fanLoop fs s))"
  by (induction fs arbitrary: s)
    (simp_all add: fanLoop_fst_Cons fanStep_transition del: fanLoop.simps(2))

lemma psuTransition_refl: "psuTransition p p"
  by (simp add: psuTransition_def)

lemma fanTransition_refl: "fanTransition f f"
  by (simp add: fanTransition_def)

lemma psuTransition_trans: "psuTransition p q \<Longrightarrow> psuTransition q r \<Longrightarrow> psuTransition p r"
  by (auto simp: psuTransition_def)

lemma fanTransition_trans: "fanTransition p q \<Longrightarrow> fanTransition q r \<Longrightarrow> fanTransition p r"
  by (auto simp: fanTransition_def)

lemma monitor_psus:
  "psus (monitorSystemMetricsTick e s)
     = fst (psuLoop (psus s) (updateFans (publishRates (currentTime e) (interfaces s)
         (stepTemp (stepMemory e (stepCPU (updateAppMetrics e s)))))))"
proof -
  have a: "\<And>g t. psus (updateScalarOids e g t) = psus t"
  proof -
    fix g t
    obtain om l where "updateScalarOids e g t = t\<lparr>oidMap := om, logged := l\<rparr>"
      using updateScalarOids_frame by blast
    then show "psus (updateScalarOids e g t) = psus t" by simp
  qed
  have b: "\<And>t. psus (rerollScalars t) = psus t" by (simp add: rerollScalars_def)
  show ?thesis
    by (simp add: monitor_unfold Let_def a b updatePsus_keeps updateFans_keeps publishRates_keeps
        head_keeps)
qed

lemma monitor_fans:
  "fans (monitorSystemMetricsTick e s)
     = fst (fanLoop (fans s) (publishRates (currentTime e) (interfaces s)
         (stepTemp (stepMemory e (stepCPU (updateAppMetrics e s))))))"
proof -
  have a: "\<And>g t. fans (updateScalarOids e g t) = fans t"
  proof -
    fix g t
    obtain om l where "updateScalarOids e g t = t\<lparr>oidMap := om, logged := l\<rparr>"
      using updateScalarOids_frame by blast
    then show "fans (updateScalarOids e g t) = fans t" by simp
  qed
  have b: "\<And>t. fans (rerollScalars t) = fans t" by (simp add: rerollScalars_def)
  show ?thesis
    by (simp add: monitor_unfold Let_def a b updatePsus_keeps updateFans_keeps publishRates_keeps
        head_keeps)
qed

lemma increment_keeps_health:
  assumes "incrementCountersTick now s = Inr s'"
  shows "fans s' = fans s" "psus s' = psus s"
proof -
  obtain g ie od om where "s' = s\<lparr>rnd := g, simIfInErrorsTotal := ie, simIfOutDiscardsTotal := od,
           interfaces := fst (bumpLoop 0 now (interfaces s) s), oidMap := om\<rparr>"
    using incrementCountersTick_frame[OF assms] by blast
  then show "fans s' = fans s" "psus s' = psus s" by simp_all
qed

lemma step_health:
  assumes "step t s = Inr s'"
  shows "list_all2 psuTransition (psus s) (psus s')" "list_all2 fanTransition (fans s) (fans s')"
proof -
  show "list_all2 psuTransition (psus s) (psus s')"
  proof (cases t)
    case (Fast e)
    then show ?thesis using assms by (auto simp: monitor_psus psuLoop_transition)
  next
    case (Slow now)
    then show ?thesis
      using assms increment_keeps_health(2)[of now s s']
      by (simp add: list_all2_refl psuTransition_refl)
  qed
  show "list_all2 fanTransition (fans s) (fans s')"
  proof (cases t)
    case (Fast e)
    then show ?thesis using assms by (auto simp: monitor_fans fanLoop_transition)
  next
    case (Slow now)
    then show ?thesis
      using assms increment_keeps_health(1)[of now s s']
      by (simp add: list_all2_refl fanTransition_refl)
  qed
qed

lemma run_health:
  "run s ts = Inr s' \<Longrightarrow>
     list_all2 psuTransition (psus s) (psus s') \<and> list_all2 fanTransition (fans s) (fans s')"
proof (induction ts arbitrary: s)
  case Nil
  then show ?case by (simp add: list_all2_refl psuTransition_refl fanTransition_refl)
next
  case (Cons t ts)
  then obtain s1 where s1: "step t s = Inr s1" and r: "run s1 ts = Inr s'"
    by (auto split: sum.splits)
  have "list_all2 psuTransition (psus s) (psus s')"
    using list_all2_trans[of psuTransition psuTransition psuTransition, OF _ step_health(1)[OF s1]]
      Cons.IH[OF r] psuTransition_trans by blast
  moreover have "list_all2 fanTransition (fans s) (fans s')"
    using list_all2_trans[of fanTransition fanTransition fanTransition, OF _ step_health(2)[OF s1]]
      Cons.IH[OF r] fanTransition_trans by blast
  ultimately show ?case by blast
qed

subsection \<open>The interface slice across ticks\<close>

lemma monitor_interfaces: "interfaces (monitorSystemMetricsTick e s) = interfaces s"
  by (simp add: monitorSystemMetricsTick_def Let_def tail_keeps head_keeps)

lemma bumpLoop_static:
  assumes "k < length ifs"
  shows "index (fst (bumpLoop i now ifs s) ! k) = index (ifs ! k)"
    "descr (fst (bumpLoop i now ifs s) ! k) = descr (ifs ! k)"
    "adminStatus (fst (bumpLoop i now ifs s) ! k) = adminStatus (ifs ! k)"
    "operStatus (fst (bumpLoop i now ifs s) ! k) = operStatus (ifs ! k)"
    "operStatus (ifs ! k) \<noteq> 1 \<Longrightarrow> fst (bumpLoop i now ifs s) ! k = ifs ! k"
proof -
  obtain t where t: "fst (bumpLoop i now ifs s) ! k = fst (bumpInterface (i + k) now (ifs ! k) t)"
    using bumpLoop_nth[OF assms] by blast
  show "index (fst (bumpLoop i now ifs s) ! k) = index (ifs ! k)"
    "descr (fst (bumpLoop i now ifs s) ! k) = descr (ifs ! k)"
    "adminStatus (fst (bumpLoop i now ifs s) ! k) = adminStatus (ifs ! k)"
    "operStatus (fst (bumpLoop i now ifs s) ! k) = operStatus (ifs ! k)"
    by (simp_all add: t bumpInterface_fst)
  show "operStatus (ifs ! k) \<noteq> 1 \<Longrightarrow> fst (bumpLoop i now ifs s) ! k = ifs ! k"
    by (simp add: t bumpInterface_down)
qed

lemma increment_interfaces:
  assumes "incrementCountersTick now s = Inr s'"
  shows "interfaces s' = fst (bumpLoop 0 now (interfaces s) s)"
proof -
  obtain g ie od om where "s' = s\<lparr>rnd := g, simIfInErrorsTotal := ie, simIfOutDiscardsTotal := od,
           interfaces := fst (bumpLoop 0 now (interfaces s) s), oidMap := om\<rparr>"
    using incrementCountersTick_frame[OF assms] by blast
  then show ?thesis by simp
qed

subsection \<open>The CPU walk and its entry in the OID map\<close>

lemma float_to_uint32_exact:
  assumes "x \<in> \<int>" and "0 \<le> x" and "x < 4294967296"
  shows "real (unat (float_to_uint32 x)) = x"
proof -
  obtain n where n: "x = of_int n" using assms(1) by (auto elim: Ints_cases)
  have n0: "0 \<le> n" and n1: "n < 4294967296" using assms(2,3) n by simp_all
  have "unat (word_of_int n :: uint32) = nat n"
    using n0 n1 by (simp add: unat_eq_nat_uint word_of_int_inverse uint_word_of_int)
  then show ?thesis using n n0 n1 by (simp add: float_to_uint32_def float_trunc_def)
qed

lemma monitor_cpu_int:
  "simulatedDeviceCPU s \<in> \<int> \<Longrightarrow> simulatedDeviceCPU (monitorSystemMetricsTick e s) \<in> \<int>"
  by (simp add: monitor_cpu(2) Let_def)

lemma monitor_cpu_range:
  "5 \<le> simulatedDeviceCPU (monitorSystemMetricsTick e s)"
  "simulatedDeviceCPU (monitorSystemMetricsTick e s) \<le> 90"
  by (simp_all add: monitor_cpu(2) Let_def)

lemma updateScalarOids_cpu:
  assumes "oidMap s simCpuOID = Some p" and "Type p = Gauge32"
  shows "oidMap (updateScalarOids e g s) simCpuOID
     = Some (p\<lparr>Value := GoUint32 (float_to_uint32 (simulatedDeviceCPU s))\<rparr>)"
proof -
  define s4 where "s4 = putOid simUptimeSecOID (GoUint32 (currentSimUptimeTicks e))
     (putOid simMemoryMBOID (GoUint32 (ucast (memAlloc e div 1024 div 1024)))
       (putOid simGcCountOID (GoUint32 (memNumGC e))
         (putOid simGoroutinesOID (GoUint32 (word_of_int (numGoroutineOid e))) s)))"
  define s5 where "s5 = putOid simCpuOID (GoUint32 (float_to_uint32 (simulatedDeviceCPU s))) s4"
  have 4: "oidMap s4 simCpuOID = Some p"
    unfolding s4_def using assms(1) by (simp add: putOid_other oid_defs)
  have 5: "oidMap s5 simCpuOID
      = Some (p\<lparr>Value := GoUint32 (float_to_uint32 (simulatedDeviceCPU s))\<rparr>)"
    unfolding s5_def using 4 assms(2) by (simp add: oidMap_putOid updateOidValue_def)
  have "updateScalarOids e g s =
      putOid simTcpOID (GoUint32 (tcpConnectionsVal g))
        (putOid simMacOID (GoUint32 (macEntriesVal g))
          (putOid simArpOID (GoUint32 (arpEntriesVal g))
            (putOid simTemperatureOID (GoInt32 (float_to_int32 (simulatedDeviceTemp s)))
              (putOid simMemoryUtilOID (GoUint32 (float_to_uint32 (currentDeviceMemoryUtil e)))
                s5))))"
    by (simp add: updateScalarOids_def Let_def s5_def s4_def)
  then show ?thesis using 5 by (simp add: putOid_other oid_defs)
qed

lemma updateScalarOids_keeps_cpu:
  "simulatedDeviceCPU (updateScalarOids e g s) = simulatedDeviceCPU s"
proof -
  obtain om l where "updateScalarOids e g s = s\<lparr>oidMap := om, logged := l\<rparr>"
    using updateScalarOids_frame by blast
  then show ?thesis by simp
qed

lemma monitor_cpu_oid:
  assumes "oidMap s simCpuOID = Some p" and "Type p = Gauge32"
  shows "oidMap (monitorSystemMetricsTick e s) simCpuOID
     = Some (p\<lparr>Value := GoUint32 (float_to_uint32 (simulatedDeviceCPU (monitorSystemMetricsTick e s)))\<rparr>)"
proof -
  define s7 where "s7 = updatePsus (updateFans (publishRates (currentTime e) (interfaces s)
      (stepTemp (stepMemory e (stepCPU (updateAppMetrics e s))))))"
  have m: "monitorSystemMetricsTick e s = updateScalarOids e (rnd s7) (rerollScalars s7)"
    by (simp add: monitor_unfold Let_def s7_def)
  have "oidMap (rerollScalars s7) simCpuOID = oidMap s simCpuOID"
    unfolding s7_def
    by (simp add: rerollScalars_keeps updatePsus_keeps updateFans_keeps publishRates_keeps
        psuLoop_oid_other fanLoop_oid_other publishRates_oid_other head_keeps rateKeys_def oid_defs)
  then have a: "oidMap (rerollScalars s7) simCpuOID = Some p" using assms(1) by simp
  have b: "simulatedDeviceCPU (monitorSystemMetricsTick e s) = simulatedDeviceCPU (rerollScalars s7)"
    by (simp add: m updateScalarOids_keeps_cpu)
  show ?thesis
    unfolding b unfolding m by (rule updateScalarOids_cpu[OF a assms(2)])
qed

lemma monitor_cpu_typed:
  assumes "\<exists>p. oidMap s simCpuOID = Some p \<and> Type p = Gauge32"
  shows "\<exists>p. oidMap (monitorSystemMetricsTick e s) simCpuOID = Some p \<and> Type p = Gauge32"
proof -
  obtain p where p: "oidMap s simCpuOID = Some p" "Type p = Gauge32" using assms by blast
  show ?thesis by (simp add: monitor_cpu_oid[OF p] p(2))
qed

lemma increment_cpu:
  assumes "incrementCountersTick now s = Inr s'"
  shows "simulatedDeviceCPU s' = simulatedDeviceCPU s" "oidMap s' simCpuOID = oidMap s simCpuOID"
proof -
  obtain g ie od om where s': "s' = s\<lparr>rnd := g, simIfInErrorsTotal := ie,
           simIfOutDiscardsTotal := od,
           interfaces := fst (bumpLoop 0 now (interfaces s) s), oidMap := om\<rparr>"
    and om: "\<forall>k. k \<noteq> sysUpTimeOID \<longrightarrow> om k = oidMap s k"
    using incrementCountersTick_frame[OF assms] by blast
  show "simulatedDeviceCPU s' = simulatedDeviceCPU s" by (simp add: s')
  have "simCpuOID \<noteq> sysUpTimeOID" by (simp add: oid_defs)
  then show "oidMap s' simCpuOID = oidMap s simCpuOID" using om by (simp add: s')
qed

lemma run_cpu:
  "run s ts = Inr s' \<Longrightarrow> simulatedDeviceCPU s \<in> \<int>
     \<Longrightarrow> \<exists>p. oidMap s simCpuOID = Some p \<and> Type p = Gauge32
     \<Longrightarrow> simulatedDeviceCPU s' \<in> \<int> \<and> (\<exists>p. oidMap s' simCpuOID = Some p \<and> Type p = Gauge32)"
proof (induction ts arbitrary: s)
  case Nil
  then show ?case by simp
next
  case (Cons t ts)
  show ?case
  proof (cases t)
    case (Fast e)
    then have r: "run (monitorSystemMetricsTick e s) ts = Inr s'" using Cons.prems(1) by simp
    show ?thesis
      by (rule Cons.IH[OF r monitor_cpu_int[OF Cons.prems(2)] monitor_cpu_typed[OF Cons.prems(3)]])
  next
    case (Slow now)
    then obtain s1 where s1: "incrementCountersTick now s = Inr s1" and r: "run s1 ts = Inr s'"
      using Cons.prems(1) by (auto split: sum.splits)
    have a: "simulatedDeviceCPU s1 \<in> \<int>" using Cons.prems(2) by (simp add: increment_cpu(1)[OF s1])
    have b: "\<exists>p. oidMap s1 simCpuOID = Some p \<and> Type p = Gauge32"
      using Cons.prems(3) by (simp add: increment_cpu(2)[OF s1])
    show ?thesis by (rule Cons.IH[OF r a b])
  qed
qed

lemma init_cpu:
  "simulatedDeviceCPU (initState ie) \<in> \<int>"
  "\<exists>p. oidMap (initState ie) simCpuOID = Some p \<and> Type p = Gauge32"
  by (simp_all add: initState_def initOidList_def mkPDU_def oid_defs)

subsection \<open>The published rates\<close>

lemma sint_index_eq: "sint (a :: int32) = sint b \<longleftrightarrow> a = b"
  by (auto intro: signed_word_eqI)

lemma rateKeys_other:
  "a \<noteq> index iface \<Longrightarrow> ifInRateOID a \<notin> rateKeys iface \<and> ifOutRateOID a \<notin> rateKeys iface
     \<and> ifInErrorsOID a \<notin> rateKeys iface \<and> ifOutDiscardsOID a \<notin> rateKeys iface"
  by (simp add: rateKeys_def oid_defs sint_index_eq)

lemma publishRate_rate_other:
  "\<not> rateActive now iface \<or> l \<noteq> labelsOf (index iface) (descr iface)
   \<Longrightarrow> ifInRate (publishRate now iface s) l = ifInRate s l
       \<and> ifOutRate (publishRate now iface s) l = ifOutRate s l"
  by (auto simp: publishRate_def rateActive_def vecSet_def)

lemma publishRates_rate_other:
  "\<forall>iface \<in> set ifs. rateActive now iface \<longrightarrow> l \<noteq> labelsOf (index iface) (descr iface)
   \<Longrightarrow> ifInRate (publishRates now ifs s) l = ifInRate s l
       \<and> ifOutRate (publishRates now ifs s) l = ifOutRate s l"
proof (induction ifs arbitrary: s)
  case Nil
  then show ?case by simp
next
  case (Cons iface rest)
  have "ifInRate (publishRate now iface s) l = ifInRate s l
       \<and> ifOutRate (publishRate now iface s) l = ifOutRate s l"
    using Cons.prems by (intro publishRate_rate_other) auto
  then show ?case using Cons by simp
qed

lemma publishRate_sets:
  assumes "rateActive now iface"
  shows "ifInRate (publishRate now iface s) (labelsOf (index iface) (descr iface))
       = Some (inRateBps now iface)"
    "ifOutRate (publishRate now iface s) (labelsOf (index iface) (descr iface))
       = Some (outRateBps now iface)"
    "oidMap (publishRate now iface s) (ifInRateOID (index iface))
       = Some \<lparr>Name = ifInRateOID (index iface), Type = Gauge32,
               Value = GoUint32 (float_to_uint32 (inRateBps now iface))\<rparr>"
    "oidMap (publishRate now iface s) (ifOutRateOID (index iface))
       = Some \<lparr>Name = ifOutRateOID (index iface), Type = Gauge32,
               Value = GoUint32 (float_to_uint32 (outRateBps now iface))\<rparr>"
    "oidMap (publishRate now iface s) (ifInErrorsOID (index iface))
       = Some \<lparr>Name = ifInErrorsOID (index iface), Type = Counter32,
               Value = GoUint32 (ucast (inErrors iface))\<rparr>"
    "oidMap (publishRate now iface s) (ifOutDiscardsOID (index iface))
       = Some \<lparr>Name = ifOutDiscardsOID (index iface), Type = Counter32,
               Value = GoUint32 (ucast (outDiscards iface))\<rparr>"
  using assms by (simp_all add: publishRate_def rateActive_def vecSet_def oid_defs)

lemma publishRates_sets:
  assumes "distinct (map index ifs)" and "iface \<in> set ifs" and "rateActive now iface"
  shows "ifInRate (publishRates now ifs s) (labelsOf (index iface) (descr iface))
       = Some (inRateBps now iface)
    \<and> ifOutRate (publishRates now ifs s) (labelsOf (index iface) (descr iface))
       = Some (outRateBps now iface)
    \<and> oidMap (publishRates now ifs s) (ifInRateOID (index iface))
       = Some \<lparr>Name = ifInRateOID (index iface), Type = Gauge32,
               Value = GoUint32 (float_to_uint32 (inRateBps now iface))\<rparr>
    \<and> oidMap (publishRates now ifs s) (ifOutRateOID (index iface))
       = Some \<lparr>Name = ifOutRateOID (index iface), Type = Gauge32,
               Value = GoUint32 (float_to_uint32 (outRateBps now iface))\<rparr>
    \<and> oidMap (publishRates now ifs s) (ifInErrorsOID (index iface))
       = Some \<lparr>Name = ifInErrorsOID (index iface), Type = Counter32,
               Value = GoUint32 (ucast (inErrors iface))\<rparr>
    \<and> oidMap (publishRates now ifs s) (ifOutDiscardsOID (index iface))
       = Some \<lparr>Name = ifOutDiscardsOID (index iface), Type = Counter32,
               Value = GoUint32 (ucast (outDiscards iface))\<rparr>"
  using assms
proof (induction ifs arbitrary: s)
  case Nil
  then show ?case by simp
next
  case (Cons a rest)
  show ?case
  proof (cases "iface = a")
    case True
    have other: "\<forall>i \<in> set rest. index a \<noteq> index i" using Cons.prems(1) by auto
    have k: "\<forall>i \<in> set rest. rateActive now i \<longrightarrow> ifInRateOID (index a) \<notin> rateKeys i"
      "\<forall>i \<in> set rest. rateActive now i \<longrightarrow> ifOutRateOID (index a) \<notin> rateKeys i"
      "\<forall>i \<in> set rest. rateActive now i \<longrightarrow> ifInErrorsOID (index a) \<notin> rateKeys i"
      "\<forall>i \<in> set rest. rateActive now i \<longrightarrow> ifOutDiscardsOID (index a) \<notin> rateKeys i"
      using other rateKeys_other by blast+
    have l: "\<forall>i \<in> set rest. rateActive now i
        \<longrightarrow> labelsOf (index a) (descr a) \<noteq> labelsOf (index i) (descr i)"
      using other by (simp add: labelsOf_def sint_index_eq)
    have act: "rateActive now a" using True Cons.prems(3) by simp
    show ?thesis
      unfolding True publishRates.simps
      by (simp add: publishRates_oid_other[OF k(1)] publishRates_oid_other[OF k(2)]
          publishRates_oid_other[OF k(3)] publishRates_oid_other[OF k(4)]
          publishRates_rate_other[OF l] publishRate_sets[OF act])
  next
    case False
    then have "iface \<in> set rest" "distinct (map index rest)" using Cons.prems by auto
    from Cons.IH[OF this(2) this(1) Cons.prems(3)] show ?thesis by simp
  qed
qed

lemma monitor_oid_rate:
  assumes "k \<in> {ifInRateOID x, ifOutRateOID x, ifInErrorsOID x, ifOutDiscardsOID x}"
  shows "oidMap (monitorSystemMetricsTick e s) k
     = oidMap (publishRates (currentTime e) (interfaces s)
         (stepTemp (stepMemory e (stepCPU (updateAppMetrics e s))))) k"
proof -
  have a: "k \<notin> {simGoroutinesOID, simGcCountOID, simMemoryMBOID, simUptimeSecOID, simCpuOID,
          simMemoryUtilOID, simTemperatureOID, simArpOID, simMacOID, simTcpOID}"
    using assms by (auto simp: oid_defs)
  have b: "\<And>ps. \<forall>p \<in> set ps. k \<noteq> psuStatusOID (psu_index p)"
    using assms by (auto simp: oid_defs)
  have c: "\<And>fs. \<forall>f \<in> set fs. k \<noteq> fanStatusOID (fan_index f)"
    using assms by (auto simp: oid_defs)
  show ?thesis
    by (simp add: monitor_unfold Let_def updateScalarOids_other[OF a] rerollScalars_keeps
        updatePsus_keeps updateFans_keeps psuLoop_oid_other[OF b] fanLoop_oid_other[OF c])
qed

subsection \<open>The identity of the interfaces along a run\<close>

lemma step_static:
  assumes "step t s = Inr s'"
  shows "map index (interfaces s') = map index (interfaces s)"
    "map descr (interfaces s') = map descr (interfaces s)"
    "map operStatus (interfaces s') = map operStatus (interfaces s)"
proof -
  have "map index (interfaces s') = map index (interfaces s)
      \<and> map descr (interfaces s') = map descr (interfaces s)
      \<and> map operStatus (interfaces s') = map operStatus (interfaces s)"
  proof (cases t)
    case (Fast e)
    then show ?thesis using assms by (auto simp: monitor_interfaces)
  next
    case (Slow now)
    then have i: "interfaces s' = fst (bumpLoop 0 now (interfaces s) s)"
      using assms increment_interfaces by simp
    show ?thesis
      unfolding i
      by (intro conjI nth_equalityI) (simp_all add: bumpLoop_length bumpLoop_static)
  qed
  then show "map index (interfaces s') = map index (interfaces s)"
    "map descr (interfaces s') = map descr (interfaces s)"
    "map operStatus (interfaces s') = map operStatus (interfaces s)"
    by simp_all
qed

lemma run_static:
  "run s ts = Inr s' \<Longrightarrow>
     map index (interfaces s') = map index (interfaces s)
     \<and> map descr (interfaces s') = map descr (interfaces s)
     \<and> map operStatus (interfaces s') = map operStatus (interfaces s)"
proof (induction ts arbitrary: s)
  case Nil
  then show ?case by simp
next
  case (Cons t ts)
  then obtain s1 where s1: "step t s = Inr s1" and r: "run s1 ts = Inr s'"
    by (auto split: sum.splits)
  show ?case using Cons.IH[OF r] step_static[OF s1] by simp
qed

lemma init_static:
  "map index (interfaces (initState ie)) = [1, 2, 3, 4, 5]"
  "map operStatus (interfaces (initState ie)) = [1, 1, 2, 2, 1]"
  by (simp_all add: initState_def initInterfaces_def mkInterface_def)

lemma reachable_distinct:
  assumes "run (initState ie) ts = Inr s"
  shows "distinct (map index (interfaces s))"
proof -
  have "map index (interfaces s) = [1, 2, 3, 4, 5]"
    using run_static[OF assms] init_static(1) by simp
  then show ?thesis by simp
qed

subsection \<open>Interfaces that are not Up\<close>

lemma run_append:
  "run s ts = Inr s1 \<Longrightarrow> run s1 ts' = Inr s' \<Longrightarrow> run s (ts @ ts') = Inr s'"
  by (induction ts arbitrary: s) (auto split: sum.splits)

lemma static_pairs:
  assumes "map index (interfaces s') = map index (interfaces s)"
    and "map operStatus (interfaces s') = map operStatus (interfaces s)"
  shows "(\<lambda>a. (index a, operStatus a)) ` set (interfaces s')
     = (\<lambda>a. (index a, operStatus a)) ` set (interfaces s)"
proof -
  have "map (\<lambda>a. (index a, operStatus a)) (interfaces s')
      = zip (map index (interfaces s')) (map operStatus (interfaces s'))"
    by (simp add: zip_map_map zip_same_conv_map)
  also have "\<dots> = zip (map index (interfaces s)) (map operStatus (interfaces s))"
    using assms by simp
  also have "\<dots> = map (\<lambda>a. (index a, operStatus a)) (interfaces s)"
    by (simp add: zip_map_map zip_same_conv_map)
  finally have "set (map (\<lambda>a. (index a, operStatus a)) (interfaces s'))
      = set (map (\<lambda>a. (index a, operStatus a)) (interfaces s))"
    by simp
  then show ?thesis by simp
qed

lemma step_down_same:
  assumes "step t s = Inr s'" and "i < length (interfaces s)"
    and "operStatus (interfaces s ! i) \<noteq> 1"
  shows "interfaces s' ! i = interfaces s ! i"
proof (cases t)
  case (Fast e)
  then show ?thesis using assms(1) by (auto simp: monitor_interfaces)
next
  case (Slow now)
  then have "interfaces s' = fst (bumpLoop 0 now (interfaces s) s)"
    using assms(1) increment_interfaces by simp
  then show ?thesis using assms(2,3) by (simp add: bumpLoop_static)
qed

lemma run_down_same:
  "run s ts = Inr s' \<Longrightarrow> i < length (interfaces s) \<Longrightarrow> operStatus (interfaces s ! i) \<noteq> 1
     \<Longrightarrow> interfaces s' ! i = interfaces s ! i"
proof (induction ts arbitrary: s)
  case Nil
  then show ?case by simp
next
  case (Cons t ts)
  then obtain s1 where s1: "step t s = Inr s1" and r: "run s1 ts = Inr s'"
    by (auto split: sum.splits)
  have e: "interfaces s1 ! i = interfaces s ! i"
    by (rule step_down_same[OF s1 Cons.prems(2,3)])
  have "length (map index (interfaces s1)) = length (map index (interfaces s))"
    using step_static(1)[OF s1] by simp
  then have l: "i < length (interfaces s1)" using Cons.prems(2) by simp
  have "interfaces s' ! i = interfaces s1 ! i"
    using Cons.IH[OF r l] Cons.prems(3) e by simp
  then show ?case using e by simp
qed

lemma step_rate_untouched:
  assumes "step t s = Inr s'"
    and "(x, 1) \<notin> (\<lambda>a. (index a, operStatus a)) ` set (interfaces s)"
  shows "ifInRate s' (sint x, d) = ifInRate s (sint x, d)
    \<and> ifOutRate s' (sint x, d) = ifOutRate s (sint x, d)
    \<and> oidMap s' (ifInRateOID x) = oidMap s (ifInRateOID x)
    \<and> oidMap s' (ifOutRateOID x) = oidMap s (ifOutRateOID x)"
proof (cases t)
  case (Fast e)
  then have s': "s' = monitorSystemMetricsTick e s" using assms(1) by simp
  have up: "\<forall>iface \<in> set (interfaces s). rateActive (currentTime e) iface \<longrightarrow> x \<noteq> index iface"
    using assms(2) by (auto simp: rateActive_def)
  have l: "\<forall>iface \<in> set (interfaces s). rateActive (currentTime e) iface
      \<longrightarrow> (sint x, d) \<noteq> labelsOf (index iface) (descr iface)"
    using up by (simp add: labelsOf_def sint_index_eq)
  have k1: "\<forall>iface \<in> set (interfaces s). rateActive (currentTime e) iface
      \<longrightarrow> ifInRateOID x \<notin> rateKeys iface"
    and k2: "\<forall>iface \<in> set (interfaces s). rateActive (currentTime e) iface
      \<longrightarrow> ifOutRateOID x \<notin> rateKeys iface"
    using up rateKeys_other by blast+
  show ?thesis
    unfolding s'
    by (simp add: monitor_rates_eq publishRates_rate_other[OF l] head_keeps
        monitor_oid_rate[of _ x] publishRates_oid_other[OF k1] publishRates_oid_other[OF k2])
next
  case (Slow now)
  then have a: "incrementCountersTick now s = Inr s'" using assms(1) by simp
  obtain g ie od om where s': "s' = s\<lparr>rnd := g, simIfInErrorsTotal := ie,
           simIfOutDiscardsTotal := od,
           interfaces := fst (bumpLoop 0 now (interfaces s) s), oidMap := om\<rparr>"
    and om: "\<forall>k. k \<noteq> sysUpTimeOID \<longrightarrow> om k = oidMap s k"
    using incrementCountersTick_frame[OF a] by blast
  have "ifInRateOID x \<noteq> sysUpTimeOID" "ifOutRateOID x \<noteq> sysUpTimeOID"
    by (simp_all add: oid_defs)
  then show ?thesis using om by (simp add: s')
qed

lemma run_rate_untouched:
  "run s ts = Inr s' \<Longrightarrow> (x, 1) \<notin> (\<lambda>a. (index a, operStatus a)) ` set (interfaces s)
   \<Longrightarrow> ifInRate s' (sint x, d) = ifInRate s (sint x, d)
    \<and> ifOutRate s' (sint x, d) = ifOutRate s (sint x, d)
    \<and> oidMap s' (ifInRateOID x) = oidMap s (ifInRateOID x)
    \<and> oidMap s' (ifOutRateOID x) = oidMap s (ifOutRateOID x)"
proof (induction ts arbitrary: s)
  case Nil
  then show ?case by simp
next
  case (Cons t ts)
  then obtain s1 where s1: "step t s = Inr s1" and r: "run s1 ts = Inr s'"
    by (auto split: sum.splits)
  have "(\<lambda>a. (index a, operStatus a)) ` set (interfaces s1)
      = (\<lambda>a. (index a, operStatus a)) ` set (interfaces s)"
    by (rule static_pairs[OF step_static(1)[OF s1] step_static(3)[OF s1]])
  then have h: "(x, 1) \<notin> (\<lambda>a. (index a, operStatus a)) ` set (interfaces s1)"
    using Cons.prems(2) by simp
  show ?case
    using Cons.IH[OF r h] step_rate_untouched[OF s1 Cons.prems(2), of d] by simp
qed

lemma init_rates_empty:
  "ifInRate (initState ie) l = None" "ifOutRate (initState ie) l = None"
  "oidMap (initState ie) (ifInRateOID x) = None" "oidMap (initState ie) (ifOutRateOID x) = None"
  by (simp_all add: initState_def initOidList_def mkPDU_def oid_defs)

lemma distinct_down_index:
  assumes "distinct (map index ifs)" and "i < length ifs" and "operStatus (ifs ! i) \<noteq> 1"
  shows "(index (ifs ! i), 1) \<notin> (\<lambda>a. (index a, operStatus a)) ` set ifs"
proof
  assume "(index (ifs ! i), 1) \<in> (\<lambda>a. (index a, operStatus a)) ` set ifs"
  then obtain a where a: "a \<in> set ifs" "index a = index (ifs ! i)" "operStatus a = 1" by auto
  then obtain j where j: "j < length ifs" "ifs ! j = a" by (auto simp: in_set_conv_nth)
  have jl: "j < length (map index ifs)" "i < length (map index ifs)"
    using j(1) assms(2) by simp_all
  have eq: "map index ifs ! j = map index ifs ! i" using a(2) j assms(2) by simp
  have "j = i" using nth_eq_iff_index_eq[OF assms(1) jl] eq by blast
  then show False using a(3) j(2) assms(3) by simp
qed

subsection \<open>Counters that do not wrap\<close>

lemma word_le_add_of_nat:
  fixes x :: "'a::len word"
  assumes "unat x + d < 2 ^ LENGTH('a)"
  shows "x \<le> x + word_of_nat d"
proof -
  have "unat (word_of_nat d :: 'a word) \<le> d" by (simp add: unat_of_nat)
  then have "unat x + unat (word_of_nat d :: 'a word) < 2 ^ LENGTH('a)" using assms by simp
  then show ?thesis by (simp add: no_olen_add_nat)
qed

lemma unat_ucast_small:
  "unat (e :: uint64) < 4294967296 \<Longrightarrow> unat (ucast e :: uint32) = unat e"
  by (simp add: unsigned_ucast_eq take_bit_nat_eq_self)

lemma incrementTicks_val: "incrementTicks = 500"
proof -
  have "Seconds 5000000000 = 5" by code_simp
  moreover have "round64 500 = 500" by code_simp
  ultimately show ?thesis
    by (simp add: incrementTicks_def counterIncrementInterval_def float_to_uint32_def
        float_trunc_def)
qed

lemma addErrors_mono:
  "inOctets (fst (addErrors a t)) = inOctets a"
  "outOctets (fst (addErrors a t)) = outOctets a"
  "unat (inErrors a) + 3 < 2 ^ 64 \<Longrightarrow> inErrors a \<le> inErrors (fst (addErrors a t))"
  "unat (outDiscards a) + 2 < 2 ^ 64 \<Longrightarrow> outDiscards a \<le> outDiscards (fst (addErrors a t))"
proof -
  show "inOctets (fst (addErrors a t)) = inOctets a" "outOctets (fst (addErrors a t)) = outOctets a"
    by (simp_all add: addErrors_def Let_def split: prod.splits)
  have r4: "fst (Intn 3 (rnd t)) + 1 \<le> 3" using Intn_less[of 3 "rnd t"] by simp
  have r5: "fst (Intn 2 (snd (Intn 3 (rnd t)))) + 1 \<le> 2"
    using Intn_less[of 2 "snd (Intn 3 (rnd t))"] by simp
  have e: "inErrors (fst (addErrors a t)) = inErrors a + word_of_nat (fst (Intn 3 (rnd t)) + 1)"
    "outDiscards (fst (addErrors a t))
       = outDiscards a + word_of_nat (fst (Intn 2 (snd (Intn 3 (rnd t)))) + 1)"
    by (simp_all add: addErrors_def Let_def split: prod.splits)
  show "unat (inErrors a) + 3 < 2 ^ 64 \<Longrightarrow> inErrors a \<le> inErrors (fst (addErrors a t))"
    unfolding e using r4 by (intro word_le_add_of_nat) simp
  show "unat (outDiscards a) + 2 < 2 ^ 64 \<Longrightarrow> outDiscards a \<le> outDiscards (fst (addErrors a t))"
    unfolding e using r5 by (intro word_le_add_of_nat) simp
qed

lemma bumpInterface_mono:
  "unat (inOctets a) + (30000 + 1000 * k) \<le> 2 ^ 64
     \<Longrightarrow> inOctets a \<le> inOctets (fst (bumpInterface k now a t))"
  "unat (outOctets a) + (45000 + 2000 * k) \<le> 2 ^ 64
     \<Longrightarrow> outOctets a \<le> outOctets (fst (bumpInterface k now a t))"
  "unat (inErrors a) + 3 < 2 ^ 64 \<Longrightarrow> inErrors a \<le> inErrors (fst (bumpInterface k now a t))"
  "unat (outDiscards a) + 2 < 2 ^ 64
     \<Longrightarrow> outDiscards a \<le> outDiscards (fst (bumpInterface k now a t))"
proof -
  let ?r1 = "fst (Intn 20000 (rnd t))"
  let ?g1 = "snd (Intn 20000 (rnd t))"
  let ?r2 = "fst (Intn 30000 ?g1)"
  let ?g2 = "snd (Intn 30000 ?g1)"
  let ?r3 = "fst (Intn 100 ?g2)"
  let ?g3 = "snd (Intn 100 ?g2)"
  let ?a1 = "a\<lparr>lastInOctets := inOctets a, lastOutOctets := outOctets a, lastUpdateTime := now,
     inOctets := inOctets a + word_of_nat (?r1 + 10000 + k * 1000),
     outOctets := outOctets a + word_of_nat (?r2 + 15000 + k * 2000)\<rparr>"
  have b: "fst (bumpInterface k now a t) =
     (if operStatus a = 1
      then (if ?r3 < 2 then fst (addErrors ?a1 (t\<lparr>rnd := ?g3\<rparr>)) else ?a1)
      else a)"
    by (simp add: bumpInterface_def Let_def split: prod.splits)
  have r1: "?r1 < 20000" and r2: "?r2 < 30000" by (simp_all add: Intn_less)
  have i1: "inOctets a \<le> inOctets ?a1" if h: "unat (inOctets a) + (30000 + 1000 * k) \<le> 2 ^ 64"
  proof -
    have "unat (inOctets a) + (?r1 + 10000 + k * 1000) < 2 ^ LENGTH(64)" using h r1 by simp
    then have "inOctets a \<le> inOctets a + word_of_nat (?r1 + 10000 + k * 1000)"
      by (rule word_le_add_of_nat)
    then show ?thesis by simp
  qed
  have o1: "outOctets a \<le> outOctets ?a1" if h: "unat (outOctets a) + (45000 + 2000 * k) \<le> 2 ^ 64"
  proof -
    have "unat (outOctets a) + (?r2 + 15000 + k * 2000) < 2 ^ LENGTH(64)" using h r2 by simp
    then have "outOctets a \<le> outOctets a + word_of_nat (?r2 + 15000 + k * 2000)"
      by (rule word_le_add_of_nat)
    then show ?thesis by simp
  qed
  show "unat (inOctets a) + (30000 + 1000 * k) \<le> 2 ^ 64
     \<Longrightarrow> inOctets a \<le> inOctets (fst (bumpInterface k now a t))"
    using i1 by (simp add: b addErrors_mono(1))
  show "unat (outOctets a) + (45000 + 2000 * k) \<le> 2 ^ 64
     \<Longrightarrow> outOctets a \<le> outOctets (fst (bumpInterface k now a t))"
    using o1 by (simp add: b addErrors_mono(2))
  show "unat (inErrors a) + 3 < 2 ^ 64 \<Longrightarrow> inErrors a \<le> inErrors (fst (bumpInterface k now a t))"
    using addErrors_mono(3)[of ?a1 "t\<lparr>rnd := ?g3\<rparr>"] by (simp add: b)
  show "unat (outDiscards a) + 2 < 2 ^ 64
     \<Longrightarrow> outDiscards a \<le> outDiscards (fst (bumpInterface k now a t))"
    using addErrors_mono(4)[of ?a1 "t\<lparr>rnd := ?g3\<rparr>"] by (simp add: b)
qed

lemma step_interface_mono:
  assumes "step t s = Inr s'" and "i < length (interfaces s)"
  shows "unat (inOctets (interfaces s ! i)) + (30000 + 1000 * i) \<le> 2 ^ 64
       \<Longrightarrow> inOctets (interfaces s ! i) \<le> inOctets (interfaces s' ! i)"
    "unat (outOctets (interfaces s ! i)) + (45000 + 2000 * i) \<le> 2 ^ 64
       \<Longrightarrow> outOctets (interfaces s ! i) \<le> outOctets (interfaces s' ! i)"
    "unat (inErrors (interfaces s ! i)) + 3 < 2 ^ 64
       \<Longrightarrow> inErrors (interfaces s ! i) \<le> inErrors (interfaces s' ! i)"
    "unat (outDiscards (interfaces s ! i)) + 2 < 2 ^ 64
       \<Longrightarrow> outDiscards (interfaces s ! i) \<le> outDiscards (interfaces s' ! i)"
proof -
  have c: "interfaces s' ! i = interfaces s ! i
      \<or> (\<exists>now w. interfaces s' ! i = fst (bumpInterface i now (interfaces s ! i) w))"
  proof (cases t)
    case (Fast e)
    then show ?thesis using assms(1) by (auto simp: monitor_interfaces)
  next
    case (Slow now)
    then have "interfaces s' = fst (bumpLoop 0 now (interfaces s) s)"
      using assms(1) increment_interfaces by simp
    then show ?thesis using bumpLoop_nth[OF assms(2), of 0 now s] by auto
  qed
  show "unat (inOctets (interfaces s ! i)) + (30000 + 1000 * i) \<le> 2 ^ 64
       \<Longrightarrow> inOctets (interfaces s ! i) \<le> inOctets (interfaces s' ! i)"
    using c bumpInterface_mono(1)[of "interfaces s ! i" i] by auto
  show "unat (outOctets (interfaces s ! i)) + (45000 + 2000 * i) \<le> 2 ^ 64
       \<Longrightarrow> outOctets (interfaces s ! i) \<le> outOctets (interfaces s' ! i)"
    using c bumpInterface_mono(2)[of "interfaces s ! i" i] by auto
  show "unat (inErrors (interfaces s ! i)) + 3 < 2 ^ 64
       \<Longrightarrow> inErrors (interfaces s ! i) \<le> inErrors (interfaces s' ! i)"
    using c bumpInterface_mono(3)[of "interfaces s ! i"] by auto
  show "unat (outDiscards (interfaces s ! i)) + 2 < 2 ^ 64
       \<Longrightarrow> outDiscards (interfaces s ! i) \<le> outDiscards (interfaces s' ! i)"
    using c bumpInterface_mono(4)[of "interfaces s ! i"] by auto
qed

subsection \<open>The system uptime and the GC count\<close>

lemma increment_sysUpTime:
  assumes "oidMap s sysUpTimeOID = Some p" and "Value p = GoUint32 v"
  shows "\<exists>s'. incrementCountersTick now s = Inr s'
     \<and> oidMap s' sysUpTimeOID
         = Some \<lparr>Name = Name p, Type = Type p, Value = GoUint32 (v + incrementTicks)\<rparr>"
proof -
  have "oidMap (updateInterfaceCounters now s) sysUpTimeOID = Some p"
    using assms(1) by (simp add: updateInterfaceCounters_oidMap)
  then show ?thesis
    using assms(2) by (simp add: incrementCountersTick_def updateSysUpTime_def)
qed

lemma step_sysUpTime:
  assumes "step t s = Inr s'" and "oidMap s sysUpTimeOID = Some p" and "Value p = GoUint32 v"
    and "unat v + 500 < 2 ^ 32"
  shows "\<exists>p' v'. oidMap s' sysUpTimeOID = Some p' \<and> Value p' = GoUint32 v' \<and> v \<le> v'"
proof (cases t)
  case (Fast e)
  then have "oidMap s' sysUpTimeOID = Some p"
    using assms(1,2) by (auto simp: monitor_sysUpTime)
  then show ?thesis using assms(3) by simp
next
  case (Slow now)
  obtain s1 where s1: "incrementCountersTick now s = Inr s1"
    and e: "oidMap s1 sysUpTimeOID
         = Some \<lparr>Name = Name p, Type = Type p, Value = GoUint32 (v + incrementTicks)\<rparr>"
    using increment_sysUpTime[OF assms(2,3)] by blast
  have "s' = s1" using Slow assms(1) s1 by simp
  moreover have "unat v + 500 < 2 ^ LENGTH(32)" using assms(4) by simp
  then have "v \<le> v + word_of_nat 500" by (rule word_le_add_of_nat)
  then have "v \<le> v + incrementTicks" by (simp add: incrementTicks_val)
  ultimately show ?thesis using e by simp
qed

lemma slow_run_sysUpTime:
  "oidMap s sysUpTimeOID = Some p \<Longrightarrow> Value p = GoUint32 v \<Longrightarrow>
     \<exists>s'. run s (replicate n (Slow now)) = Inr s'
       \<and> oidMap s' sysUpTimeOID
           = Some \<lparr>Name = Name p, Type = Type p, Value = GoUint32 (v + of_nat n * incrementTicks)\<rparr>"
proof (induction n arbitrary: s p v)
  case 0
  then show ?case by simp
next
  case (Suc n)
  obtain s1 where s1: "incrementCountersTick now s = Inr s1"
    and e: "oidMap s1 sysUpTimeOID
         = Some \<lparr>Name = Name p, Type = Type p, Value = GoUint32 (v + incrementTicks)\<rparr>"
    using increment_sysUpTime[OF Suc.prems] by blast
  obtain s' where r: "run s1 (replicate n (Slow now)) = Inr s'"
    and e': "oidMap s' sysUpTimeOID
       = Some \<lparr>Name = Name p, Type = Type p,
               Value = GoUint32 (v + incrementTicks + of_nat n * incrementTicks)\<rparr>"
    using Suc.IH[OF e, of "v + incrementTicks"] by auto
  have "run s (replicate (Suc n) (Slow now)) = Inr s'" using s1 r by simp
  moreover have "v + incrementTicks + of_nat n * incrementTicks
      = v + of_nat (Suc n) * incrementTicks"
    by (simp add: algebra_simps)
  ultimately show ?case using e' by metis
qed

lemma step_gcCount:
  assumes "step t s = Inr s'"
  shows "gcCount s \<le> gcCount s'"
proof (cases t)
  case (Fast e)
  have "gcCount (monitorSystemMetricsTick e s) = gcCount (updateAppMetrics e s)"
    by (simp add: monitorSystemMetricsTick_def Let_def tail_keeps stepTemp_def stepMemory_def
        stepCPU_def split: prod.splits)
  moreover have "gcCount s \<le> gcCount (updateAppMetrics e s)"
  proof -
    have "0 \<le> real (unat (memNumGC e - lastGCCount s))" by (rule of_nat_0_le_iff)
    then show ?thesis by (simp add: updateAppMetrics_def Let_def)
  qed
  ultimately show ?thesis using Fast assms by auto
next
  case (Slow now)
  then have a: "incrementCountersTick now s = Inr s'" using assms by simp
  obtain g ie od om where "s' = s\<lparr>rnd := g, simIfInErrorsTotal := ie,
           simIfOutDiscardsTotal := od,
           interfaces := fst (bumpLoop 0 now (interfaces s) s), oidMap := om\<rparr>"
    using incrementCountersTick_frame[OF a] by blast
  then show ?thesis by simp
qed

subsection \<open>The published error and discard counters\<close>

lemma distinct_index_other:
  assumes "distinct (map index ifs)" and "a \<in> set ifs" and "b \<in> set ifs" and "a \<noteq> b"
  shows "index a \<noteq> index b"
  using assms by (auto simp: distinct_map inj_on_def)

lemma monitor_counter_entry:
  assumes "distinct (map index (interfaces s))" and "a \<in> set (interfaces s)"
  shows "oidMap (monitorSystemMetricsTick e s) (ifInErrorsOID (index a))
       = (if rateActive (currentTime e) a
          then Some \<lparr>Name = ifInErrorsOID (index a), Type = Counter32,
                     Value = GoUint32 (ucast (inErrors a))\<rparr>
          else oidMap s (ifInErrorsOID (index a)))"
    "oidMap (monitorSystemMetricsTick e s) (ifOutDiscardsOID (index a))
       = (if rateActive (currentTime e) a
          then Some \<lparr>Name = ifOutDiscardsOID (index a), Type = Counter32,
                     Value = GoUint32 (ucast (outDiscards a))\<rparr>
          else oidMap s (ifOutDiscardsOID (index a)))"
proof -
  let ?s4 = "stepTemp (stepMemory e (stepCPU (updateAppMetrics e s)))"
  have "oidMap (monitorSystemMetricsTick e s) (ifInErrorsOID (index a))
       = (if rateActive (currentTime e) a
          then Some \<lparr>Name = ifInErrorsOID (index a), Type = Counter32,
                     Value = GoUint32 (ucast (inErrors a))\<rparr>
          else oidMap s (ifInErrorsOID (index a)))
    \<and> oidMap (monitorSystemMetricsTick e s) (ifOutDiscardsOID (index a))
       = (if rateActive (currentTime e) a
          then Some \<lparr>Name = ifOutDiscardsOID (index a), Type = Counter32,
                     Value = GoUint32 (ucast (outDiscards a))\<rparr>
          else oidMap s (ifOutDiscardsOID (index a)))"
  proof (cases "rateActive (currentTime e) a")
    case True
    note p = publishRates_sets[OF assms True, of ?s4]
    show ?thesis using p True by (simp add: monitor_oid_rate[of _ "index a"])
  next
    case False
    have o: "\<forall>b \<in> set (interfaces s). rateActive (currentTime e) b \<longrightarrow> index a \<noteq> index b"
      using distinct_index_other[OF assms(1,2)] False by blast
    have k1: "\<forall>b \<in> set (interfaces s). rateActive (currentTime e) b
        \<longrightarrow> ifInErrorsOID (index a) \<notin> rateKeys b"
      and k2: "\<forall>b \<in> set (interfaces s). rateActive (currentTime e) b
        \<longrightarrow> ifOutDiscardsOID (index a) \<notin> rateKeys b"
      using o rateKeys_other by blast+
    show ?thesis
      using False
      by (simp add: monitor_oid_rate[of _ "index a"] publishRates_oid_other[OF k1]
          publishRates_oid_other[OF k2] head_keeps)
  qed
  then show "oidMap (monitorSystemMetricsTick e s) (ifInErrorsOID (index a))
       = (if rateActive (currentTime e) a
          then Some \<lparr>Name = ifInErrorsOID (index a), Type = Counter32,
                     Value = GoUint32 (ucast (inErrors a))\<rparr>
          else oidMap s (ifInErrorsOID (index a)))"
    "oidMap (monitorSystemMetricsTick e s) (ifOutDiscardsOID (index a))
       = (if rateActive (currentTime e) a
          then Some \<lparr>Name = ifOutDiscardsOID (index a), Type = Counter32,
                     Value = GoUint32 (ucast (outDiscards a))\<rparr>
          else oidMap s (ifOutDiscardsOID (index a)))"
    by simp_all
qed

lemma increment_counter_entry:
  assumes "incrementCountersTick now s = Inr s'"
  shows "oidMap s' (ifInErrorsOID x) = oidMap s (ifInErrorsOID x)"
    "oidMap s' (ifOutDiscardsOID x) = oidMap s (ifOutDiscardsOID x)"
proof -
  obtain g ie od om where s': "s' = s\<lparr>rnd := g, simIfInErrorsTotal := ie,
           simIfOutDiscardsTotal := od,
           interfaces := fst (bumpLoop 0 now (interfaces s) s), oidMap := om\<rparr>"
    and om: "\<forall>k. k \<noteq> sysUpTimeOID \<longrightarrow> om k = oidMap s k"
    using incrementCountersTick_frame[OF assms] by blast
  have "ifInErrorsOID x \<noteq> sysUpTimeOID" "ifOutDiscardsOID x \<noteq> sysUpTimeOID"
    by (simp_all add: oid_defs)
  then show "oidMap s' (ifInErrorsOID x) = oidMap s (ifInErrorsOID x)"
    "oidMap s' (ifOutDiscardsOID x) = oidMap s (ifOutDiscardsOID x)"
    using om by (simp_all add: s')
qed

lemma step_inErrors_entry:
  assumes "step t s = Inr s'" and "i < length (interfaces s)"
    and "distinct (map index (interfaces s))"
    and "oidMap s (ifInErrorsOID (index (interfaces s ! i))) = Some p"
    and "Value p = GoUint32 v"
    and "unat v \<le> unat (inErrors (interfaces s ! i))"
    and "unat (inErrors (interfaces s ! i)) + 3 < 2 ^ 32"
  shows "\<exists>p' v'. oidMap s' (ifInErrorsOID (index (interfaces s ! i))) = Some p'
     \<and> Value p' = GoUint32 v' \<and> v \<le> v' \<and> unat v' \<le> unat (inErrors (interfaces s' ! i))"
proof (cases t)
  case (Fast e)
  let ?a = "interfaces s ! i"
  have s': "s' = monitorSystemMetricsTick e s" using Fast assms(1) by simp
  have m: "?a \<in> set (interfaces s)" using assms(2) by simp
  have u: "unat (ucast (inErrors ?a) :: uint32) = unat (inErrors ?a)"
    using assms(7) by (intro unat_ucast_small) simp
  show ?thesis
  proof (cases "rateActive (currentTime e) ?a")
    case True
    have "v \<le> ucast (inErrors ?a)" using assms(6) u by (simp add: word_le_nat_alt)
    then show ?thesis
      using True u by (simp add: s' monitor_counter_entry(1)[OF assms(3) m] monitor_interfaces)
  next
    case False
    then show ?thesis
      using assms(4,5,6)
      by (simp add: s' monitor_counter_entry(1)[OF assms(3) m] monitor_interfaces)
  qed
next
  case (Slow now)
  then have a: "incrementCountersTick now s = Inr s'" using assms(1) by simp
  have "unat (inErrors (interfaces s ! i)) + 3 < 2 ^ 64" using assms(7) by simp
  then have "inErrors (interfaces s ! i) \<le> inErrors (interfaces s' ! i)"
    by (rule step_interface_mono(3)[OF assms(1,2)])
  then have "unat v \<le> unat (inErrors (interfaces s' ! i))"
    using assms(6) by (simp add: word_le_nat_alt)
  then show ?thesis
    using assms(4,5) by (simp add: increment_counter_entry(1)[OF a])
qed

lemma step_outDiscards_entry:
  assumes "step t s = Inr s'" and "i < length (interfaces s)"
    and "distinct (map index (interfaces s))"
    and "oidMap s (ifOutDiscardsOID (index (interfaces s ! i))) = Some p"
    and "Value p = GoUint32 v"
    and "unat v \<le> unat (outDiscards (interfaces s ! i))"
    and "unat (outDiscards (interfaces s ! i)) + 2 < 2 ^ 32"
  shows "\<exists>p' v'. oidMap s' (ifOutDiscardsOID (index (interfaces s ! i))) = Some p'
     \<and> Value p' = GoUint32 v' \<and> v \<le> v' \<and> unat v' \<le> unat (outDiscards (interfaces s' ! i))"
proof (cases t)
  case (Fast e)
  let ?a = "interfaces s ! i"
  have s': "s' = monitorSystemMetricsTick e s" using Fast assms(1) by simp
  have m: "?a \<in> set (interfaces s)" using assms(2) by simp
  have u: "unat (ucast (outDiscards ?a) :: uint32) = unat (outDiscards ?a)"
    using assms(7) by (intro unat_ucast_small) simp
  show ?thesis
  proof (cases "rateActive (currentTime e) ?a")
    case True
    have "v \<le> ucast (outDiscards ?a)" using assms(6) u by (simp add: word_le_nat_alt)
    then show ?thesis
      using True u by (simp add: s' monitor_counter_entry(2)[OF assms(3) m] monitor_interfaces)
  next
    case False
    then show ?thesis
      using assms(4,5,6)
      by (simp add: s' monitor_counter_entry(2)[OF assms(3) m] monitor_interfaces)
  qed
next
  case (Slow now)
  then have a: "incrementCountersTick now s = Inr s'" using assms(1) by simp
  have "unat (outDiscards (interfaces s ! i)) + 2 < 2 ^ 64" using assms(7) by simp
  then have "outDiscards (interfaces s ! i) \<le> outDiscards (interfaces s' ! i)"
    by (rule step_interface_mono(4)[OF assms(1,2)])
  then have "unat v \<le> unat (outDiscards (interfaces s' ! i))"
    using assms(6) by (simp add: word_le_nat_alt)
  then show ?thesis
    using assms(4,5) by (simp add: increment_counter_entry(2)[OF a])
qed

subsection \<open>The generator that always yields 0\<close>

lemma Intn_zero: "Intn n (\<lambda>k. 0) = (0, \<lambda>k. 0)"
  by (simp add: Intn_def)

lemma fanLoop_zero: "rnd s = (\<lambda>k. 0) \<Longrightarrow> rnd (snd (fanLoop fs s)) = (\<lambda>k. 0)"
proof (induction fs arbitrary: s)
  case Nil
  then show ?case by simp
next
  case (Cons f fs)
  have "rnd (snd (fanStep f s)) = (\<lambda>k. 0)"
    using Cons.prems by (simp add: fanStep_def Intn_zero split: prod.splits)
  then show ?case using Cons.IH by (simp add: fanLoop_snd_Cons del: fanLoop.simps(2))
qed

lemma head_zero:
  "rnd s = (\<lambda>k. 0) \<Longrightarrow> rnd (stepTemp (stepMemory e (stepCPU (updateAppMetrics e s)))) = (\<lambda>k. 0)"
  by (simp add: stepTemp_def stepMemory_def stepCPU_def updateAppMetrics_keeps Intn_zero Let_def)

lemma publishRates_rnd: "rnd (publishRates now ifs s) = rnd s"
proof -
  obtain a b om where "publishRates now ifs s = s\<lparr>ifInRate := a, ifOutRate := b, oidMap := om\<rparr>"
    using publishRates_frame by blast
  then show ?thesis by simp
qed

lemma updateFans_rnd: "rnd (updateFans s) = rnd (snd (fanLoop (fans s) s))"
  by (simp add: updateFans_def split: prod.splits)

lemma psuStep_zero:
  assumes "rnd s = (\<lambda>k. 0)" and "psu_descr p \<noteq> ''PSU2_SLOT1''" and "psu_status p = 1"
  shows "psu_status (fst (psuStep p s)) = 2"
  using assms by (simp add: psuStep_def flipPsu_def Intn_zero)

lemma monitor_psu_flips:
  assumes "rnd s = (\<lambda>k. 0)" and "psus s = p # ps"
    and "psu_descr p \<noteq> ''PSU2_SLOT1''" and "psu_status p = 1"
  shows "psu_status (psus (monitorSystemMetricsTick e s) ! 0) = 2"
proof -
  let ?s6 = "updateFans (publishRates (currentTime e) (interfaces s)
         (stepTemp (stepMemory e (stepCPU (updateAppMetrics e s)))))"
  have "rnd ?s6 = (\<lambda>k. 0)"
    using assms(1) by (simp add: updateFans_rnd fanLoop_zero publishRates_rnd head_zero)
  then have "psu_status (fst (psuStep p ?s6)) = 2"
    using assms(3,4) by (rule psuStep_zero)
  then show ?thesis
    by (simp add: monitor_psus assms(2) psuLoop_fst_Cons del: psuLoop.simps(2))
qed

lemma flipBoot_init:
  "rnd (initState flipBoot) = (\<lambda>k. 0)"
  "psus (initState flipBoot) = initPsus"
  by (simp_all add: initState_def flipBoot_def Intn_zero)

lemma fanStep_zero:
  assumes "rnd s = (\<lambda>k. 0)" and "fan_status f = 1"
  shows "fan_status (fst (fanStep f s)) = 2"
  using assms by (simp add: fanStep_def flipFan_def Intn_zero)

lemma monitor_fan_flips:
  assumes "rnd s = (\<lambda>k. 0)" and "fans s = f # fs" and "fan_status f = 1"
  shows "fan_status (fans (monitorSystemMetricsTick e s) ! 0) = 2"
proof -
  let ?s5 = "publishRates (currentTime e) (interfaces s)
         (stepTemp (stepMemory e (stepCPU (updateAppMetrics e s))))"
  have "rnd ?s5 = (\<lambda>k. 0)"
    using assms(1) by (simp add: publishRates_rnd head_zero)
  then have "fan_status (fst (fanStep f ?s5)) = 2"
    using assms(3) by (rule fanStep_zero)
  then show ?thesis
    by (simp add: monitor_fans assms(2) fanLoop_fst_Cons del: fanLoop.simps(2))
qed

lemma flipBoot_fans: "fans (initState flipBoot) = initFans"
  by (simp add: initState_def)

subsection \<open>The published rates in float64\<close>

lemma monitor_publishes:
  assumes "distinct (map index (interfaces s))" and "iface \<in> set (interfaces s)"
    and "rateActive (currentTime e) iface"
  shows "ifInRate (monitorSystemMetricsTick e s) (labelsOf (index iface) (descr iface))
       = Some (inRateBps (currentTime e) iface)"
    and "ifOutRate (monitorSystemMetricsTick e s) (labelsOf (index iface) (descr iface))
       = Some (outRateBps (currentTime e) iface)"
    and "oidMap (monitorSystemMetricsTick e s) (ifInRateOID (index iface))
       = Some \<lparr>Name = ifInRateOID (index iface), Type = Gauge32,
               Value = GoUint32 (float_to_uint32 (inRateBps (currentTime e) iface))\<rparr>"
    and "oidMap (monitorSystemMetricsTick e s) (ifOutRateOID (index iface))
       = Some \<lparr>Name = ifOutRateOID (index iface), Type = Gauge32,
               Value = GoUint32 (float_to_uint32 (outRateBps (currentTime e) iface))\<rparr>"
proof -
  note p = publishRates_sets[OF assms,
      of "stepTemp (stepMemory e (stepCPU (updateAppMetrics e s)))"]
  show "ifInRate (monitorSystemMetricsTick e s) (labelsOf (index iface) (descr iface))
       = Some (inRateBps (currentTime e) iface)"
    using p by (simp add: monitor_rates_eq)
  show "ifOutRate (monitorSystemMetricsTick e s) (labelsOf (index iface) (descr iface))
       = Some (outRateBps (currentTime e) iface)"
    using p by (simp add: monitor_rates_eq)
  show "oidMap (monitorSystemMetricsTick e s) (ifInRateOID (index iface))
       = Some \<lparr>Name = ifInRateOID (index iface), Type = Gauge32,
               Value = GoUint32 (float_to_uint32 (inRateBps (currentTime e) iface))\<rparr>"
    using p by (simp add: monitor_oid_rate[of _ "index iface"])
  show "oidMap (monitorSystemMetricsTick e s) (ifOutRateOID (index iface))
       = Some \<lparr>Name = ifOutRateOID (index iface), Type = Gauge32,
               Value = GoUint32 (float_to_uint32 (outRateBps (currentTime e) iface))\<rparr>"
    using p by (simp add: monitor_oid_rate[of _ "index iface"])
qed

lemma float_to_uint32_floor:
  assumes "0 \<le> x" and "x < 4294967296"
  shows "unat (float_to_uint32 x) = nat \<lfloor>x\<rfloor>"
proof -
  have f0: "0 \<le> \<lfloor>x\<rfloor>" using assms(1) by simp
  have f1: "\<lfloor>x\<rfloor> < 4294967296" using assms(2) by (simp add: floor_less_iff)
  have "unat (word_of_int \<lfloor>x\<rfloor> :: uint32) = nat \<lfloor>x\<rfloor>"
    using f0 f1 by (simp add: unat_eq_nat_uint word_of_int_inverse uint_word_of_int)
  then show ?thesis using assms(1) f0 f1 by (simp add: float_to_uint32_def float_trunc_def)
qed

lemma rate_nonneg:
  assumes "lastUpdateTime iface < now"
  shows "0 \<le> inRateBps now iface" and "0 \<le> outRateBps now iface"
proof -
  have d: "0 < Seconds (now - lastUpdateTime iface)" using assms by (simp add: Seconds_pos)
  have "0 \<le> round64 (real (unat (inOctets iface - lastInOctets iface)))"
    by (rule round64_nonneg) (rule of_nat_0_le_iff)
  then have "0 \<le> round64 (real (unat (inOctets iface - lastInOctets iface)))
      / Seconds (now - lastUpdateTime iface)"
    using d by (rule divide_nonneg_pos)
  then show "0 \<le> inRateBps now iface"
    unfolding inRateBps_def by (rule round64_nonneg)
  have "0 \<le> round64 (real (unat (outOctets iface - lastOutOctets iface)))"
    by (rule round64_nonneg) (rule of_nat_0_le_iff)
  then have "0 \<le> round64 (real (unat (outOctets iface - lastOutOctets iface)))
      / Seconds (now - lastUpdateTime iface)"
    using d by (rule divide_nonneg_pos)
  then show "0 \<le> outRateBps now iface"
    unfolding outRateBps_def by (rule round64_nonneg)
qed

lemma rate_near_quotient:
  assumes "lastUpdateTime iface < now"
  shows "\<bar>inRateBps now iface
           - real (unat (inOctets iface - lastInOctets iface))
             / (real_of_int (now - lastUpdateTime iface) / 1000000000)\<bar>
       \<le> real (unat (inOctets iface - lastInOctets iface))
           / (real_of_int (now - lastUpdateTime iface) / 1000000000) / 2 ^ 50"
    and "\<bar>outRateBps now iface
           - real (unat (outOctets iface - lastOutOctets iface))
             / (real_of_int (now - lastUpdateTime iface) / 1000000000)\<bar>
       \<le> real (unat (outOctets iface - lastOutOctets iface))
           / (real_of_int (now - lastUpdateTime iface) / 1000000000) / 2 ^ 50"
proof -
  have d: "0 < now - lastUpdateTime iface" using assms by simp
  have i: "0 \<le> real (unat (inOctets iface - lastInOctets iface))" by (rule of_nat_0_le_iff)
  have o: "0 \<le> real (unat (outOctets iface - lastOutOctets iface))" by (rule of_nat_0_le_iff)
  show "\<bar>inRateBps now iface
           - real (unat (inOctets iface - lastInOctets iface))
             / (real_of_int (now - lastUpdateTime iface) / 1000000000)\<bar>
       \<le> real (unat (inOctets iface - lastInOctets iface))
           / (real_of_int (now - lastUpdateTime iface) / 1000000000) / 2 ^ 50"
    unfolding inRateBps_def by (rule float_quotient_near[OF i d])
  show "\<bar>outRateBps now iface
           - real (unat (outOctets iface - lastOutOctets iface))
             / (real_of_int (now - lastUpdateTime iface) / 1000000000)\<bar>
       \<le> real (unat (outOctets iface - lastOutOctets iface))
           / (real_of_int (now - lastUpdateTime iface) / 1000000000) / 2 ^ 50"
    unfolding outRateBps_def by (rule float_quotient_near[OF o d])
qed

subsection \<open>The generator that always yields the same number\<close>

lemma Intn_const: "Intn n (\<lambda>k. c) = (c mod n, \<lambda>k. c)"
  by (simp add: Intn_def)

lemma slow_head_interface:
  assumes "incrementCountersTick now s = Inr s'" and "interfaces s = a # rest"
  shows "interfaces s' ! 0 = fst (bumpInterface 0 now a s)"
    and "0 < length (interfaces s')"
  using increment_interfaces[OF assms(1)] assms(2)
  by (simp_all add: bumpLoop_fst_Cons del: bumpLoop.simps(2))

lemma slowBoot_rnd: "rnd (initState slowBoot) = (\<lambda>k. 720)"
  by (simp add: initState_def slowBoot_def Intn_const)

subsection \<open>The GC count of the OID map and the exact step of the uptime\<close>

lemma updateScalarOids_gc:
  assumes "oidMap s simGcCountOID = Some p" and "Type p = Counter32"
  shows "oidMap (updateScalarOids e g s) simGcCountOID
     = Some (p\<lparr>Value := GoUint32 (memNumGC e)\<rparr>)"
proof -
  define s1 where "s1 = putOid simGoroutinesOID (GoUint32 (word_of_int (numGoroutineOid e))) s"
  define s2 where "s2 = putOid simGcCountOID (GoUint32 (memNumGC e)) s1"
  have 1: "oidMap s1 simGcCountOID = Some p"
    unfolding s1_def using assms(1) by (simp add: putOid_other oid_defs)
  have 2: "oidMap s2 simGcCountOID = Some (p\<lparr>Value := GoUint32 (memNumGC e)\<rparr>)"
    unfolding s2_def using 1 assms(2) by (simp add: oidMap_putOid updateOidValue_def)
  have "updateScalarOids e g s =
      putOid simTcpOID (GoUint32 (tcpConnectionsVal g))
        (putOid simMacOID (GoUint32 (macEntriesVal g))
          (putOid simArpOID (GoUint32 (arpEntriesVal g))
            (putOid simTemperatureOID (GoInt32 (float_to_int32 (simulatedDeviceTemp s)))
              (putOid simMemoryUtilOID (GoUint32 (float_to_uint32 (currentDeviceMemoryUtil e)))
                (putOid simCpuOID (GoUint32 (float_to_uint32 (simulatedDeviceCPU s)))
                  (putOid simUptimeSecOID (GoUint32 (currentSimUptimeTicks e))
                    (putOid simMemoryMBOID (GoUint32 (ucast (memAlloc e div 1024 div 1024)))
                      s2)))))))"
    by (simp add: updateScalarOids_def Let_def s2_def s1_def)
  then show ?thesis using 2 by (simp add: putOid_other oid_defs)
qed

lemma monitor_gc_oid:
  assumes "oidMap s simGcCountOID = Some p" and "Type p = Counter32"
  shows "oidMap (monitorSystemMetricsTick e s) simGcCountOID
     = Some (p\<lparr>Value := GoUint32 (memNumGC e)\<rparr>)"
proof -
  define s7 where "s7 = updatePsus (updateFans (publishRates (currentTime e) (interfaces s)
      (stepTemp (stepMemory e (stepCPU (updateAppMetrics e s))))))"
  have m: "monitorSystemMetricsTick e s = updateScalarOids e (rnd s7) (rerollScalars s7)"
    by (simp add: monitor_unfold Let_def s7_def)
  have "oidMap (rerollScalars s7) simGcCountOID = oidMap s simGcCountOID"
    unfolding s7_def
    by (simp add: rerollScalars_keeps updatePsus_keeps updateFans_keeps publishRates_keeps
        psuLoop_oid_other fanLoop_oid_other publishRates_oid_other head_keeps rateKeys_def oid_defs)
  then have a: "oidMap (rerollScalars s7) simGcCountOID = Some p" using assms(1) by simp
  show ?thesis unfolding m by (rule updateScalarOids_gc[OF a assms(2)])
qed

lemma step_gc_entry:
  assumes "step t s = Inr s'" and "oidMap s simGcCountOID = Some p" and "Type p = Counter32"
    and "Value p = GoUint32 v" and "\<forall>e. t = Fast e \<longrightarrow> v \<le> memNumGC e"
  shows "\<exists>p' v'. oidMap s' simGcCountOID = Some p' \<and> Type p' = Counter32
       \<and> Value p' = GoUint32 v' \<and> v \<le> v' \<and> (\<forall>e. t = Fast e \<longrightarrow> v' = memNumGC e)"
proof (cases t)
  case (Fast e)
  then have "s' = monitorSystemMetricsTick e s" using assms(1) by simp
  then have "oidMap s' simGcCountOID = Some (p\<lparr>Value := GoUint32 (memNumGC e)\<rparr>)"
    by (simp add: monitor_gc_oid[OF assms(2,3)])
  moreover have "v \<le> memNumGC e" using assms(5) Fast by simp
  ultimately show ?thesis using assms(3) Fast by simp
next
  case (Slow now)
  then have a: "incrementCountersTick now s = Inr s'" using assms(1) by simp
  obtain g ie od om where s': "s' = s\<lparr>rnd := g, simIfInErrorsTotal := ie,
           simIfOutDiscardsTotal := od,
           interfaces := fst (bumpLoop 0 now (interfaces s) s), oidMap := om\<rparr>"
    and om: "\<forall>k. k \<noteq> sysUpTimeOID \<longrightarrow> om k = oidMap s k"
    using incrementCountersTick_frame[OF a] by blast
  have "simGcCountOID \<noteq> sysUpTimeOID" by (simp add: oid_defs)
  then have "oidMap s' simGcCountOID = Some p" using om assms(2) by (simp add: s')
  then show ?thesis using assms(3,4) Slow by simp
qed

lemma step_sysUpTime_exact:
  assumes "step t s = Inr s'" and "oidMap s sysUpTimeOID = Some p" and "Value p = GoUint32 v"
  shows "\<exists>p' v'. oidMap s' sysUpTimeOID = Some p' \<and> Value p' = GoUint32 v'
       \<and> unat v' = (if isFast t then unat v else (unat v + 500) mod 2 ^ 32)"
proof (cases t)
  case (Fast e)
  then have "oidMap s' sysUpTimeOID = Some p"
    using assms(1,2) by (auto simp: monitor_sysUpTime)
  then show ?thesis using assms(3) Fast by simp
next
  case (Slow now)
  obtain s1 where s1: "incrementCountersTick now s = Inr s1"
    and e: "oidMap s1 sysUpTimeOID
         = Some \<lparr>Name = Name p, Type = Type p, Value = GoUint32 (v + incrementTicks)\<rparr>"
    using increment_sysUpTime[OF assms(2,3)] by blast
  have "s' = s1" using Slow assms(1) s1 by simp
  moreover have "unat (v + 500) = (unat v + 500) mod 2 ^ 32"
    by (simp add: unat_word_ariths)
  ultimately show ?thesis using e Slow by (simp add: incrementTicks_val)
qed

section \<open>The claims\<close>

text \<open>
  C1. After any run that contains a fast tick, the three simulated device gauges are within
  their clamping bounds: CPU utilisation in [5, 90], temperature in [20, 75], memory
  utilisation in [10, 95].
\<close>

theorem gauges_within_bounds:
  assumes "run s ts = Inr s'" and "\<exists>t \<in> set ts. isFast t"
  shows "5 \<le> cpuUsage s' \<and> cpuUsage s' \<le> 90
     \<and> 20 \<le> simDeviceTemperatureCelsius s' \<and> simDeviceTemperatureCelsius s' \<le> 75
     \<and> 10 \<le> simMemoryUtilPercent s' \<and> simMemoryUtilPercent s' \<le> 95"
  using run_in_bounds[OF assms(1)] assms(2) unfolding deviceGaugesInBounds_def by blast

theorem gauges_within_bounds_witness:
  "\<exists>s'. run (initState bootEnv) [Fast tickEnv, Slow 5000000000, Fast tickEnv] = Inr s'
     \<and> 5 \<le> cpuUsage s' \<and> cpuUsage s' \<le> 90
     \<and> 20 \<le> simDeviceTemperatureCelsius s' \<and> simDeviceTemperatureCelsius s' \<le> 75
     \<and> 10 \<le> simMemoryUtilPercent s' \<and> simMemoryUtilPercent s' \<le> 95"
proof -
  obtain s' where r: "run (initState bootEnv) [Fast tickEnv, Slow 5000000000, Fast tickEnv] = Inr s'"
    using init_run_total by blast
  have "\<exists>t \<in> set [Fast tickEnv, Slow 5000000000, Fast tickEnv]. isFast t" by simp
  from gauges_within_bounds[OF r this] r show ?thesis by blast
qed

text \<open>
  C5, as amended. On every fast tick the memory utilisation is recomputed from the bytes the
  process has allocated, as a percentage of 512 MiB clamped to [10, 95]; it depends neither on
  its previous value nor on the random generator.
\<close>

theorem memory_utilisation_from_alloc:
  "simMemoryUtilPercent (monitorSystemMetricsTick e s)
     = max 10 (min 95 (real (unat (memAlloc e)) / (512 * 1024 * 1024) * 100))"
  by (simp add: monitor_mem currentDeviceMemoryUtil_def simulatedTotalMemoryBytes_def Let_def)

text \<open>
  C5 as stated fails: from the same state, hence the same previous value and the same
  generator, the tick yields 95 with 512 MiB allocated and 10 with 3 MiB allocated.
\<close>

theorem memory_random_walk_counterexample:
  "simMemoryUtilPercent
      (monitorSystemMetricsTick (tickEnv\<lparr>memAlloc := 536870912\<rparr>) (initState bootEnv)) = 95
   \<and> simMemoryUtilPercent (monitorSystemMetricsTick tickEnv (initState bootEnv)) = 10"
  by (simp add: monitor_mem currentDeviceMemoryUtil_def simulatedTotalMemoryBytes_def Let_def
      tickEnv_def)



text \<open>
  C9. Across any run, a power supply changes its status only between Normal (1) and Failed
  (2): NotPresent (3) is neither entered nor left, and the supply described as
  \<open>PSU2_SLOT1\<close> keeps its status; a fan that changes its status ends in Normal or Failed.
\<close>

theorem health_flip_only_normal_failed:
  assumes "run s ts = Inr s'"
  shows "length (psus s') = length (psus s) \<and> length (fans s') = length (fans s)
    \<and> (\<forall>i < length (psus s).
          (psu_status (psus s' ! i) = 3 \<longleftrightarrow> psu_status (psus s ! i) = 3)
          \<and> (psu_descr (psus s ! i) = ''PSU2_SLOT1''
               \<longrightarrow> psu_status (psus s' ! i) = psu_status (psus s ! i))
          \<and> (psu_status (psus s' ! i) \<noteq> psu_status (psus s ! i)
               \<longrightarrow> psu_status (psus s ! i) \<in> {1, 2} \<and> psu_status (psus s' ! i) \<in> {1, 2}))
    \<and> (\<forall>i < length (fans s).
          fan_status (fans s' ! i) \<noteq> fan_status (fans s ! i)
            \<longrightarrow> fan_status (fans s' ! i) \<in> {1, 2})"
proof -
  have p: "list_all2 psuTransition (psus s) (psus s')"
    and f: "list_all2 fanTransition (fans s) (fans s')"
    using run_health[OF assms] by blast+
  have "length (psus s') = length (psus s)" "length (fans s') = length (fans s)"
    using p f by (simp_all add: list_all2_lengthD)
  moreover have "\<forall>i < length (psus s).
          (psu_status (psus s' ! i) = 3 \<longleftrightarrow> psu_status (psus s ! i) = 3)
          \<and> (psu_descr (psus s ! i) = ''PSU2_SLOT1''
               \<longrightarrow> psu_status (psus s' ! i) = psu_status (psus s ! i))
          \<and> (psu_status (psus s' ! i) \<noteq> psu_status (psus s ! i)
               \<longrightarrow> psu_status (psus s ! i) \<in> {1, 2} \<and> psu_status (psus s' ! i) \<in> {1, 2})"
  proof (intro allI impI)
    fix i assume "i < length (psus s)"
    then have "psuTransition (psus s ! i) (psus s' ! i)" using p by (simp add: list_all2_nthD)
    then show "(psu_status (psus s' ! i) = 3 \<longleftrightarrow> psu_status (psus s ! i) = 3)
          \<and> (psu_descr (psus s ! i) = ''PSU2_SLOT1''
               \<longrightarrow> psu_status (psus s' ! i) = psu_status (psus s ! i))
          \<and> (psu_status (psus s' ! i) \<noteq> psu_status (psus s ! i)
               \<longrightarrow> psu_status (psus s ! i) \<in> {1, 2} \<and> psu_status (psus s' ! i) \<in> {1, 2})"
      by (auto simp: psuTransition_def)
  qed
  moreover have "\<forall>i < length (fans s).
          fan_status (fans s' ! i) \<noteq> fan_status (fans s ! i)
            \<longrightarrow> fan_status (fans s' ! i) \<in> {1, 2}"
  proof (intro allI impI)
    fix i assume "i < length (fans s)" and d: "fan_status (fans s' ! i) \<noteq> fan_status (fans s ! i)"
    then have "fanTransition (fans s ! i) (fans s' ! i)" using f by (simp add: list_all2_nthD)
    then show "fan_status (fans s' ! i) \<in> {1, 2}" using d by (auto simp: fanTransition_def)
  qed
  ultimately show ?thesis by blast
qed

theorem health_flip_only_normal_failed_witness:
  "run (initState flipBoot) [Fast tickEnv]
     = Inr (monitorSystemMetricsTick tickEnv (initState flipBoot))
   \<and> psu_status (psus (initState flipBoot) ! 0) = 1
   \<and> psu_status (psus (monitorSystemMetricsTick tickEnv (initState flipBoot)) ! 0) = 2
   \<and> psu_status (psus (monitorSystemMetricsTick tickEnv (initState flipBoot)) ! 0) \<in> {1, 2}
   \<and> psu_status (psus (monitorSystemMetricsTick tickEnv (initState flipBoot)) ! 1) = 2
   \<and> fan_status (fans (initState flipBoot) ! 0) = 1
   \<and> fan_status (fans (monitorSystemMetricsTick tickEnv (initState flipBoot)) ! 0) \<in> {1, 2}"
proof -
  let ?s = "initState flipBoot"
  let ?s' = "monitorSystemMetricsTick tickEnv ?s"
  have r: "run ?s [Fast tickEnv] = Inr ?s'" by simp
  have p0: "psu_status (psus ?s ! 0) = 1" "psu_descr (psus ?s ! 1) = ''PSU2_SLOT1''"
    "psu_status (psus ?s ! 1) = 2" "length (psus ?s) = 2"
    by (simp_all add: flipBoot_init initPsus_def)
  have q0: "fan_status (fans ?s ! 0) = 1" "length (fans ?s) = 2"
    by (simp_all add: flipBoot_fans initFans_def)
  have f0: "psu_status (psus ?s' ! 0) = 2"
    by (rule monitor_psu_flips[OF flipBoot_init(1),
          of "\<lparr>psu_index = 1, psu_descr = ''PSU1_SLOT1'', psu_status = 1\<rparr>"
             "[\<lparr>psu_index = 2, psu_descr = ''PSU2_SLOT1'', psu_status = 2\<rparr>]"])
      (simp_all add: flipBoot_init(2) initPsus_def)
  have g0: "fan_status (fans ?s' ! 0) = 2"
    by (rule monitor_fan_flips[OF flipBoot_init(1),
          of "\<lparr>fan_index = 1, fan_descr = ''FAN1_SLOT1'', fan_status = 1\<rparr>"
             "[\<lparr>fan_index = 2, fan_descr = ''FAN2_SLOT1'', fan_status = 1\<rparr>]"])
      (simp_all add: flipBoot_fans initFans_def)
  note f = health_flip_only_normal_failed[OF r]
  have all: "\<forall>i < length (psus ?s).
          (psu_status (psus ?s' ! i) = 3 \<longleftrightarrow> psu_status (psus ?s ! i) = 3)
          \<and> (psu_descr (psus ?s ! i) = ''PSU2_SLOT1''
               \<longrightarrow> psu_status (psus ?s' ! i) = psu_status (psus ?s ! i))
          \<and> (psu_status (psus ?s' ! i) \<noteq> psu_status (psus ?s ! i)
               \<longrightarrow> psu_status (psus ?s ! i) \<in> {1, 2} \<and> psu_status (psus ?s' ! i) \<in> {1, 2})"
    using f by (elim conjE)
  have allf: "\<forall>i < length (fans ?s).
          fan_status (fans ?s' ! i) \<noteq> fan_status (fans ?s ! i)
            \<longrightarrow> fan_status (fans ?s' ! i) \<in> {1, 2}"
    using f by (elim conjE)
  have c0: "psu_status (psus ?s' ! 0) \<noteq> psu_status (psus ?s ! 0)" using f0 p0(1) by simp
  have i0: "psu_status (psus ?s' ! 0) \<in> {1, 2}" using all c0 p0(4) by simp
  have i1: "psu_status (psus ?s' ! 1) = 2"
  proof -
    have "psu_status (psus ?s' ! 1) = psu_status (psus ?s ! 1)" using all p0(2,4) by simp
    then show ?thesis using p0(3) by simp
  qed
  have d0: "fan_status (fans ?s' ! 0) \<noteq> fan_status (fans ?s ! 0)" using g0 q0(1) by simp
  have j0: "fan_status (fans ?s' ! 0) \<in> {1, 2}" using allf d0 q0(2) by simp
  show ?thesis using r p0(1) f0 i0 i1 q0(1) j0 by (intro conjI)
qed

text \<open>
  C8. One slow tick writes the interface slice, the two error counters of the registry, the
  \<open>sysUpTime\<close> entry of the OID map and the generator, and nothing else: the device gauges,
  the ARP, MAC and connection gauges, the fan and power-supply slices and their published
  status, the application metrics, the published rates and every other entry of the OID map
  are unchanged. In the interface slice, an interface that is not Up is unchanged, and an Up
  interface keeps its index, description and status fields.
\<close>

theorem slow_cycle_frame:
  assumes "incrementCountersTick now s = Inr s'"
  shows "cpuUsage s' = cpuUsage s
    \<and> simDeviceTemperatureCelsius s' = simDeviceTemperatureCelsius s
    \<and> simMemoryUtilPercent s' = simMemoryUtilPercent s
    \<and> simulatedDeviceCPU s' = simulatedDeviceCPU s
    \<and> simulatedDeviceTemp s' = simulatedDeviceTemp s
    \<and> simArpCacheEntries s' = simArpCacheEntries s
    \<and> simMacTableEntries s' = simMacTableEntries s
    \<and> simActiveTcpConnections s' = simActiveTcpConnections s
    \<and> fans s' = fans s \<and> psus s' = psus s
    \<and> simFanStatus s' = simFanStatus s \<and> simPsuStatus s' = simPsuStatus s
    \<and> gcCount s' = gcCount s \<and> memoryUsage s' = memoryUsage s
    \<and> goroutineCount s' = goroutineCount s \<and> uptime s' = uptime s
    \<and> lastGCCount s' = lastGCCount s
    \<and> ifInRate s' = ifInRate s \<and> ifOutRate s' = ifOutRate s
    \<and> logged s' = logged s
    \<and> (\<forall>k. k \<noteq> sysUpTimeOID \<longrightarrow> oidMap s' k = oidMap s k)
    \<and> length (interfaces s') = length (interfaces s)
    \<and> (\<forall>i < length (interfaces s).
          index (interfaces s' ! i) = index (interfaces s ! i)
          \<and> descr (interfaces s' ! i) = descr (interfaces s ! i)
          \<and> adminStatus (interfaces s' ! i) = adminStatus (interfaces s ! i)
          \<and> operStatus (interfaces s' ! i) = operStatus (interfaces s ! i)
          \<and> (operStatus (interfaces s ! i) \<noteq> 1 \<longrightarrow> interfaces s' ! i = interfaces s ! i))"
proof -
  obtain g ie od om where s': "s' = s\<lparr>rnd := g, simIfInErrorsTotal := ie,
           simIfOutDiscardsTotal := od,
           interfaces := fst (bumpLoop 0 now (interfaces s) s), oidMap := om\<rparr>"
    and om: "\<forall>k. k \<noteq> sysUpTimeOID \<longrightarrow> om k = oidMap s k"
    using incrementCountersTick_frame[OF assms] by blast
  have i: "interfaces s' = fst (bumpLoop 0 now (interfaces s) s)" by (simp add: s')
  have 1: "\<forall>i < length (interfaces s).
          index (interfaces s' ! i) = index (interfaces s ! i)
          \<and> descr (interfaces s' ! i) = descr (interfaces s ! i)
          \<and> adminStatus (interfaces s' ! i) = adminStatus (interfaces s ! i)
          \<and> operStatus (interfaces s' ! i) = operStatus (interfaces s ! i)
          \<and> (operStatus (interfaces s ! i) \<noteq> 1 \<longrightarrow> interfaces s' ! i = interfaces s ! i)"
    unfolding i by (simp add: bumpLoop_static)
  have 2: "length (interfaces s') = length (interfaces s)"
    unfolding i by (rule bumpLoop_length)
  have 3: "\<forall>k. k \<noteq> sysUpTimeOID \<longrightarrow> oidMap s' k = oidMap s k"
    using om by (simp add: s')
  have 4: "cpuUsage s' = cpuUsage s" "simDeviceTemperatureCelsius s' = simDeviceTemperatureCelsius s"
    "simMemoryUtilPercent s' = simMemoryUtilPercent s" "simulatedDeviceCPU s' = simulatedDeviceCPU s"
    "simulatedDeviceTemp s' = simulatedDeviceTemp s" "simArpCacheEntries s' = simArpCacheEntries s"
    "simMacTableEntries s' = simMacTableEntries s"
    "simActiveTcpConnections s' = simActiveTcpConnections s"
    by (simp_all add: s')
  have 5: "fans s' = fans s" "psus s' = psus s" "simFanStatus s' = simFanStatus s"
    "simPsuStatus s' = simPsuStatus s" "gcCount s' = gcCount s" "memoryUsage s' = memoryUsage s"
    "goroutineCount s' = goroutineCount s" "uptime s' = uptime s" "lastGCCount s' = lastGCCount s"
    "ifInRate s' = ifInRate s" "ifOutRate s' = ifOutRate s" "logged s' = logged s"
    by (simp_all add: s')
  show ?thesis
    by (intro conjI) (fact 1 2 3 4 5)+
qed

theorem slow_cycle_frame_witness:
  "\<exists>s'. incrementCountersTick 5000000000 (initState bootEnv) = Inr s'
     \<and> cpuUsage s' = cpuUsage (initState bootEnv)
     \<and> fans s' = fans (initState bootEnv)
     \<and> oidMap s' simCpuOID = oidMap (initState bootEnv) simCpuOID
     \<and> interfaces s' ! 2 = interfaces (initState bootEnv) ! 2"
proof -
  obtain s' where r: "incrementCountersTick 5000000000 (initState bootEnv) = Inr s'"
    using increment_total[OF init_sysUpTime] by blast
  have a: "simCpuOID \<noteq> sysUpTimeOID" by (simp add: oid_defs)
  have b: "(2::nat) < length (interfaces (initState bootEnv))"
    "operStatus (interfaces (initState bootEnv) ! 2) \<noteq> 1"
    by (simp_all add: initState_def initInterfaces_def mkInterface_def)
  note f = slow_cycle_frame[OF r]
  have 1: "cpuUsage s' = cpuUsage (initState bootEnv)" using f by (elim conjE)
  have 2: "fans s' = fans (initState bootEnv)" using f by (elim conjE)
  have 3: "\<forall>k. k \<noteq> sysUpTimeOID \<longrightarrow> oidMap s' k = oidMap (initState bootEnv) k"
    using f by (elim conjE)
  have 4: "\<forall>i < length (interfaces (initState bootEnv)).
          index (interfaces s' ! i) = index (interfaces (initState bootEnv) ! i)
          \<and> descr (interfaces s' ! i) = descr (interfaces (initState bootEnv) ! i)
          \<and> adminStatus (interfaces s' ! i) = adminStatus (interfaces (initState bootEnv) ! i)
          \<and> operStatus (interfaces s' ! i) = operStatus (interfaces (initState bootEnv) ! i)
          \<and> (operStatus (interfaces (initState bootEnv) ! i) \<noteq> 1
               \<longrightarrow> interfaces s' ! i = interfaces (initState bootEnv) ! i)"
    using f by (elim conjE)
  have 5: "oidMap s' simCpuOID = oidMap (initState bootEnv) simCpuOID" using 3 a by blast
  have 6: "interfaces s' ! 2 = interfaces (initState bootEnv) ! 2" using 4 b by blast
  show ?thesis using r 1 2 5 6 by blast
qed

text \<open>
  C10. The scalar-update path never inserts: the call leaves the key set of the map as it
  is, and on an absent key it returns the map unchanged and logs nothing. So the ten scalar
  updates of a fast tick keep the key set; the fast tick adds exactly the keys of the
  published interfaces, of the fans and of the power supplies, and the slow tick adds none.
\<close>

theorem scalar_update_never_inserts:
  "dom (fst (updateOidValue k val m)) = dom m
   \<and> (m k = None \<longrightarrow> updateOidValue k val m = (m, []))
   \<and> dom (oidMap (updateScalarOids e g s)) = dom (oidMap s)
   \<and> dom (oidMap (monitorSystemMetricsTick e s))
       = dom (oidMap s)
         \<union> (\<Union>iface \<in> {i \<in> set (interfaces s). rateActive (currentTime e) i}. rateKeys iface)
         \<union> (\<lambda>f. fanStatusOID (fan_index f)) ` set (fans s)
         \<union> (\<lambda>p. psuStatusOID (psu_index p)) ` set (psus s)
   \<and> (incrementCountersTick now s = Inr s' \<longrightarrow> dom (oidMap s') = dom (oidMap s))"
proof -
  have 1: "m k = None \<longrightarrow> updateOidValue k val m = (m, [])"
    by (simp add: updateOidValue_def)
  have 2: "incrementCountersTick now s = Inr s' \<longrightarrow> dom (oidMap s') = dom (oidMap s)"
  proof
    assume a: "incrementCountersTick now s = Inr s'"
    obtain g ie od om where "s' = s\<lparr>rnd := g, simIfInErrorsTotal := ie,
           simIfOutDiscardsTotal := od,
           interfaces := fst (bumpLoop 0 now (interfaces s) s), oidMap := om\<rparr>"
      and "dom om = dom (oidMap s)"
      using incrementCountersTick_frame[OF a] by blast
    then show "dom (oidMap s') = dom (oidMap s)" by simp
  qed
  show ?thesis
    by (intro conjI) (fact 1 2 dom_updateOidValue dom_updateScalarOids monitor_dom)+
qed

theorem scalar_update_never_inserts_witness:
  "updateOidValue (fanStatusOID 1) (GoInt32 1) (oidMap (initState bootEnv))
     = (oidMap (initState bootEnv), [])
   \<and> (\<exists>s'. incrementCountersTick 5000000000 (initState bootEnv) = Inr s'
         \<and> dom (oidMap s') = dom (oidMap (initState bootEnv)))"
proof -
  obtain s' where r: "incrementCountersTick 5000000000 (initState bootEnv) = Inr s'"
    using increment_total[OF init_sysUpTime] by blast
  have a: "oidMap (initState bootEnv) (fanStatusOID 1) = None"
    by (simp add: initState_def initOidList_def mkPDU_def oid_defs)
  note f = scalar_update_never_inserts[of "fanStatusOID 1" "GoInt32 1"
      "oidMap (initState bootEnv)" tickEnv "rnd (initState bootEnv)" "initState bootEnv"
      5000000000 s']
  have 1: "oidMap (initState bootEnv) (fanStatusOID 1) = None
      \<longrightarrow> updateOidValue (fanStatusOID 1) (GoInt32 1) (oidMap (initState bootEnv))
            = (oidMap (initState bootEnv), [])"
    using f by (elim conjE)
  have 2: "incrementCountersTick 5000000000 (initState bootEnv) = Inr s'
      \<longrightarrow> dom (oidMap s') = dom (oidMap (initState bootEnv))"
    using f by (elim conjE)
  show ?thesis using 1 2 a r by blast
qed

text \<open>
  C6. In every state reached from the initial state, a fast tick leaves the entry of the
  simulator CPU key as a Gauge32 holding a \<open>uint32\<close> whose value is the value set on the CPU
  gauge of the registry: the conversion loses nothing.
\<close>

theorem cpu_gauge_matches_store:
  assumes "run (initState ie) ts = Inr s"
  shows "\<exists>p v. oidMap (monitorSystemMetricsTick e s) simCpuOID = Some p
     \<and> Type p = Gauge32 \<and> Value p = GoUint32 v
     \<and> real (unat v) = cpuUsage (monitorSystemMetricsTick e s)"
proof -
  have i: "simulatedDeviceCPU s \<in> \<int>"
    and "\<exists>p. oidMap s simCpuOID = Some p \<and> Type p = Gauge32"
    using run_cpu[OF assms init_cpu] by blast+
  then obtain p where p: "oidMap s simCpuOID = Some p" "Type p = Gauge32" by blast
  let ?c = "simulatedDeviceCPU (monitorSystemMetricsTick e s)"
  have "real (unat (float_to_uint32 ?c)) = ?c"
    using monitor_cpu_int[OF i, of e] monitor_cpu_range[of e s]
    by (intro float_to_uint32_exact) simp_all
  then have "real (unat (float_to_uint32 ?c)) = cpuUsage (monitorSystemMetricsTick e s)"
    by (simp add: monitor_cpu(1))
  then show ?thesis using monitor_cpu_oid[OF p, of e] p(2) by simp
qed

theorem cpu_gauge_matches_store_witness:
  "\<exists>s p v. run (initState bootEnv) [Fast tickEnv, Slow 5000000000] = Inr s
     \<and> oidMap (monitorSystemMetricsTick tickEnv s) simCpuOID = Some p
     \<and> Type p = Gauge32 \<and> Value p = GoUint32 v
     \<and> real (unat v) = cpuUsage (monitorSystemMetricsTick tickEnv s)"
proof -
  obtain s where r: "run (initState bootEnv) [Fast tickEnv, Slow 5000000000] = Inr s"
    using init_run_total by blast
  show ?thesis using cpu_gauge_matches_store[OF r, of tickEnv] r by blast
qed

text \<open>
  C3, as amended. In every state reached from the initial state, a fast tick publishes, for
  every interface that is Up and whose baseline timestamp lies strictly before the tick's
  time, the in-rate and the out-rate as float64 quotients: the cumulative octets minus the
  baseline octets (a \<open>uint64\<close> difference, converted to float64) divided in float64 by
  \<open>Duration.Seconds\<close> of the time since the baseline timestamp. Every float64 operation
  rounds, so a published rate is within a relative error of \<open>2^-50\<close> of the exact quotient
  of the octets by the elapsed nanoseconds over \<open>10^9\<close>, and it is not negative. The gauges
  of the registry hold the float64 quotient; the OID map holds its conversion to \<open>uint32\<close>
  as a Gauge32, which is the integer part of a quotient below \<open>2^32\<close>.
\<close>

theorem published_rate_is_float_quotient:
  assumes "run (initState ie) ts = Inr s"
    and "iface \<in> set (interfaces s)"
    and "operStatus iface = 1"
    and "lastUpdateTime iface < currentTime e"
  shows "\<exists>rin rout.
      rin = round64 (round64 (real (unat (inOctets iface - lastInOctets iface)))
                     / Seconds (currentTime e - lastUpdateTime iface))
    \<and> rout = round64 (round64 (real (unat (outOctets iface - lastOutOctets iface)))
                      / Seconds (currentTime e - lastUpdateTime iface))
    \<and> ifInRate (monitorSystemMetricsTick e s) (labelsOf (index iface) (descr iface)) = Some rin
    \<and> ifOutRate (monitorSystemMetricsTick e s) (labelsOf (index iface) (descr iface)) = Some rout
    \<and> \<bar>rin - real (unat (inOctets iface - lastInOctets iface))
               / (real_of_int (currentTime e - lastUpdateTime iface) / 1000000000)\<bar>
        \<le> real (unat (inOctets iface - lastInOctets iface))
             / (real_of_int (currentTime e - lastUpdateTime iface) / 1000000000) / 2 ^ 50
    \<and> \<bar>rout - real (unat (outOctets iface - lastOutOctets iface))
                / (real_of_int (currentTime e - lastUpdateTime iface) / 1000000000)\<bar>
        \<le> real (unat (outOctets iface - lastOutOctets iface))
             / (real_of_int (currentTime e - lastUpdateTime iface) / 1000000000) / 2 ^ 50
    \<and> 0 \<le> rin \<and> 0 \<le> rout
    \<and> oidMap (monitorSystemMetricsTick e s) (ifInRateOID (index iface))
        = Some \<lparr>Name = ifInRateOID (index iface), Type = Gauge32,
                Value = GoUint32 (float_to_uint32 rin)\<rparr>
    \<and> oidMap (monitorSystemMetricsTick e s) (ifOutRateOID (index iface))
        = Some \<lparr>Name = ifOutRateOID (index iface), Type = Gauge32,
                Value = GoUint32 (float_to_uint32 rout)\<rparr>
    \<and> (rin < 4294967296 \<longrightarrow> unat (float_to_uint32 rin) = nat \<lfloor>rin\<rfloor>)
    \<and> (rout < 4294967296 \<longrightarrow> unat (float_to_uint32 rout) = nat \<lfloor>rout\<rfloor>)
    \<and> (lastInOctets iface \<le> inOctets iface \<longrightarrow>
         real (unat (inOctets iface - lastInOctets iface))
           = real (unat (inOctets iface)) - real (unat (lastInOctets iface)))
    \<and> (lastOutOctets iface \<le> outOctets iface \<longrightarrow>
         real (unat (outOctets iface - lastOutOctets iface))
           = real (unat (outOctets iface)) - real (unat (lastOutOctets iface)))"
proof -
  have act: "rateActive (currentTime e) iface"
    using assms(3,4) by (simp add: rateActive_iff)
  note p = monitor_publishes[OF reachable_distinct[OF assms(1)] assms(2) act]
  note n = rate_near_quotient[OF assms(4)]
  note z = rate_nonneg[OF assms(4)]
  have fi: "inRateBps (currentTime e) iface < 4294967296 \<longrightarrow>
      unat (float_to_uint32 (inRateBps (currentTime e) iface))
        = nat \<lfloor>inRateBps (currentTime e) iface\<rfloor>"
    using float_to_uint32_floor[OF z(1)] by blast
  have fo: "outRateBps (currentTime e) iface < 4294967296 \<longrightarrow>
      unat (float_to_uint32 (outRateBps (currentTime e) iface))
        = nat \<lfloor>outRateBps (currentTime e) iface\<rfloor>"
    using float_to_uint32_floor[OF z(2)] by blast
  have 5: "lastInOctets iface \<le> inOctets iface \<longrightarrow>
         real (unat (inOctets iface - lastInOctets iface))
           = real (unat (inOctets iface)) - real (unat (lastInOctets iface))"
    by (simp add: unat_sub word_le_nat_alt of_nat_diff)
  have 6: "lastOutOctets iface \<le> outOctets iface \<longrightarrow>
         real (unat (outOctets iface - lastOutOctets iface))
           = real (unat (outOctets iface)) - real (unat (lastOutOctets iface))"
    by (simp add: unat_sub word_le_nat_alt of_nat_diff)
  show ?thesis
  proof (intro exI conjI)
    show "inRateBps (currentTime e) iface
        = round64 (round64 (real (unat (inOctets iface - lastInOctets iface)))
                   / Seconds (currentTime e - lastUpdateTime iface))"
      by (simp add: inRateBps_def)
    show "outRateBps (currentTime e) iface
        = round64 (round64 (real (unat (outOctets iface - lastOutOctets iface)))
                   / Seconds (currentTime e - lastUpdateTime iface))"
      by (simp add: outRateBps_def)
  qed (fact p n z fi fo 5 6)+
qed

theorem published_rate_is_float_quotient_witness:
  "\<exists>s. run (initState slowBoot) [Slow 5000000000] = Inr s
     \<and> interfaces s ! 0
        = \<lparr>index = 1, descr = ''GigabitEthernet1/0/1'', adminStatus = 1, operStatus = 1,
           inOctets = 14962, outOctets = 27881, lastInOctets = 4242, lastOutOctets = 12161,
           lastUpdateTime = 5000000000, inErrors = 0, outDiscards = 0\<rparr>
     \<and> ifInRate (monitorSystemMetricsTick lateTick s) (1, ''GigabitEthernet1/0/1'')
        = Some (7857843099839147 / 2199023255552)
     \<and> ifOutRate (monitorSystemMetricsTick lateTick s) (1, ''GigabitEthernet1/0/1'')
        = Some 5240
     \<and> \<bar>7857843099839147 / 2199023255552 - 10720 / (3000000000 / 1000000000)\<bar>
        \<le> (10720 / (3000000000 / 1000000000) / 2 ^ 50 :: real)
     \<and> oidMap (monitorSystemMetricsTick lateTick s) (ifInRateOID 1)
        = Some \<lparr>Name = ifInRateOID 1, Type = Gauge32, Value = GoUint32 3573\<rparr>
     \<and> oidMap (monitorSystemMetricsTick lateTick s) (ifOutRateOID 1)
        = Some \<lparr>Name = ifOutRateOID 1, Type = Gauge32, Value = GoUint32 5240\<rparr>
     \<and> real (unat (inOctets (interfaces s ! 0) - lastInOctets (interfaces s ! 0)))
        = 14962 - 4242
     \<and> real (unat (outOctets (interfaces s ! 0) - lastOutOctets (interfaces s ! 0)))
        = 27881 - 12161"
proof -
  define iface where "iface =
     \<lparr>index = 1, descr = ''GigabitEthernet1/0/1'', adminStatus = 1, operStatus = 1,
      inOctets = (14962 :: uint64), outOctets = (27881 :: uint64), lastInOctets = (4242 :: uint64),
      lastOutOctets = (12161 :: uint64), lastUpdateTime = 5000000000, inErrors = (0 :: uint64),
      outDiscards = (0 :: uint64)\<rparr>"
  obtain s where r: "run (initState slowBoot) [Slow 5000000000] = Inr s"
    using init_run_total by blast
  then have st: "incrementCountersTick 5000000000 (initState slowBoot) = Inr s"
    by (simp split: sum.splits)
  have ifs: "interfaces (initState slowBoot)
      = mkInterface 1 ''GigabitEthernet1/0/1'' 1 1 4242 12161 1000000000
        # tl (interfaces (initState slowBoot))"
    by (simp add: initState_def initInterfaces_def slowBoot_def bootEnv_def)
  have b: "fst (bumpInterface 0 5000000000
        (mkInterface 1 ''GigabitEthernet1/0/1'' 1 1 4242 12161 1000000000) (initState slowBoot))
      = iface"
    by (simp add: bumpInterface_def slowBoot_rnd Intn_const mkInterface_def iface_def Let_def)
  have 0: "interfaces s ! 0 = iface"
    using slow_head_interface(1)[OF st ifs] b by simp
  have 2: "iface \<in> set (interfaces s)"
    using nth_mem[OF slow_head_interface(2)[OF st ifs]] 0 by simp
  have 3: "operStatus iface = 1" by (simp add: iface_def)
  have 4: "lastUpdateTime iface < currentTime lateTick"
    by (simp add: iface_def lateTick_def tickEnv_def)
  obtain rin rout where
    rin: "rin = round64 (round64 (real (unat (inOctets iface - lastInOctets iface)))
                     / Seconds (currentTime lateTick - lastUpdateTime iface))"
    and rout: "rout = round64 (round64 (real (unat (outOctets iface - lastOutOctets iface)))
                      / Seconds (currentTime lateTick - lastUpdateTime iface))"
    and gi: "ifInRate (monitorSystemMetricsTick lateTick s) (labelsOf (index iface) (descr iface))
        = Some rin"
    and go: "ifOutRate (monitorSystemMetricsTick lateTick s) (labelsOf (index iface) (descr iface))
        = Some rout"
    and ni: "\<bar>rin - real (unat (inOctets iface - lastInOctets iface))
               / (real_of_int (currentTime lateTick - lastUpdateTime iface) / 1000000000)\<bar>
        \<le> real (unat (inOctets iface - lastInOctets iface))
             / (real_of_int (currentTime lateTick - lastUpdateTime iface) / 1000000000) / 2 ^ 50"
    and oi: "oidMap (monitorSystemMetricsTick lateTick s) (ifInRateOID (index iface))
        = Some \<lparr>Name = ifInRateOID (index iface), Type = Gauge32,
                Value = GoUint32 (float_to_uint32 rin)\<rparr>"
    and oo: "oidMap (monitorSystemMetricsTick lateTick s) (ifOutRateOID (index iface))
        = Some \<lparr>Name = ifOutRateOID (index iface), Type = Gauge32,
                Value = GoUint32 (float_to_uint32 rout)\<rparr>"
    and fi: "rin < 4294967296 \<longrightarrow> unat (float_to_uint32 rin) = nat \<lfloor>rin\<rfloor>"
    and fo: "rout < 4294967296 \<longrightarrow> unat (float_to_uint32 rout) = nat \<lfloor>rout\<rfloor>"
    and di: "lastInOctets iface \<le> inOctets iface \<longrightarrow>
         real (unat (inOctets iface - lastInOctets iface))
           = real (unat (inOctets iface)) - real (unat (lastInOctets iface))"
    and do: "lastOutOctets iface \<le> outOctets iface \<longrightarrow>
         real (unat (outOctets iface - lastOutOctets iface))
           = real (unat (outOctets iface)) - real (unat (lastOutOctets iface))"
    using published_rate_is_float_quotient[OF r 2 3 4] by blast
  have e1: "round64 10720 = 10720" by code_simp
  have e2: "round64 15720 = 15720" by code_simp
  have e3: "Seconds 3000000000 = 3" by code_simp
  have e4: "round64 (10720 / 3) = 7857843099839147 / 2199023255552" by code_simp
  have e5: "round64 5240 = 5240" by code_simp
  have vi: "rin = 7857843099839147 / 2199023255552"
    unfolding rin by (simp add: iface_def lateTick_def tickEnv_def e1 e3 e4)
  have vo: "rout = 5240"
    unfolding rout by (simp add: iface_def lateTick_def tickEnv_def e2 e3 e5)
  have "unat (float_to_uint32 rin) = 3573" using fi by (simp add: vi)
  then have wi: "float_to_uint32 rin = 3573" by (simp add: word_unat_eq_iff)
  have "unat (float_to_uint32 rout) = 5240" using fo by (simp add: vo)
  then have wo: "float_to_uint32 rout = 5240" by (simp add: word_unat_eq_iff)
  have a: "ifInRate (monitorSystemMetricsTick lateTick s) (1, ''GigabitEthernet1/0/1'')
        = Some (7857843099839147 / 2199023255552)"
    using gi by (simp add: iface_def labelsOf_def vi)
  have b': "ifOutRate (monitorSystemMetricsTick lateTick s) (1, ''GigabitEthernet1/0/1'')
        = Some 5240"
    using go by (simp add: iface_def labelsOf_def vo)
  have c: "\<bar>7857843099839147 / 2199023255552 - 10720 / (3000000000 / 1000000000)\<bar>
        \<le> (10720 / (3000000000 / 1000000000) / 2 ^ 50 :: real)"
    using ni unfolding vi by (simp add: iface_def lateTick_def tickEnv_def)
  have d: "oidMap (monitorSystemMetricsTick lateTick s) (ifInRateOID 1)
        = Some \<lparr>Name = ifInRateOID 1, Type = Gauge32, Value = GoUint32 3573\<rparr>"
    using oi unfolding wi by (simp add: iface_def)
  have e: "oidMap (monitorSystemMetricsTick lateTick s) (ifOutRateOID 1)
        = Some \<lparr>Name = ifOutRateOID 1, Type = Gauge32, Value = GoUint32 5240\<rparr>"
    using oo unfolding wo by (simp add: iface_def)
  have z: "interfaces s ! 0
        = \<lparr>index = 1, descr = ''GigabitEthernet1/0/1'', adminStatus = 1, operStatus = 1,
           inOctets = 14962, outOctets = 27881, lastInOctets = 4242, lastOutOctets = 12161,
           lastUpdateTime = 5000000000, inErrors = 0, outDiscards = 0\<rparr>"
    using 0 by (simp add: iface_def)
  have 6: "lastInOctets iface \<le> inOctets iface" "lastOutOctets iface \<le> outOctets iface"
    by (simp_all add: iface_def)
  have "real (unat (inOctets iface - lastInOctets iface))
      = real (unat (inOctets iface)) - real (unat (lastInOctets iface))"
    using di 6(1) by blast
  then have g: "real (unat (inOctets iface - lastInOctets iface)) = 14962 - 4242"
    by (simp add: iface_def)
  have "real (unat (outOctets iface - lastOutOctets iface))
      = real (unat (outOctets iface)) - real (unat (lastOutOctets iface))"
    using do 6(2) by blast
  then have h: "real (unat (outOctets iface - lastOutOctets iface)) = 27881 - 12161"
    by (simp add: iface_def)
  have g': "real (unat (inOctets (interfaces s ! 0) - lastInOctets (interfaces s ! 0)))
      = 14962 - 4242"
    unfolding 0 by (rule g)
  have h': "real (unat (outOctets (interfaces s ! 0) - lastOutOctets (interfaces s ! 0)))
      = 27881 - 12161"
    unfolding 0 by (rule h)
  show ?thesis using r z a b' c d e g' h' by (intro exI[of _ s] conjI)
qed

text \<open>
  C3 as stated fails: the published rate is not always the quotient. With 134 octets since
  a baseline 1.072 seconds before the tick the quotient is 125; the float64 division gives
  the float64 just below 125, which the registry publishes, and the OID map holds 124.
\<close>

theorem published_rate_not_exact_counterexample:
  "operStatus (interfaces (initState rateBoot) ! 0) = 1
   \<and> lastUpdateTime (interfaces (initState rateBoot) ! 0) < currentTime rateTick
   \<and> real (unat (inOctets (interfaces (initState rateBoot) ! 0)
                  - lastInOctets (interfaces (initState rateBoot) ! 0)))
       / (real_of_int (currentTime rateTick
                       - lastUpdateTime (interfaces (initState rateBoot) ! 0)) / 1000000000)
     = 125
   \<and> ifInRate (monitorSystemMetricsTick rateTick (initState rateBoot))
        (1, ''GigabitEthernet1/0/1'')
     = Some (8796093022207999 / 70368744177664)
   \<and> (8796093022207999 / 70368744177664 :: real) < 125
   \<and> oidMap (monitorSystemMetricsTick rateTick (initState rateBoot)) (ifInRateOID 1)
     = Some \<lparr>Name = ifInRateOID 1, Type = Gauge32, Value = GoUint32 124\<rparr>"
proof -
  define iface where "iface = mkInterface 1 ''GigabitEthernet1/0/1'' 1 1 134 134 1000000000"
  have 0: "interfaces (initState rateBoot) ! 0 = iface"
    by (simp add: initState_def initInterfaces_def rateBoot_def bootEnv_def iface_def)
  have d: "distinct (map index (interfaces (initState rateBoot)))"
    by (simp add: init_static(1))
  have m: "iface \<in> set (interfaces (initState rateBoot))"
    by (simp add: initState_def initInterfaces_def rateBoot_def bootEnv_def iface_def)
  have act: "rateActive (currentTime rateTick) iface"
    by (simp add: rateActive_iff iface_def mkInterface_def rateTick_def tickEnv_def)
  note p = monitor_publishes[OF d m act]
  have e1: "round64 134 = 134" by code_simp
  have e2: "Seconds 1072000000 = 1206964700135293 / 1125899906842624" by code_simp
  have e3: "round64 (134 / (1206964700135293 / 1125899906842624))
      = 8796093022207999 / 70368744177664" by code_simp
  have v: "inRateBps (currentTime rateTick) iface = 8796093022207999 / 70368744177664"
    using e3 by (simp add: inRateBps_def iface_def mkInterface_def rateTick_def tickEnv_def e1 e2)
  have w: "float_to_uint32 (8796093022207999 / 70368744177664) = 124"
    by (simp add: float_to_uint32_def float_trunc_def)
  have 1: "operStatus iface = 1" by (simp add: iface_def mkInterface_def)
  have 2: "lastUpdateTime iface < currentTime rateTick"
    by (simp add: iface_def mkInterface_def rateTick_def tickEnv_def)
  have 3: "real (unat (inOctets iface - lastInOctets iface))
       / (real_of_int (currentTime rateTick - lastUpdateTime iface) / 1000000000) = 125"
    by (simp add: iface_def mkInterface_def rateTick_def tickEnv_def)
  have 4: "ifInRate (monitorSystemMetricsTick rateTick (initState rateBoot))
        (1, ''GigabitEthernet1/0/1'') = Some (8796093022207999 / 70368744177664)"
    using p(1) unfolding v by (simp add: iface_def mkInterface_def labelsOf_def)
  have 5: "(8796093022207999 / 70368744177664 :: real) < 125" by simp
  have 6: "oidMap (monitorSystemMetricsTick rateTick (initState rateBoot)) (ifInRateOID 1)
     = Some \<lparr>Name = ifInRateOID 1, Type = Gauge32, Value = GoUint32 124\<rparr>"
    using p(3) unfolding v w by (simp add: iface_def mkInterface_def)
  show ?thesis unfolding 0 using 1 2 3 4 5 6 by (intro conjI)
qed

text \<open>
  C2, as amended. For an interface that is Down in a state reached from the initial state, no
  rate is published: after any further run its labels have no sample in the two rate gauges
  of the registry and the OID map has no entry under its two rate keys. The interface itself,
  hence its four cumulative counters, is unchanged by the run.
\<close>

theorem down_interface_frozen:
  assumes "run (initState ie) ts = Inr s" and "run s ts' = Inr s'"
    and "i < length (interfaces s)" and "operStatus (interfaces s ! i) = 2"
  shows "interfaces s' ! i = interfaces s ! i
    \<and> ifInRate s' (labelsOf (index (interfaces s ! i)) (descr (interfaces s ! i))) = None
    \<and> ifOutRate s' (labelsOf (index (interfaces s ! i)) (descr (interfaces s ! i))) = None
    \<and> oidMap s' (ifInRateOID (index (interfaces s ! i))) = None
    \<and> oidMap s' (ifOutRateOID (index (interfaces s ! i))) = None"
proof -
  let ?x = "index (interfaces s ! i)"
  have n1: "operStatus (interfaces s ! i) \<noteq> 1" using assms(4) by simp
  have 1: "interfaces s' ! i = interfaces s ! i"
    by (rule run_down_same[OF assms(2,3) n1])
  have "(?x, 1) \<notin> (\<lambda>a. (index a, operStatus a)) ` set (interfaces s)"
    by (rule distinct_down_index[OF reachable_distinct[OF assms(1)] assms(3) n1])
  moreover have "(\<lambda>a. (index a, operStatus a)) ` set (interfaces s)
      = (\<lambda>a. (index a, operStatus a)) ` set (interfaces (initState ie))"
    using run_static[OF assms(1)] by (intro static_pairs) simp_all
  ultimately have h: "(?x, 1) \<notin> (\<lambda>a. (index a, operStatus a)) ` set (interfaces (initState ie))"
    by simp
  have r: "run (initState ie) (ts @ ts') = Inr s'"
    by (rule run_append[OF assms(1,2)])
  note u = run_rate_untouched[OF r h, of "descr (interfaces s ! i)"]
  show ?thesis
    using 1 u by (simp add: init_rates_empty labelsOf_def)
qed

theorem down_interface_frozen_witness:
  "\<exists>s'. run (initState bootEnv) [Fast tickEnv, Slow 5000000000, Fast tickEnv] = Inr s'
     \<and> interfaces s' ! 2 = interfaces (initState bootEnv) ! 2
     \<and> ifInRate s' (3, ''GigabitEthernet1/0/3'') = None
     \<and> oidMap s' (ifInRateOID 3) = None"
proof -
  obtain s' where r: "run (initState bootEnv) [Fast tickEnv, Slow 5000000000, Fast tickEnv] = Inr s'"
    using init_run_total by blast
  have 1: "run (initState bootEnv) [] = Inr (initState bootEnv)" by simp
  have 2: "(2::nat) < length (interfaces (initState bootEnv))"
    by (simp add: initState_def initInterfaces_def)
  have 3: "operStatus (interfaces (initState bootEnv) ! 2) = 2"
    "index (interfaces (initState bootEnv) ! 2) = 3"
    "descr (interfaces (initState bootEnv) ! 2) = ''GigabitEthernet1/0/3''"
    by (simp_all add: initState_def initInterfaces_def mkInterface_def)
  note f = down_interface_frozen[OF 1 r 2 3(1)]
  have a: "interfaces s' ! 2 = interfaces (initState bootEnv) ! 2" using f by (elim conjE)
  have b: "ifInRate s' (3, ''GigabitEthernet1/0/3'') = None"
    using conjunct1[OF conjunct2[OF f]] by (simp add: 3 labelsOf_def)
  have c: "oidMap s' (ifInRateOID 3) = None"
    using conjunct1[OF conjunct2[OF conjunct2[OF conjunct2[OF f]]]] by (simp add: 3)
  show ?thesis using r a b c by blast
qed

text \<open>
  C2 as stated fails: after a fast tick from the initial state, the Down interface 3
  has no published rate, neither a sample of value 0 in the registry nor a Gauge32 of value 0
  in the OID map.
\<close>

theorem down_rate_zero_counterexample:
  "ifInRate (monitorSystemMetricsTick tickEnv (initState bootEnv)) (3, ''GigabitEthernet1/0/3'')
     \<noteq> Some 0
   \<and> ifInRate (monitorSystemMetricsTick tickEnv (initState bootEnv)) (3, ''GigabitEthernet1/0/3'')
     = None
   \<and> oidMap (monitorSystemMetricsTick tickEnv (initState bootEnv)) (ifInRateOID 3) = None"
proof -
  have s: "step (Fast tickEnv) (initState bootEnv)
      = Inr (monitorSystemMetricsTick tickEnv (initState bootEnv))"
    by simp
  have h: "(3, 1) \<notin> (\<lambda>a. (index a, operStatus a)) ` set (interfaces (initState bootEnv))"
    by (simp add: initState_def initInterfaces_def mkInterface_def)
  show ?thesis
    using step_rate_untouched[OF s h, of "''GigabitEthernet1/0/3''"]
    by (simp add: init_rates_empty)
qed

text \<open>
  C4, as amended. Across one tick of either cycle each cumulative counter is at least what it
  was, provided it does not wrap around in that tick. The interface fields are \<open>uint64\<close>:
  \<open>inOctets\<close> of the interface at position \<open>i\<close> does not decrease if it is at least
  \<open>30000 + 1000 i\<close> below \<open>2^64\<close>, \<open>outOctets\<close> if at least \<open>45000 + 2000 i\<close> below,
  \<open>inErrors\<close> and \<open>outDiscards\<close> if more than 3 and 2 below. The published Counter32
  entries are the interface counts cut to \<open>uint32\<close>: an entry that is not ahead of its
  interface count does not decrease, and stays not ahead, while that count is more than 3
  (2) below \<open>2^32\<close>. The \<open>sysUpTime\<close> entry is unchanged by a fast tick and becomes
  \<open>(v + 500) mod 2^32\<close> in a slow tick: it does not decrease while it is more than 500 below
  \<open>2^32\<close>. The GC count has two readings. The counter of the registry never decreases. The
  Counter32 entry of the OID map is unchanged by a slow tick and is overwritten by a fast
  tick with the runtime's \<open>NumGC\<close>: it does not decrease provided that reading is not below
  the entry.
\<close>

theorem counters_monotone_without_wrap:
  assumes "step t s = Inr s'" and "i < length (interfaces s)"
  shows "(unat (inOctets (interfaces s ! i)) + (30000 + 1000 * i) \<le> 2 ^ 64
            \<longrightarrow> inOctets (interfaces s ! i) \<le> inOctets (interfaces s' ! i))
    \<and> (unat (outOctets (interfaces s ! i)) + (45000 + 2000 * i) \<le> 2 ^ 64
            \<longrightarrow> outOctets (interfaces s ! i) \<le> outOctets (interfaces s' ! i))
    \<and> (unat (inErrors (interfaces s ! i)) + 3 < 2 ^ 64
            \<longrightarrow> inErrors (interfaces s ! i) \<le> inErrors (interfaces s' ! i))
    \<and> (unat (outDiscards (interfaces s ! i)) + 2 < 2 ^ 64
            \<longrightarrow> outDiscards (interfaces s ! i) \<le> outDiscards (interfaces s' ! i))
    \<and> (\<forall>p v. distinct (map index (interfaces s))
            \<and> oidMap s (ifInErrorsOID (index (interfaces s ! i))) = Some p
            \<and> Value p = GoUint32 v
            \<and> unat v \<le> unat (inErrors (interfaces s ! i))
            \<and> unat (inErrors (interfaces s ! i)) + 3 < 2 ^ 32
          \<longrightarrow> (\<exists>p' v'. oidMap s' (ifInErrorsOID (index (interfaces s ! i))) = Some p'
                 \<and> Value p' = GoUint32 v' \<and> v \<le> v'
                 \<and> unat v' \<le> unat (inErrors (interfaces s' ! i))))
    \<and> (\<forall>p v. distinct (map index (interfaces s))
            \<and> oidMap s (ifOutDiscardsOID (index (interfaces s ! i))) = Some p
            \<and> Value p = GoUint32 v
            \<and> unat v \<le> unat (outDiscards (interfaces s ! i))
            \<and> unat (outDiscards (interfaces s ! i)) + 2 < 2 ^ 32
          \<longrightarrow> (\<exists>p' v'. oidMap s' (ifOutDiscardsOID (index (interfaces s ! i))) = Some p'
                 \<and> Value p' = GoUint32 v' \<and> v \<le> v'
                 \<and> unat v' \<le> unat (outDiscards (interfaces s' ! i))))
    \<and> (\<forall>p v. oidMap s sysUpTimeOID = Some p \<and> Value p = GoUint32 v \<and> unat v + 500 < 2 ^ 32
          \<longrightarrow> (\<exists>p' v'. oidMap s' sysUpTimeOID = Some p' \<and> Value p' = GoUint32 v' \<and> v \<le> v'))
    \<and> (\<forall>p v. oidMap s sysUpTimeOID = Some p \<and> Value p = GoUint32 v
          \<longrightarrow> (\<exists>p' v'. oidMap s' sysUpTimeOID = Some p' \<and> Value p' = GoUint32 v'
                 \<and> unat v' = (if isFast t then unat v else (unat v + 500) mod 2 ^ 32)))
    \<and> gcCount s \<le> gcCount s'
    \<and> (\<forall>p v. oidMap s simGcCountOID = Some p \<and> Type p = Counter32 \<and> Value p = GoUint32 v
            \<and> (\<forall>e. t = Fast e \<longrightarrow> v \<le> memNumGC e)
          \<longrightarrow> (\<exists>p' v'. oidMap s' simGcCountOID = Some p' \<and> Type p' = Counter32
                 \<and> Value p' = GoUint32 v' \<and> v \<le> v'
                 \<and> (\<forall>e. t = Fast e \<longrightarrow> v' = memNumGC e)))"
proof (intro conjI allI impI)
  show "unat (inOctets (interfaces s ! i)) + (30000 + 1000 * i) \<le> 2 ^ 64
      \<Longrightarrow> inOctets (interfaces s ! i) \<le> inOctets (interfaces s' ! i)"
    by (rule step_interface_mono(1)[OF assms])
  show "unat (outOctets (interfaces s ! i)) + (45000 + 2000 * i) \<le> 2 ^ 64
      \<Longrightarrow> outOctets (interfaces s ! i) \<le> outOctets (interfaces s' ! i)"
    by (rule step_interface_mono(2)[OF assms])
  show "unat (inErrors (interfaces s ! i)) + 3 < 2 ^ 64
      \<Longrightarrow> inErrors (interfaces s ! i) \<le> inErrors (interfaces s' ! i)"
    by (rule step_interface_mono(3)[OF assms])
  show "unat (outDiscards (interfaces s ! i)) + 2 < 2 ^ 64
      \<Longrightarrow> outDiscards (interfaces s ! i) \<le> outDiscards (interfaces s' ! i)"
    by (rule step_interface_mono(4)[OF assms])
  show "\<exists>p' v'. oidMap s' (ifInErrorsOID (index (interfaces s ! i))) = Some p'
       \<and> Value p' = GoUint32 v' \<and> v \<le> v' \<and> unat v' \<le> unat (inErrors (interfaces s' ! i))"
    if "distinct (map index (interfaces s))
        \<and> oidMap s (ifInErrorsOID (index (interfaces s ! i))) = Some p
        \<and> Value p = GoUint32 v
        \<and> unat v \<le> unat (inErrors (interfaces s ! i))
        \<and> unat (inErrors (interfaces s ! i)) + 3 < 2 ^ 32" for p v
    using that by (intro step_inErrors_entry[OF assms, of p v]) simp_all
  show "\<exists>p' v'. oidMap s' (ifOutDiscardsOID (index (interfaces s ! i))) = Some p'
       \<and> Value p' = GoUint32 v' \<and> v \<le> v' \<and> unat v' \<le> unat (outDiscards (interfaces s' ! i))"
    if "distinct (map index (interfaces s))
        \<and> oidMap s (ifOutDiscardsOID (index (interfaces s ! i))) = Some p
        \<and> Value p = GoUint32 v
        \<and> unat v \<le> unat (outDiscards (interfaces s ! i))
        \<and> unat (outDiscards (interfaces s ! i)) + 2 < 2 ^ 32" for p v
    using that by (intro step_outDiscards_entry[OF assms, of p v]) simp_all
  show "\<exists>p' v'. oidMap s' sysUpTimeOID = Some p' \<and> Value p' = GoUint32 v' \<and> v \<le> v'"
    if "oidMap s sysUpTimeOID = Some p \<and> Value p = GoUint32 v \<and> unat v + 500 < 2 ^ 32" for p v
    using that by (intro step_sysUpTime[OF assms(1), of p v]) simp_all
  show "\<exists>p' v'. oidMap s' sysUpTimeOID = Some p' \<and> Value p' = GoUint32 v'
       \<and> unat v' = (if isFast t then unat v else (unat v + 500) mod 2 ^ 32)"
    if "oidMap s sysUpTimeOID = Some p \<and> Value p = GoUint32 v" for p v
    using that by (intro step_sysUpTime_exact[OF assms(1), of p v]) simp_all
  show "gcCount s \<le> gcCount s'" by (rule step_gcCount[OF assms(1)])
  show "\<exists>p' v'. oidMap s' simGcCountOID = Some p' \<and> Type p' = Counter32
       \<and> Value p' = GoUint32 v' \<and> v \<le> v' \<and> (\<forall>e. t = Fast e \<longrightarrow> v' = memNumGC e)"
    if "oidMap s simGcCountOID = Some p \<and> Type p = Counter32 \<and> Value p = GoUint32 v
        \<and> (\<forall>e. t = Fast e \<longrightarrow> v \<le> memNumGC e)" for p v
    using that by (intro step_gc_entry[OF assms(1), of p v]) simp_all
qed

theorem counters_monotone_without_wrap_witness:
  "\<exists>s'. step (Slow 5000000000) (monitorSystemMetricsTick tickEnv (initState bootEnv)) = Inr s'
     \<and> inOctets (interfaces (monitorSystemMetricsTick tickEnv (initState bootEnv)) ! 0)
         \<le> inOctets (interfaces s' ! 0)
     \<and> outOctets (interfaces (monitorSystemMetricsTick tickEnv (initState bootEnv)) ! 0)
         \<le> outOctets (interfaces s' ! 0)
     \<and> inErrors (interfaces (monitorSystemMetricsTick tickEnv (initState bootEnv)) ! 0)
         \<le> inErrors (interfaces s' ! 0)
     \<and> outDiscards (interfaces (monitorSystemMetricsTick tickEnv (initState bootEnv)) ! 0)
         \<le> outDiscards (interfaces s' ! 0)
     \<and> (\<exists>p' v'. oidMap s' (ifInErrorsOID 1) = Some p' \<and> Value p' = GoUint32 v'
           \<and> unat v' \<le> unat (inErrors (interfaces s' ! 0)))
     \<and> (\<exists>p' v'. oidMap s' (ifOutDiscardsOID 1) = Some p' \<and> Value p' = GoUint32 v'
           \<and> unat v' \<le> unat (outDiscards (interfaces s' ! 0)))
     \<and> (\<exists>p' v'. oidMap s' sysUpTimeOID = Some p' \<and> Value p' = GoUint32 v' \<and> 12396756 \<le> v')
     \<and> (\<exists>p' v'. oidMap s' sysUpTimeOID = Some p' \<and> Value p' = GoUint32 v'
           \<and> unat v' = 12397256)
     \<and> (\<exists>p' v'. oidMap s' simGcCountOID = Some p' \<and> Type p' = Counter32
           \<and> Value p' = GoUint32 v' \<and> 2 \<le> v')
     \<and> (\<exists>p'. oidMap (monitorSystemMetricsTick gcTick
                        (monitorSystemMetricsTick tickEnv (initState bootEnv))) simGcCountOID
                 = Some p'
           \<and> Type p' = Counter32 \<and> Value p' = GoUint32 5)"
proof -
  let ?s1 = "monitorSystemMetricsTick tickEnv (initState bootEnv)"
  obtain s' where "run (initState bootEnv) [Fast tickEnv, Slow 5000000000] = Inr s'"
    using init_run_total by blast
  then have st: "step (Slow 5000000000) ?s1 = Inr s'" by (simp split: sum.splits)
  have ifs: "interfaces ?s1 = initInterfaces bootEnv"
    by (simp add: monitor_interfaces initState_def)
  have len: "0 < length (interfaces ?s1)" by (simp add: ifs initInterfaces_def)
  have b0: "interfaces (initState bootEnv) ! 0
      = mkInterface 1 ''GigabitEthernet1/0/1'' 1 1 4242 12161 1000000000"
    by (simp add: initState_def initInterfaces_def bootEnv_def)
  have a0: "interfaces ?s1 ! 0 = mkInterface 1 ''GigabitEthernet1/0/1'' 1 1 4242 12161 1000000000"
    using b0 by (simp add: monitor_interfaces)
  note f = counters_monotone_without_wrap[OF st len]
  have h1: "unat (inOctets (interfaces ?s1 ! 0)) + (30000 + 1000 * 0) \<le> 2 ^ 64"
    by (simp add: a0 mkInterface_def)
  have h2: "unat (outOctets (interfaces ?s1 ! 0)) + (45000 + 2000 * 0) \<le> 2 ^ 64"
    by (simp add: a0 mkInterface_def)
  have h3: "unat (inErrors (interfaces ?s1 ! 0)) + 3 < 2 ^ 64"
    by (simp add: a0 mkInterface_def)
  have h4: "unat (outDiscards (interfaces ?s1 ! 0)) + 2 < 2 ^ 64"
    by (simp add: a0 mkInterface_def)
  have d: "distinct (map index (interfaces (initState bootEnv)))"
    by (simp add: init_static(1))
  have m: "mkInterface 1 ''GigabitEthernet1/0/1'' 1 1 4242 12161 1000000000
      \<in> set (interfaces (initState bootEnv))"
    by (simp add: initState_def initInterfaces_def bootEnv_def)
  have act: "rateActive (currentTime tickEnv)
      (mkInterface 1 ''GigabitEthernet1/0/1'' 1 1 4242 12161 1000000000)"
    by (simp add: rateActive_iff mkInterface_def tickEnv_def)
  have e: "oidMap ?s1 (ifInErrorsOID 1)
      = Some \<lparr>Name = ifInErrorsOID 1, Type = Counter32, Value = GoUint32 0\<rparr>"
    using monitor_counter_entry(1)[OF d m, of tickEnv] act by (simp add: mkInterface_def)
  have e': "oidMap ?s1 (ifOutDiscardsOID 1)
      = Some \<lparr>Name = ifOutDiscardsOID 1, Type = Counter32, Value = GoUint32 0\<rparr>"
    using monitor_counter_entry(2)[OF d m, of tickEnv] act by (simp add: mkInterface_def)
  have h5: "distinct (map index (interfaces ?s1))
      \<and> oidMap ?s1 (ifInErrorsOID (index (interfaces ?s1 ! 0)))
          = Some \<lparr>Name = ifInErrorsOID 1, Type = Counter32, Value = GoUint32 0\<rparr>
      \<and> Value \<lparr>Name = ifInErrorsOID 1, Type = Counter32, Value = GoUint32 0\<rparr> = GoUint32 0
      \<and> unat (0 :: uint32) \<le> unat (inErrors (interfaces ?s1 ! 0))
      \<and> unat (inErrors (interfaces ?s1 ! 0)) + 3 < 2 ^ 32"
    using d e by (simp add: monitor_interfaces b0 mkInterface_def)
  have h6: "distinct (map index (interfaces ?s1))
      \<and> oidMap ?s1 (ifOutDiscardsOID (index (interfaces ?s1 ! 0)))
          = Some \<lparr>Name = ifOutDiscardsOID 1, Type = Counter32, Value = GoUint32 0\<rparr>
      \<and> Value \<lparr>Name = ifOutDiscardsOID 1, Type = Counter32, Value = GoUint32 0\<rparr> = GoUint32 0
      \<and> unat (0 :: uint32) \<le> unat (outDiscards (interfaces ?s1 ! 0))
      \<and> unat (outDiscards (interfaces ?s1 ! 0)) + 2 < 2 ^ 32"
    using d e' by (simp add: monitor_interfaces b0 mkInterface_def)
  have u: "oidMap ?s1 sysUpTimeOID
      = Some \<lparr>Name = sysUpTimeOID, Type = TimeTicks, Value = GoUint32 12396756\<rparr>"
    unfolding monitor_sysUpTime
    by (simp add: initState_def initOidList_def mkPDU_def oid_defs bootEnv_def)
  have h7: "oidMap ?s1 sysUpTimeOID
        = Some \<lparr>Name = sysUpTimeOID, Type = TimeTicks, Value = GoUint32 12396756\<rparr>
      \<and> Value \<lparr>Name = sysUpTimeOID, Type = TimeTicks, Value = GoUint32 12396756\<rparr>
          = GoUint32 12396756
      \<and> unat (12396756 :: uint32) + 500 < 2 ^ 32"
    using u by simp
  note f2 = conjunct2[OF f]
  note f3 = conjunct2[OF f2]
  note f4 = conjunct2[OF f3]
  note f5 = conjunct2[OF f4]
  note f6 = conjunct2[OF f5]
  note f7 = conjunct2[OF f6]
  have c1: "inOctets (interfaces ?s1 ! 0) \<le> inOctets (interfaces s' ! 0)"
    using conjunct1[OF f] h1 by simp
  have c2: "outOctets (interfaces ?s1 ! 0) \<le> outOctets (interfaces s' ! 0)"
    using conjunct1[OF f2] h2 by simp
  have c3: "inErrors (interfaces ?s1 ! 0) \<le> inErrors (interfaces s' ! 0)"
    using conjunct1[OF f3] h3 by blast
  have c4: "outDiscards (interfaces ?s1 ! 0) \<le> outDiscards (interfaces s' ! 0)"
    using conjunct1[OF f4] h4 by blast
  have c5: "\<exists>p' v'. oidMap s' (ifInErrorsOID (index (interfaces ?s1 ! 0))) = Some p'
       \<and> Value p' = GoUint32 v' \<and> 0 \<le> v' \<and> unat v' \<le> unat (inErrors (interfaces s' ! 0))"
    using conjunct1[OF f5] h5 by blast
  have c6: "\<exists>p' v'. oidMap s' (ifOutDiscardsOID (index (interfaces ?s1 ! 0))) = Some p'
       \<and> Value p' = GoUint32 v' \<and> 0 \<le> v' \<and> unat v' \<le> unat (outDiscards (interfaces s' ! 0))"
    using conjunct1[OF f6] h6 by blast
  have c7: "\<exists>p' v'. oidMap s' sysUpTimeOID = Some p' \<and> Value p' = GoUint32 v' \<and> 12396756 \<le> v'"
    using conjunct1[OF f7] h7 by blast
  note f8 = conjunct2[OF f7]
  note f9 = conjunct2[OF f8]
  note f10 = conjunct2[OF f9]
  have h8: "oidMap ?s1 sysUpTimeOID
        = Some \<lparr>Name = sysUpTimeOID, Type = TimeTicks, Value = GoUint32 12396756\<rparr>
      \<and> Value \<lparr>Name = sysUpTimeOID, Type = TimeTicks, Value = GoUint32 12396756\<rparr>
          = GoUint32 12396756"
    using u by simp
  have "\<exists>p' v'. oidMap s' sysUpTimeOID = Some p' \<and> Value p' = GoUint32 v'
       \<and> unat v' = (if isFast (Slow 5000000000) then unat (12396756 :: uint32)
                     else (unat (12396756 :: uint32) + 500) mod 2 ^ 32)"
    using conjunct1[OF f8] h8 by blast
  then have c8: "\<exists>p' v'. oidMap s' sysUpTimeOID = Some p' \<and> Value p' = GoUint32 v'
       \<and> unat v' = 12397256"
    by simp
  have gi: "oidMap (initState bootEnv) simGcCountOID
      = Some \<lparr>Name = simGcCountOID, Type = Counter32, Value = GoUint32 0\<rparr>"
    by (simp add: initState_def initOidList_def mkPDU_def oid_defs)
  have g1: "oidMap ?s1 simGcCountOID
      = Some \<lparr>Name = simGcCountOID, Type = Counter32, Value = GoUint32 2\<rparr>"
    using monitor_gc_oid[OF gi, of tickEnv] by (simp add: tickEnv_def)
  have h9: "oidMap ?s1 simGcCountOID
        = Some \<lparr>Name = simGcCountOID, Type = Counter32, Value = GoUint32 2\<rparr>
      \<and> Type \<lparr>Name = simGcCountOID, Type = Counter32, Value = GoUint32 2\<rparr> = Counter32
      \<and> Value \<lparr>Name = simGcCountOID, Type = Counter32, Value = GoUint32 2\<rparr> = GoUint32 2
      \<and> (\<forall>e. Slow 5000000000 = Fast e \<longrightarrow> 2 \<le> memNumGC e)"
    using g1 by simp
  have c9: "\<exists>p' v'. oidMap s' simGcCountOID = Some p' \<and> Type p' = Counter32
       \<and> Value p' = GoUint32 v' \<and> 2 \<le> v'"
    using conjunct2[OF f9] h9 by blast
  have sf: "step (Fast gcTick) ?s1 = Inr (monitorSystemMetricsTick gcTick ?s1)" by simp
  note k = counters_monotone_without_wrap[OF sf len]
  note k10 = conjunct2[OF conjunct2[OF conjunct2[OF conjunct2[OF conjunct2[OF conjunct2[OF
      conjunct2[OF conjunct2[OF conjunct2[OF k]]]]]]]]]
  have h10: "oidMap ?s1 simGcCountOID
        = Some \<lparr>Name = simGcCountOID, Type = Counter32, Value = GoUint32 2\<rparr>
      \<and> Type \<lparr>Name = simGcCountOID, Type = Counter32, Value = GoUint32 2\<rparr> = Counter32
      \<and> Value \<lparr>Name = simGcCountOID, Type = Counter32, Value = GoUint32 2\<rparr> = GoUint32 2
      \<and> (\<forall>e. Fast gcTick = Fast e \<longrightarrow> 2 \<le> memNumGC e)"
    using g1 by (simp add: gcTick_def tickEnv_def)
  have "\<exists>p' v'. oidMap (monitorSystemMetricsTick gcTick ?s1) simGcCountOID = Some p'
       \<and> Type p' = Counter32 \<and> Value p' = GoUint32 v' \<and> 2 \<le> v'
       \<and> (\<forall>e. Fast gcTick = Fast e \<longrightarrow> v' = memNumGC e)"
    using k10 h10 by blast
  then have c10: "\<exists>p'. oidMap (monitorSystemMetricsTick gcTick ?s1) simGcCountOID = Some p'
       \<and> Type p' = Counter32 \<and> Value p' = GoUint32 5"
    by (auto simp: gcTick_def tickEnv_def)
  have ix: "index (interfaces ?s1 ! 0) = 1" by (simp add: a0 mkInterface_def)
  have c5': "\<exists>p' v'. oidMap s' (ifInErrorsOID 1) = Some p' \<and> Value p' = GoUint32 v'
       \<and> unat v' \<le> unat (inErrors (interfaces s' ! 0))"
    using c5 unfolding ix by blast
  have c6': "\<exists>p' v'. oidMap s' (ifOutDiscardsOID 1) = Some p' \<and> Value p' = GoUint32 v'
       \<and> unat v' \<le> unat (outDiscards (interfaces s' ! 0))"
    using c6 unfolding ix by blast
  show ?thesis using st c1 c2 c3 c4 c5' c6' c7 c8 c9 c10 by blast
qed

text \<open>
  C4 as stated fails for the system uptime: from the initial value 12345296 the entry
  holds 4294966796 after 8565243 slow ticks, and \<open>(4294966796 + 500) mod 2^32 = 0\<close> after
  the next one.
\<close>

theorem sysUpTime_wraps_counterexample:
  "map_option Value
      (oidMap (projr (run (initState wrapBoot) (replicate 8565243 (Slow 5000000000))))
         sysUpTimeOID)
     = Some (GoUint32 4294966796)
   \<and> map_option Value
      (oidMap (projr (step (Slow 5000000000)
           (projr (run (initState wrapBoot) (replicate 8565243 (Slow 5000000000))))))
         sysUpTimeOID)
     = Some (GoUint32 0)
   \<and> \<not> isl (run (initState wrapBoot) (replicate 8565243 (Slow 5000000000)))
   \<and> \<not> isl (step (Slow 5000000000)
           (projr (run (initState wrapBoot) (replicate 8565243 (Slow 5000000000)))))"
proof -
  have i: "oidMap (initState wrapBoot) sysUpTimeOID
      = Some \<lparr>Name = sysUpTimeOID, Type = TimeTicks, Value = GoUint32 12345296\<rparr>"
    by (simp add: initState_def initOidList_def mkPDU_def oid_defs wrapBoot_def)
  obtain s1 where r: "run (initState wrapBoot) (replicate 8565243 (Slow 5000000000)) = Inr s1"
    and e: "oidMap s1 sysUpTimeOID
      = Some \<lparr>Name = sysUpTimeOID, Type = TimeTicks,
              Value = GoUint32 (12345296 + of_nat 8565243 * incrementTicks)\<rparr>"
    using slow_run_sysUpTime[OF i, of 12345296 8565243 5000000000] by auto
  have v: "(12345296 + of_nat 8565243 * incrementTicks :: uint32) = 4294966796"
    by (simp add: incrementTicks_val)
  have e1: "oidMap s1 sysUpTimeOID
      = Some \<lparr>Name = sysUpTimeOID, Type = TimeTicks, Value = GoUint32 4294966796\<rparr>"
    using e v by simp
  obtain s2 where st: "incrementCountersTick 5000000000 s1 = Inr s2"
    and e2: "oidMap s2 sysUpTimeOID
      = Some \<lparr>Name = sysUpTimeOID, Type = TimeTicks,
              Value = GoUint32 (4294966796 + incrementTicks)\<rparr>"
    using increment_sysUpTime[OF e1, of 4294966796 5000000000] by auto
  have w: "(4294966796 + incrementTicks :: uint32) = 0"
    by (simp add: incrementTicks_val)
  show ?thesis
    by (simp add: r st e1 e2 w)
qed

end
